(* ===== verification/Prelude.thy ===== *)
theory Prelude
  imports Complex_Main
begin

text \<open>
  Shared vocabulary of the development. Python floats are modelled as \<open>real\<close>
  (exact arithmetic: rounding is not modelled), Python ints as \<open>int\<close> and loop
  counters as \<open>nat\<close>. Every exception the sources raise, and every Python runtime
  error their arithmetic or indexing can trigger, is a constructor of
  \<open>py_error\<close> (\<open>LinAlgError\<close> is numpy's exception for a singular matrix); a fallible routine returns \<open>py_error + 'a\<close> with the error on the
  left. A user callback is a plain HOL function (pure, as the spec's callback
  contract assumes).
\<close>

datatype py_error =
    ZeroDivisionError
  | IndexError
  | UnboundLocalError
  | ValueError
  | AttributeError
  | LinAlgError
  | Exception string

type_synonym 'a result = "py_error + 'a"

text \<open>Callback shapes: \<open>f(x)\<close> of the quadrature and root finders, \<open>dydx(x, y)\<close> of
  the scalar ODE steppers, \<open>f(args)\<close> of the system steppers.\<close>

type_synonym fun1 = "real \<Rightarrow> real"
type_synonym rhs = "real \<Rightarrow> real \<Rightarrow> real"
type_synonym sys_rhs = "real list \<Rightarrow> real"

text \<open>A two-dimensional \<open>np.empty\<close> array of floats: a function of its two
  indices, whose initial contents are arbitrary.\<close>

type_synonym table = "nat \<Rightarrow> nat \<Rightarrow> real"

text \<open>A stage formula maps the current point \<open>x\<close>, state \<open>y\<close> and step \<open>h\<close> to the
  next state: the body of a stepper's loop.\<close>

type_synonym stage = "real \<Rightarrow> real \<Rightarrow> real \<Rightarrow> real"

text \<open>Sequencing of fallible steps: the first error is propagated.\<close>

definition res_bind :: "'a result \<Rightarrow> ('a \<Rightarrow> 'b result) \<Rightarrow> 'b result" where
  "res_bind r f = (case r of Inl e \<Rightarrow> Inl e | Inr a \<Rightarrow> f a)"

text \<open>Python's true division \<open>a / b\<close> on numbers: \<open>ZeroDivisionError\<close> when
  \<open>b = 0\<close>.\<close>

definition py_div :: "real \<Rightarrow> real \<Rightarrow> real result" where
  "py_div a b = (if b = 0 then Inl ZeroDivisionError else Inr (a / b))"

text \<open>Python list indexing \<open>xs[i]\<close>: a negative index counts from the end,
  anything else out of range raises \<open>IndexError\<close>.\<close>

definition py_get :: "'a list \<Rightarrow> int \<Rightarrow> 'a result" where
  "py_get xs i =
     (let k = (if 0 \<le> i then i else int (length xs) + i)
      in if k < 0 \<or> int (length xs) \<le> k then Inl IndexError else Inr (xs ! nat k))"

text \<open>Python's \<open>xs.index(x)\<close>: the position of the first occurrence, \<open>ValueError\<close>
  when there is none.\<close>

fun py_index :: "'a list \<Rightarrow> 'a \<Rightarrow> nat result" where
  "py_index [] x = Inl ValueError"
| "py_index (y # ys) x =
     (if y = x then Inr 0 else (case py_index ys x of Inl e \<Rightarrow> Inl e | Inr i \<Rightarrow> Inr (Suc i)))"

text \<open>Python's \<open>max(xs)\<close> and \<open>min(xs)\<close> on a list: \<open>ValueError\<close> when it is empty.\<close>

definition py_max :: "real list \<Rightarrow> real result" where
  "py_max xs = (case xs of [] \<Rightarrow> Inl ValueError | x # xs' \<Rightarrow> Inr (fold max xs' x))"

definition py_min :: "real list \<Rightarrow> real result" where
  "py_min xs = (case xs of [] \<Rightarrow> Inl ValueError | x # xs' \<Rightarrow> Inr (fold min xs' x))"

text \<open>Test polynomials of the exactness theorems and their antiderivatives.\<close>

definition cubic :: "real \<Rightarrow> real \<Rightarrow> real \<Rightarrow> real \<Rightarrow> real \<Rightarrow> real" where
  "cubic c0 c1 c2 c3 x = c0 + c1 * x + c2 * x ^ 2 + c3 * x ^ 3"

definition cubic_int :: "real \<Rightarrow> real \<Rightarrow> real \<Rightarrow> real \<Rightarrow> real \<Rightarrow> real" where
  "cubic_int c0 c1 c2 c3 x = c0 * x + c1 * x ^ 2 / 2 + c2 * x ^ 3 / 3 + c3 * x ^ 4 / 4"

definition quintic :: "real \<Rightarrow> real \<Rightarrow> real \<Rightarrow> real \<Rightarrow> real \<Rightarrow> real \<Rightarrow> real \<Rightarrow> real" where
  "quintic c0 c1 c2 c3 c4 c5 x = c0 + c1 * x + c2 * x ^ 2 + c3 * x ^ 3 + c4 * x ^ 4 + c5 * x ^ 5"

definition quintic_int :: "real \<Rightarrow> real \<Rightarrow> real \<Rightarrow> real \<Rightarrow> real \<Rightarrow> real \<Rightarrow> real \<Rightarrow> real" where
  "quintic_int c0 c1 c2 c3 c4 c5 x =
     c0 * x + c1 * x ^ 2 / 2 + c2 * x ^ 3 / 3 + c3 * x ^ 4 / 4 + c4 * x ^ 5 / 5 + c5 * x ^ 6 / 6"

text \<open>The Taylor polynomial of \<open>exp z\<close> to degree \<open>p\<close>: the growth factor an
  order-\<open>p\<close> Runge-Kutta step must reproduce on \<open>y' = \<lambda> y\<close>, with \<open>z = \<lambda> h\<close>.\<close>

definition exp_taylor :: "nat \<Rightarrow> real \<Rightarrow> real" where
  "exp_taylor p z = (\<Sum>k\<le>p. z ^ k / fact k)"

named_theorems poly_defs "unfolding rules of the test polynomials"
declare cubic_def [poly_defs] cubic_int_def [poly_defs]
  quintic_def [poly_defs] quintic_int_def [poly_defs]

lemma res_bind_simps [simp]: "res_bind (Inl e) f = Inl e" "res_bind (Inr a) f = f a"
  by (simp_all add: res_bind_def)

lemma py_div_nonzero [simp]: "b \<noteq> 0 \<Longrightarrow> py_div a b = Inr (a / b)"
  by (simp add: py_div_def)

lemma py_div_zero [simp]: "py_div a 0 = Inl ZeroDivisionError"
  by (simp add: py_div_def)

lemma py_get_nonneg [simp]: "0 \<le> i \<Longrightarrow> i < int (length xs) \<Longrightarrow> py_get xs i = Inr (xs ! nat i)"
  by (simp add: py_get_def)

lemma py_get_neg1 [simp]: "xs \<noteq> [] \<Longrightarrow> py_get xs (-1) = Inr (last xs)"
proof -
  assume ne: "xs \<noteq> []"
  then have "nat (int (length xs) - 1) = length xs - 1" by (simp add: nat_diff_distrib)
  with ne show ?thesis by (simp add: py_get_def last_conv_nth)
qed

lemma py_index_first [simp]: "j < length xs \<Longrightarrow> xs ! j \<notin> set (take j xs) \<Longrightarrow> py_index xs (xs ! j) = Inr j"
proof (induction xs arbitrary: j)
  case (Cons y ys)
  then show ?case by (cases j) auto
qed simp

lemma sum_real_Suc: "(\<Sum>j<m. real (Suc j)) = real m * (real m + 1) / 2"
  by (induction m) (simp_all add: field_simps)

lemma sum_from1_shift: "0 < N \<Longrightarrow> (\<Sum>i = 1..<N. g i) = (\<Sum>j<N - 1. g (Suc j))"
proof -
  assume "0 < N"
  then obtain k where "N = Suc k" by (cases N) auto
  then show ?thesis
    by (simp only: One_nat_def sum.shift_bounds_Suc_ivl atLeast0LessThan diff_Suc_Suc diff_zero)
qed

lemma exp_taylor_Suc: "exp_taylor (Suc p) z = exp_taylor p z + z ^ Suc p / fact (Suc p)"
  by (simp add: exp_taylor_def)

lemma exp_taylor_upto5 [simp]:
  "exp_taylor 1 z = 1 + z"
  "exp_taylor 2 z = 1 + z + z ^ 2 / 2"
  "exp_taylor 3 z = 1 + z + z ^ 2 / 2 + z ^ 3 / 6"
  "exp_taylor 4 z = 1 + z + z ^ 2 / 2 + z ^ 3 / 6 + z ^ 4 / 24"
  "exp_taylor 5 z = 1 + z + z ^ 2 / 2 + z ^ 3 / 6 + z ^ 4 / 24 + z ^ 5 / 120"
  by (simp_all add: exp_taylor_def numeral_eq_Suc fact_numeral)

end
