(* ===== verification/ODE.thy ===== *)
theory ODE
  imports Prelude
begin

text \<open>
  The scalar fixed-step ODE steppers of \<open>src/ODE.py\<close> (class \<open>ODE\<close>: \<open>Euler\<close>,
  \<open>Heun\<close>, \<open>Midpoint\<close>, \<open>RK2\<close>, \<open>RK3\<close>, \<open>RK4\<close>, \<open>RK5\<close>). Every method is the same
  \<open>while (xi + h <= xf)\<close> loop, with the in-loop clamp of \<open>h\<close>, around its own stage
  formula: the loop is \<open>ode_loop\<close>, parameterised by the stage, and each method is
  \<open>ode_loop\<close> applied to its stage definition. The loop is a
  \<^theory_text>\<open>partial_function (option)\<close>: \<open>None\<close> is the Python loop running forever.
  \<open>ode_iter\<close> is the reference trajectory (\<open>n\<close> steps of size \<open>h\<close>) against which
  the loop is proved; \<open>ode_steps\<close> is the number of steps the loop takes.
\<close>

section \<open>Definitions\<close>

subsection \<open>The shared stepping loop\<close>

partial_function (option) ode_loop ::
  "(real \<Rightarrow> 'a \<Rightarrow> real \<Rightarrow> 'a) \<Rightarrow> real \<Rightarrow> real \<Rightarrow> real \<Rightarrow> 'a \<Rightarrow> real list \<Rightarrow> 'a list
   \<Rightarrow> (real list \<times> 'a list) option" where
  "ode_loop step xf h xi yi x_arr y_arr =
     (if xi + h \<le> xf then
        (let h' = (if xi + h > xf then xf - xi else h);
             y_next = step xi yi h';
             xi' = xi + h'
         in ode_loop step xf h' xi' y_next (x_arr @ [xi']) (y_arr @ [y_next]))
      else Some (x_arr, y_arr))"

subsection \<open>Stage formulas\<close>

definition euler_step :: "rhs \<Rightarrow> stage" where
  "euler_step dydx xi yi h = yi + dydx xi yi * h"

definition heun_step :: "rhs \<Rightarrow> stage" where
  "heun_step dydx xi yi h =
    (let y_next_0 = yi + dydx xi yi * h;
         y_next_1 = dydx (xi + h) y_next_0
     in yi + (dydx xi yi + y_next_1) / 2 * h)"

definition midpoint_step :: "rhs \<Rightarrow> stage" where
  "midpoint_step dydx xi yi h =
    (let y_next_hl = yi + dydx xi yi * h / 2
     in yi + dydx (xi + h / 2) y_next_hl * h)"

definition rk2_step :: "real \<Rightarrow> real \<Rightarrow> real \<Rightarrow> real \<Rightarrow> rhs \<Rightarrow> stage" where
  "rk2_step a1 a2 p1 q11 dydx xi yi h =
    (let k1 = dydx xi yi;
         k2 = dydx (xi + p1 * h) (yi + q11 * k1 * h)
     in yi + (a1 * k1 + a2 * k2) * h)"

definition rk3_step :: "rhs \<Rightarrow> stage" where
  "rk3_step dydx xi yi h =
    (let k1 = dydx xi yi;
         k2 = dydx (xi + 1/2 * h) (yi + 1/2 * k1 * h);
         k3 = dydx (xi + h) (yi - k1 * h + 2 * k2 * h)
     in yi + 1/6 * (k1 + 4 * k2 + k3) * h)"

definition rk4_step :: "rhs \<Rightarrow> stage" where
  "rk4_step dydx xi yi h =
    (let k1 = dydx xi yi;
         k2 = dydx (xi + 1/2 * h) (yi + 1/2 * k1 * h);
         k3 = dydx (xi + 1/2 * h) (yi + 1/2 * k2 * h);
         k4 = dydx (xi + h) (yi + k3 * h)
     in yi + 1/6 * (k1 + 2 * k2 + 2 * k3 + k4) * h)"

definition rk5_step :: "rhs \<Rightarrow> stage" where
  "rk5_step dydx xi yi h =
    (let k1 = dydx xi yi;
         k2 = dydx (xi + 1/4 * h) (yi + 1/4 * k1 * h);
         k3 = dydx (xi + 1/4 * h) (yi + 1/8 * k1 * h + 1/8 * k2 * h);
         k4 = dydx (xi + 1/2 * h) (yi - 1/2 * k2 * h + k3 * h);
         k5 = dydx (xi + 3/4 * h) (yi + 3/16 * k1 * h + 9/16 * k4 * h);
         k6 = dydx (xi + h) (yi - 3/7 * k1 * h + 2/7 * k2 * h + 12/7 * k3 * h
                              - 12/7 * k4 * h + 8/7 * k5 * h)
     in yi + 1/90 * (7 * k1 + 32 * k3 + 12 * k4 + 32 * k5 + 7 * k6) * h)"

subsection \<open>The methods of class ODE\<close>

text \<open>Each method starts the trajectory with the initial condition,
  \<open>x_arr, y_arr = [xi], [yi]\<close>, and runs the loop.\<close>

definition Euler :: "real \<Rightarrow> real \<Rightarrow> real \<Rightarrow> real \<Rightarrow> rhs \<Rightarrow> (real list \<times> real list) option" where
  "Euler xi xf yi h dydx = ode_loop (euler_step dydx) xf h xi yi [xi] [yi]"

definition Heun :: "real \<Rightarrow> real \<Rightarrow> real \<Rightarrow> real \<Rightarrow> rhs \<Rightarrow> (real list \<times> real list) option" where
  "Heun xi xf yi h dydx = ode_loop (heun_step dydx) xf h xi yi [xi] [yi]"

definition Midpoint :: "real \<Rightarrow> real \<Rightarrow> real \<Rightarrow> real \<Rightarrow> rhs \<Rightarrow> (real list \<times> real list) option" where
  "Midpoint xi xf yi h dydx = ode_loop (midpoint_step dydx) xf h xi yi [xi] [yi]"

definition RK2 :: "real \<Rightarrow> real \<Rightarrow> real \<Rightarrow> real \<Rightarrow> real \<Rightarrow> real \<Rightarrow> real \<Rightarrow> real \<Rightarrow> rhs
    \<Rightarrow> (real list \<times> real list) option" where
  "RK2 xi xf yi h a1 a2 p1 q11 dydx = ode_loop (rk2_step a1 a2 p1 q11 dydx) xf h xi yi [xi] [yi]"

definition RK3 :: "real \<Rightarrow> real \<Rightarrow> real \<Rightarrow> real \<Rightarrow> rhs \<Rightarrow> (real list \<times> real list) option" where
  "RK3 xi xf yi h dydx = ode_loop (rk3_step dydx) xf h xi yi [xi] [yi]"

definition RK4 :: "real \<Rightarrow> real \<Rightarrow> real \<Rightarrow> real \<Rightarrow> rhs \<Rightarrow> (real list \<times> real list) option" where
  "RK4 xi xf yi h dydx = ode_loop (rk4_step dydx) xf h xi yi [xi] [yi]"

definition RK5 :: "real \<Rightarrow> real \<Rightarrow> real \<Rightarrow> real \<Rightarrow> rhs \<Rightarrow> (real list \<times> real list) option" where
  "RK5 xi xf yi h dydx = ode_loop (rk5_step dydx) xf h xi yi [xi] [yi]"

subsection \<open>Reference trajectory\<close>

text \<open>\<open>ode_iter step n h xi yi\<close>: the \<open>n\<close> points after the start of a trajectory
  of \<open>n\<close> steps of size \<open>h\<close>; \<open>ode_steps\<close>: how many steps fit before \<open>xf\<close>.\<close>

fun ode_iter :: "(real \<Rightarrow> 'a \<Rightarrow> real \<Rightarrow> 'a) \<Rightarrow> nat \<Rightarrow> real \<Rightarrow> real \<Rightarrow> 'a \<Rightarrow> real list \<times> 'a list" where
  "ode_iter step 0 h xi yi = ([], [])"
| "ode_iter step (Suc n) h xi yi =
     (let y' = step xi yi h; (xs, ys) = ode_iter step n h (xi + h) y'
      in ((xi + h) # xs, y' # ys))"

definition ode_steps :: "real \<Rightarrow> real \<Rightarrow> real \<Rightarrow> nat" where
  "ode_steps xi xf h = nat \<lfloor>(xf - xi) / h\<rfloor>"

definition trajectory :: "(real \<Rightarrow> 'a \<Rightarrow> real \<Rightarrow> 'a) \<Rightarrow> real \<Rightarrow> real \<Rightarrow> 'a \<Rightarrow> real \<Rightarrow> real list \<times> 'a list" where
  "trajectory step xi xf yi h =
     (let (xs, ys) = ode_iter step (ode_steps xi xf h) h xi yi in (xi # xs, yi # ys))"

named_theorems stage_defs "the stage formulas of the scalar steppers"
declare euler_step_def [stage_defs] heun_step_def [stage_defs] midpoint_step_def [stage_defs]
  rk2_step_def [stage_defs] rk3_step_def [stage_defs] rk4_step_def [stage_defs]
  rk5_step_def [stage_defs]

lemmas method_defs = Euler_def Heun_def Midpoint_def RK2_def RK3_def RK4_def RK5_def

section \<open>The loop\<close>

lemma ode_steps_Suc:
  assumes "0 < h" "ode_steps xi xf h = Suc n"
  shows "xi + h \<le> xf" "ode_steps (xi + h) xf h = n"
proof -
  have f: "\<lfloor>(xf - xi) / h\<rfloor> = int (Suc n)"
    using assms by (simp add: ode_steps_def)
  then have "1 \<le> (xf - xi) / h" by linarith
  with assms(1) show "xi + h \<le> xf" by (simp add: field_simps)
  have "(xf - (xi + h)) / h = (xf - xi) / h - 1"
    using assms(1) by (simp add: field_simps)
  then have "\<lfloor>(xf - (xi + h)) / h\<rfloor> = int n" using f by simp
  then show "ode_steps (xi + h) xf h = n" by (simp add: ode_steps_def)
qed

lemma ode_steps_0:
  assumes "0 < h" "ode_steps xi xf h = 0"
  shows "xf < xi + h"
proof (rule ccontr)
  assume "\<not> xf < xi + h"
  with assms(1) have "1 \<le> (xf - xi) / h" by (simp add: field_simps)
  then have "1 \<le> \<lfloor>(xf - xi) / h\<rfloor>" by linarith
  with assms(2) show False by (simp add: ode_steps_def)
qed

text \<open>The clamp \<open>if (xi + h) > xf: h = xf - xi\<close> sits under the loop guard
  \<open>xi + h <= xf\<close>, so it never fires: one iteration of the loop is one step of size
  \<open>h\<close>.\<close>

lemma ode_loop_unfold_step:
  "xi + h \<le> xf \<Longrightarrow>
   ode_loop step xf h xi yi xs ys =
   ode_loop step xf h (xi + h) (step xi yi h) (xs @ [xi + h]) (ys @ [step xi yi h])"
  by (subst ode_loop.simps) (simp add: Let_def not_less)

lemma ode_loop_unfold_stop: "xf < xi + h \<Longrightarrow> ode_loop step xf h xi yi xs ys = Some (xs, ys)"
  by (subst ode_loop.simps) simp

lemma ode_loop_iter:
  assumes "0 < h"
  shows "ode_loop step xf h xi yi xs ys =
    Some (xs @ fst (ode_iter step (ode_steps xi xf h) h xi yi),
          ys @ snd (ode_iter step (ode_steps xi xf h) h xi yi))"
  using assms
proof (induction "ode_steps xi xf h" arbitrary: xi yi xs ys)
  case 0
  from ode_steps_0[OF \<open>0 < h\<close> "0.hyps"[symmetric]] "0.hyps"[symmetric]
  show ?case by (simp add: ode_loop_unfold_stop)
next
  case (Suc n)
  from ode_steps_Suc[OF Suc.prems Suc.hyps(2)[symmetric]]
  have le: "xi + h \<le> xf" and n: "ode_steps (xi + h) xf h = n" by auto
  show ?case
    using Suc.hyps(1)[OF n[symmetric] Suc.prems] Suc.hyps(2)[symmetric] n
    by (simp add: ode_loop_unfold_step[OF le] Let_def split_beta)
qed

lemma ode_loop_diverges:
  assumes "h \<le> 0" "xi + h \<le> xf"
  shows "ode_loop step xf h xi yi xs ys = None"
proof (rule ccontr)
  assume "ode_loop step xf h xi yi xs ys \<noteq> None"
  then obtain r where ret: "ode_loop step xf h xi yi xs ys = Some r" by auto
  have "h \<le> 0 \<longrightarrow> xi + h \<le> xf \<longrightarrow> False"
  proof (rule ode_loop.raw_induct
      [where P = "\<lambda>step xf h xi yi xs ys r. h \<le> 0 \<longrightarrow> xi + h \<le> xf \<longrightarrow> False", OF _ ret])
    fix f and step :: "real \<Rightarrow> 'a \<Rightarrow> real \<Rightarrow> 'a" and xf h xi :: real and yi :: 'a
      and xs :: "real list" and ys :: "'a list" and r :: "real list \<times> 'a list"
    assume IH: "\<And>step xf h xi yi xs ys r. f step xf h xi yi xs ys = Some r \<Longrightarrow>
        h \<le> 0 \<longrightarrow> xi + h \<le> xf \<longrightarrow> False"
      and eq: "(if xi + h \<le> xf
        then let h' = if xf < xi + h then xf - xi else h;
                 y_next = step xi yi h'; xi' = xi + h'
             in f step xf h' xi' y_next (xs @ [xi']) (ys @ [y_next])
        else Some (xs, ys)) = Some r"
    show "h \<le> 0 \<longrightarrow> xi + h \<le> xf \<longrightarrow> False"
    proof (intro impI)
      assume h: "h \<le> 0" and g: "xi + h \<le> xf"
      from g have "\<not> xf < xi + h" by linarith
      with eq g have "f step xf h (xi + h) (step xi yi h) (xs @ [xi + h]) (ys @ [step xi yi h]) = Some r"
        by (simp add: Let_def)
      moreover have "xi + h + h \<le> xf" using h g by linarith
      ultimately show False using IH h by blast
    qed
  qed
  with assms show False by blast
qed

section \<open>The reference trajectory\<close>

lemma ode_iter_length [simp]:
  "length (fst (ode_iter step n h xi yi)) = n" "length (snd (ode_iter step n h xi yi)) = n"
  by (induction n arbitrary: xi yi) (simp_all add: Let_def split_beta)

lemma ode_iter_xs: "fst (ode_iter step n h xi yi) = map (\<lambda>k. xi + real (Suc k) * h) [0..<n]"
proof (induction n arbitrary: xi yi)
  case 0
  show ?case by simp
next
  case (Suc n)
  have "map (\<lambda>k. xi + h + real (Suc k) * h) [0..<n] = map (\<lambda>k. xi + real (Suc (Suc k)) * h) [0..<n]"
    by (simp add: algebra_simps)
  with Suc show ?case by (simp add: Let_def split_beta map_upt_Suc del: upt_Suc)
qed

lemma trajectory_xs: "fst (trajectory step xi xf yi h) = map (\<lambda>k. xi + real k * h) [0..<Suc (ode_steps xi xf h)]"
  by (simp add: trajectory_def split_beta ode_iter_xs map_upt_Suc del: upt_Suc)

lemma ode_steps_last:
  assumes "0 < h" "xi \<le> xf"
  shows "xi + real (ode_steps xi xf h) * h \<le> xf" "xf < xi + real (ode_steps xi xf h) * h + h"
proof -
  have q: "0 \<le> (xf - xi) / h" using assms by simp
  have eq: "real (ode_steps xi xf h) = of_int \<lfloor>(xf - xi) / h\<rfloor>"
    using q by (simp add: ode_steps_def)
  have "of_int \<lfloor>(xf - xi) / h\<rfloor> * h \<le> (xf - xi) / h * h"
    using assms(1) by (intro mult_right_mono) simp_all
  then show "xi + real (ode_steps xi xf h) * h \<le> xf" using assms(1) eq by simp
  have "(xf - xi) / h * h < (of_int \<lfloor>(xf - xi) / h\<rfloor> + 1) * h"
    using assms(1) by (intro mult_strict_right_mono) simp_all
  moreover have "(xf - xi) / h * h = xf - xi" using assms(1) by simp
  ultimately show "xf < xi + real (ode_steps xi xf h) * h + h" using eq by (simp add: algebra_simps)
qed

lemma ode_loop_start:
  "0 < h \<Longrightarrow> ode_loop step xf h xi yi [xi] [yi] = Some (xs, ys) \<Longrightarrow>
   xs = map (\<lambda>k. xi + real k * h) [0..<Suc (ode_steps xi xf h)] \<and> length ys = length xs"
  using ode_loop_iter[of h step xf xi yi "[xi]" "[yi]"]
  by (auto simp: ode_iter_xs map_upt_Suc simp del: upt_Suc)

lemma sorted_wrt_affine_grid:
  "0 < h \<Longrightarrow> sorted_wrt (<) (map (\<lambda>k. xi + real k * h) [0..<n])"
  by (simp add: sorted_wrt_map sorted_wrt_iff_nth_less)

text \<open>A stage that adds \<open>Q x\<close> to \<open>y\<close> (a right-hand side that does not depend on
  \<open>y\<close>) accumulates the sum of \<open>Q\<close> over the grid.\<close>

lemma ode_iter_quadrature:
  assumes step: "\<And>x y. step x y h = y + Q x"
  shows "last (yi # snd (ode_iter step n h xi yi)) = yi + (\<Sum>k<n. Q (xi + real k * h))"
proof (induction n arbitrary: xi yi)
  case 0
  then show ?case by simp
next
  case (Suc n)
  have shift: "xi + h + real k * h = xi + (1 + real k) * h" for k by (simp add: algebra_simps)
  have "last (yi # snd (ode_iter step (Suc n) h xi yi)) = last (step xi yi h # snd (ode_iter step n h (xi + h) (step xi yi h)))"
    by (simp add: Let_def split_beta)
  also have "\<dots> = step xi yi h + (\<Sum>k<n. Q (xi + h + real k * h))" by (rule Suc.IH)
  finally show ?case by (simp add: step shift sum.lessThan_Suc_shift del: sum.lessThan_Suc) (simp only: add.assoc)
qed

section \<open>Properties of the steppers\<close>

subsection \<open>The loop computes the reference trajectory\<close>

text \<open>C1: with a positive step the stepping loop shared by all seven methods
  returns, and what it returns is the reference trajectory: the start point
  followed by \<open>ode_steps xi xf h\<close> applications of the stage formula, each of the
  full size \<open>h\<close> (the clamp never shortens a step).\<close>

theorem ode_loop_refines_trajectory:
  assumes "0 < h"
  shows "ode_loop step xf h xi yi [xi] [yi] = Some (trajectory step xi xf yi h)"
  using ode_loop_iter[OF assms, of step xf xi yi "[xi]" "[yi]"]
  by (simp add: trajectory_def split_beta)

theorem ode_loop_refines_trajectory_witness:
  "ode_loop (rk4_step (\<lambda>x y. x)) 1 (1/2) 0 0 [0] [0] =
   Some (trajectory (rk4_step (\<lambda>x y. x)) 0 1 0 (1/2)) \<and>
   trajectory (rk4_step (\<lambda>x y. x)) 0 1 0 (1/2) = ([0, 1/2, 1], [0, 1/8, 1/2])"
proof
  show "ode_loop (rk4_step (\<lambda>x y. x)) 1 (1/2) 0 0 [0] [0] =
      Some (trajectory (rk4_step (\<lambda>x y. x)) 0 1 0 (1/2))"
    by (rule ode_loop_refines_trajectory) simp
  have "ode_steps 0 1 (1/2) = 2" by (simp add: ode_steps_def)
  then show "trajectory (rk4_step (\<lambda>x y. x)) 0 1 0 (1/2) = ([0, 1/2, 1], [0, 1/8, 1/2])"
    by (simp add: trajectory_def rk4_step_def numeral_eq_Suc)
qed

text \<open>C2: for \<open>0 < h\<close> and \<open>xi \<le> xf\<close> the returned \<open>x\<close> values are the grid
  \<open>xi, xi + h, xi + 2h, ...\<close>: they start at \<open>xi\<close>, increase strictly, pair one to
  one with the \<open>y\<close> values, and the last one lies in \<open>(xf - h, xf]\<close>.\<close>

theorem ode_loop_trajectory_grid:
  assumes "0 < h" "xi \<le> xf" "ode_loop step xf h xi yi [xi] [yi] = Some (xs, ys)"
  shows "xs = map (\<lambda>k. xi + real k * h) [0..<length xs] \<and> hd xs = xi \<and>
         length ys = length xs \<and> sorted_wrt (<) xs \<and> last xs \<le> xf \<and> xf < last xs + h"
proof -
  let ?N = "ode_steps xi xf h"
  from ode_loop_start[OF assms(1) assms(3)]
  have xs: "xs = map (\<lambda>k. xi + real k * h) [0..<Suc ?N]" and len: "length ys = length xs"
    by auto
  have "last xs = xi + real ?N * h" using xs by simp
  moreover have "hd xs = xi" using xs by (simp add: map_upt_Suc del: upt_Suc)
  ultimately show ?thesis
    using ode_steps_last[OF assms(1,2)] xs len sorted_wrt_affine_grid[OF assms(1)]
    by (simp del: upt_Suc)
qed

theorem ode_loop_trajectory_grid_witness:
  "[0, 3/10, 3/5, 9/10 :: real] = map (\<lambda>k. 0 + real k * (3/10)) [0..<4] \<and>
   sorted_wrt (<) [0, 3/10, 3/5, 9/10 :: real] \<and> (9/10 :: real) \<le> 1 \<and> (1 :: real) < 9/10 + 3/10"
proof -
  have run: "ode_loop (euler_step (\<lambda>x y. y)) 1 (3/10) 0 1 [0] [1] =
      Some ([0, 3/10, 3/5, 9/10], [1, 13/10, 169/100, 2197/1000])"
    by (simp add: ode_loop.simps euler_step_def)
  show ?thesis
    using ode_loop_trajectory_grid[OF _ _ run] by (simp add: upt_rec)
qed

subsection \<open>Termination\<close>

text \<open>C3: the stepping loop returns exactly when the step is positive or the
  loop is never entered (\<open>xf < xi + h\<close>); with \<open>h \<le> 0\<close> and \<open>xi + h \<le> xf\<close> it
  runs forever, as the spec's "caller responsibility" note says.\<close>

theorem ode_loop_returns_iff:
  "(\<exists>r. ode_loop step xf h xi yi xs ys = Some r) \<longleftrightarrow> (0 < h \<or> xf < xi + h)"
proof
  assume "\<exists>r. ode_loop step xf h xi yi xs ys = Some r"
  then show "0 < h \<or> xf < xi + h"
    using ode_loop_diverges[of h xi xf step yi xs ys] by fastforce
next
  assume "0 < h \<or> xf < xi + h"
  then show "\<exists>r. ode_loop step xf h xi yi xs ys = Some r"
    using ode_loop_iter[of h step xf xi yi xs ys] ode_loop_unfold_stop[of xf xi h step yi xs ys]
    by blast
qed

subsection \<open>The end point\<close>

text \<open>C4: the last \<open>x\<close> of the trajectory equals the requested bound \<open>xf\<close>
  exactly when \<open>(xf - xi) / h\<close> is an integer. The spec promises the last \<open>x\<close>
  equals \<open>xf\<close> by truncating the final step; the code's clamp is dead, so for
  any other step size the trajectory stops short of \<open>xf\<close>.\<close>

theorem ode_loop_endpoint_iff:
  assumes "0 < h" "xi \<le> xf" "ode_loop step xf h xi yi [xi] [yi] = Some (xs, ys)"
  shows "last xs = xf \<longleftrightarrow> (xf - xi) / h \<in> \<int>"
proof -
  let ?q = "(xf - xi) / h"
  have xs: "xs = map (\<lambda>k. xi + real k * h) [0..<Suc (ode_steps xi xf h)]"
    using ode_loop_start[OF assms(1) assms(3)] by auto
  have q0: "0 \<le> ?q" using assms(1,2) by simp
  have N: "real (ode_steps xi xf h) = of_int \<lfloor>?q\<rfloor>"
    using q0 by (simp add: ode_steps_def)
  have qh: "?q * h = xf - xi" using assms(1) by simp
  have "last xs = xi + of_int \<lfloor>?q\<rfloor> * h" using xs N by simp
  then have "last xs = xf \<longleftrightarrow> of_int \<lfloor>?q\<rfloor> * h = ?q * h" using qh by auto
  also have "\<dots> \<longleftrightarrow> of_int \<lfloor>?q\<rfloor> = ?q"
  proof -
    have hn: "h \<noteq> 0" using assms(1) by simp
    show ?thesis by (simp only: mult_cancel_right hn simp_thms)
  qed
  also have "\<dots> \<longleftrightarrow> ?q \<in> \<int>"
  proof
    assume "of_int \<lfloor>?q\<rfloor> = ?q"
    then show "?q \<in> \<int>" by (metis Ints_of_int)
  next
    assume "?q \<in> \<int>"
    then show "of_int \<lfloor>?q\<rfloor> = ?q" by (auto elim: Ints_cases)
  qed
  finally show ?thesis .
qed

theorem ode_loop_endpoint_iff_witness: "(10/3 :: real) \<notin> \<int>"
proof -
  have run: "ode_loop (euler_step (\<lambda>x y. y)) 1 (3/10) 0 1 [0] [1] =
      Some ([0, 3/10, 3/5, 9/10], [1, 13/10, 169/100, 2197/1000])"
    by (simp add: ode_loop.simps euler_step_def)
  show ?thesis
    using ode_loop_endpoint_iff[OF _ _ run] by simp
qed

subsection \<open>Order of the stage formulas\<close>

text \<open>
  Each stage formula is checked against two standard order conditions: on the
  linear test equation \<open>y' = \<lambda> y\<close> one step multiplies \<open>y\<close> by the Taylor
  polynomial of \<open>exp (\<lambda> h)\<close> up to the method's order; on a right-hand side that
  depends on \<open>x\<close> only, the step is a quadrature rule and integrates polynomials up
  to the method's degree exactly. Together they pin down the nodes, the stage
  coefficients and the weights the source reproduces.
\<close>

text \<open>C5: the classical fourth-order step (\<open>ODE.RK4\<close>) multiplies \<open>y\<close> by
  \<open>1 + z + z^2/2 + z^3/6 + z^4/24\<close> on \<open>y' = \<lambda> y\<close>, and integrates cubics in
  \<open>x\<close> exactly (it is Simpson's rule on \<open>[x, x + h]\<close>).\<close>

theorem rk4_step_order:
  "rk4_step (\<lambda>x y. lam * y) x y h = y * exp_taylor 4 (lam * h) \<and>
   rk4_step (\<lambda>x y. cubic c0 c1 c2 c3 x) x y h =
     y + (cubic_int c0 c1 c2 c3 (x + h) - cubic_int c0 c1 c2 c3 x)"
  by (simp add: rk4_step_def Let_def poly_defs field_simps power_def)

text \<open>The six-stage step of \<open>ODE.RK5\<close> is of order five on the linear test
  equation, with growth factor \<open>exp_taylor 5 z + z^6/640\<close>, and integrates
  quintics in \<open>x\<close> exactly (its weights \<open>7, 32, 12, 32, 7 / 90\<close> at the nodes
  \<open>0, 1/4, 1/2, 3/4, 1\<close> are Boole's rule).\<close>

theorem rk5_step_order:
  "rk5_step (\<lambda>x y. lam * y) x y h = y * (exp_taylor 5 (lam * h) + (lam * h) ^ 6 / 640) \<and>
   rk5_step (\<lambda>x y. quintic c0 c1 c2 c3 c4 c5 x) x y h =
     y + (quintic_int c0 c1 c2 c3 c4 c5 (x + h) - quintic_int c0 c1 c2 c3 c4 c5 x)"
  by (simp add: rk5_step_def Let_def poly_defs field_simps power_def)

text \<open>The third-order step of \<open>ODE.RK3\<close> reproduces \<open>exp_taylor 3\<close> on the
  linear test equation and integrates cubics in \<open>x\<close> exactly.\<close>

theorem rk3_step_order:
  "rk3_step (\<lambda>x y. lam * y) x y h = y * exp_taylor 3 (lam * h) \<and>
   rk3_step (\<lambda>x y. cubic c0 c1 c2 c3 x) x y h =
     y + (cubic_int c0 c1 c2 c3 (x + h) - cubic_int c0 c1 c2 c3 x)"
  by (simp add: rk3_step_def Let_def poly_defs field_simps power_def)

text \<open>C7: the generic second-order step of \<open>ODE.RK2\<close> is of order two when its
  coefficients satisfy the docstring's conditions \<open>a1 + a2 = 1\<close>,
  \<open>a2 p1 = 1/2\<close>, \<open>a2 q11 = 1/2\<close> (which the code does not check): it reproduces
  \<open>exp_taylor 2\<close> on \<open>y' = \<lambda> y\<close> and integrates linear functions of \<open>x\<close> exactly.\<close>

theorem rk2_step_order:
  assumes "a1 + a2 = 1" "a2 * p1 = 1/2" "a2 * q11 = 1/2"
  shows "rk2_step a1 a2 p1 q11 (\<lambda>x y. lam * y) x y h = y * exp_taylor 2 (lam * h) \<and>
    rk2_step a1 a2 p1 q11 (\<lambda>x y. cubic c0 c1 0 0 x) x y h =
      y + (cubic_int c0 c1 0 0 (x + h) - cubic_int c0 c1 0 0 x)"
proof
  have "rk2_step a1 a2 p1 q11 (\<lambda>x y. lam * y) x y h =
      y + (a1 + a2) * (lam * h) * y + (a2 * q11) * (lam * h) ^ 2 * y"
    by (simp add: rk2_step_def Let_def algebra_simps power2_eq_square)
  then show "rk2_step a1 a2 p1 q11 (\<lambda>x y. lam * y) x y h = y * exp_taylor 2 (lam * h)"
    using assms by (simp add: algebra_simps)
  have "rk2_step a1 a2 p1 q11 (\<lambda>x y. cubic c0 c1 0 0 x) x y h =
      y + (a1 + a2) * (c0 + c1 * x) * h + (a2 * p1) * c1 * h ^ 2"
    by (simp add: rk2_step_def Let_def poly_defs algebra_simps power2_eq_square)
  then show "rk2_step a1 a2 p1 q11 (\<lambda>x y. cubic c0 c1 0 0 x) x y h =
      y + (cubic_int c0 c1 0 0 (x + h) - cubic_int c0 c1 0 0 x)"
    using assms by (simp add: poly_defs algebra_simps power2_eq_square)
qed

theorem rk2_step_order_witness:
  "rk2_step (1/2) (1/2) 1 1 (\<lambda>x y. 2 * y) 0 1 (1/10) = exp_taylor 2 (1/5) \<and>
   rk2_step (1/2) (1/2) 1 1 (\<lambda>x y. cubic 1 3 0 0 x) 0 1 (1/10) =
     1 + (cubic_int 1 3 0 0 (0 + 1/10) - cubic_int 1 3 0 0 0)"
  using rk2_step_order[of "1/2" "1/2" 1 1 2 0 1 "1/10" 1 3] by simp

text \<open>Heun's predictor-corrector step (\<open>ODE.Heun\<close>) reproduces \<open>exp_taylor 2\<close>
  on the linear test equation and integrates linear functions of \<open>x\<close> exactly
  (it is the trapezoid rule on \<open>[x, x + h]\<close>).\<close>

theorem heun_step_order:
  "heun_step (\<lambda>x y. lam * y) x y h = y * exp_taylor 2 (lam * h) \<and>
   heun_step (\<lambda>x y. cubic c0 c1 0 0 x) x y h =
     y + (cubic_int c0 c1 0 0 (x + h) - cubic_int c0 c1 0 0 x)"
  by (simp add: heun_step_def Let_def poly_defs field_simps power_def)

text \<open>The midpoint step (\<open>ODE.Midpoint\<close>) reproduces \<open>exp_taylor 2\<close> on the
  linear test equation and integrates linear functions of \<open>x\<close> exactly.\<close>

theorem midpoint_step_order:
  "midpoint_step (\<lambda>x y. lam * y) x y h = y * exp_taylor 2 (lam * h) \<and>
   midpoint_step (\<lambda>x y. cubic c0 c1 0 0 x) x y h =
     y + (cubic_int c0 c1 0 0 (x + h) - cubic_int c0 c1 0 0 x)"
  by (simp add: midpoint_step_def Let_def poly_defs field_simps power_def)

text \<open>C6: the other fixed-order steppers reach their orders: RK3 reproduces
  \<open>exp_taylor 3\<close>, RK5 \<open>exp_taylor 5 + z^6/640\<close>, Heun and Midpoint
  \<open>exp_taylor 2\<close> on \<open>y' = \<lambda> y\<close>, and each integrates polynomials in \<open>x\<close> of the
  corresponding degree exactly.\<close>

theorem scalar_steppers_order:
  "rk3_step (\<lambda>x y. lam * y) x y h = y * exp_taylor 3 (lam * h) \<and>
   rk3_step (\<lambda>x y. cubic c0 c1 c2 c3 x) x y h = y + (cubic_int c0 c1 c2 c3 (x + h) - cubic_int c0 c1 c2 c3 x) \<and>
   rk5_step (\<lambda>x y. lam * y) x y h = y * (exp_taylor 5 (lam * h) + (lam * h) ^ 6 / 640) \<and>
   rk5_step (\<lambda>x y. quintic c0 c1 c2 c3 c4 c5 x) x y h =
     y + (quintic_int c0 c1 c2 c3 c4 c5 (x + h) - quintic_int c0 c1 c2 c3 c4 c5 x) \<and>
   heun_step (\<lambda>x y. lam * y) x y h = y * exp_taylor 2 (lam * h) \<and>
   heun_step (\<lambda>x y. cubic c0 c1 0 0 x) x y h = y + (cubic_int c0 c1 0 0 (x + h) - cubic_int c0 c1 0 0 x) \<and>
   midpoint_step (\<lambda>x y. lam * y) x y h = y * exp_taylor 2 (lam * h) \<and>
   midpoint_step (\<lambda>x y. cubic c0 c1 0 0 x) x y h = y + (cubic_int c0 c1 0 0 (x + h) - cubic_int c0 c1 0 0 x)"
  by (simp only: rk3_step_order rk5_step_order heun_step_order midpoint_step_order simp_thms)

end
