(* ===== verification/Integration.thy ===== *)
theory Integration
  imports Prelude
begin

text \<open>
  Quadrature over a callback: class \<open>OneDIntegralwithFunction\<close> of
  \<open>src/numerics/integration.py\<close>. Each \<open>for\<close> loop of the source is a recursive
  function over its remaining iteration count that threads the loop's variables
  (\<open>l\<close> advanced by \<open>l += h\<close>, the running sums); a method that can raise returns
  \<open>real result\<close>. \<open>AdaptiveQuadrature\<close>'s unbounded recursion is a
  \<^theory_text>\<open>partial_function (option)\<close>. Romberg's \<open>np.empty\<close> table is a function
  \<open>nat \<Rightarrow> nat \<Rightarrow> real\<close> updated entry by entry, started from an arbitrary table
  (the uninitialised memory).
\<close>

section \<open>Definitions\<close>

subsection \<open>Trapezoid\<close>

text \<open>\<open>for i in range(1, n): l += h; sum += Fxdx(l)\<close>, with \<open>k\<close> iterations left.\<close>

fun trap_loop :: "fun1 \<Rightarrow> real \<Rightarrow> nat \<Rightarrow> real \<Rightarrow> real \<Rightarrow> real" where
  "trap_loop Fxdx h 0 l s = s"
| "trap_loop Fxdx h (Suc k) l s = trap_loop Fxdx h k (l + h) (s + Fxdx (l + h))"

definition Trapezoid :: "real \<Rightarrow> real \<Rightarrow> int \<Rightarrow> fun1 \<Rightarrow> real result" where
  "Trapezoid l u n Fxdx =
     (if n = 0 then Inl ZeroDivisionError
      else let h = (u - l) / of_int n; wd = u - l; f0 = Fxdx l;
               s = trap_loop Fxdx h (nat (n - 1)) l 0
           in Inr (wd * (f0 + 2 * s + Fxdx u) / (2 * of_int n)))"

subsection \<open>Trapezoid over unequal segments\<close>

text \<open>\<open>for i in range(1, len(x)): temp = (Fxdx(i) - Fxdx(i - 1)) / 2;
  sum += (x[i] - x[i-1]) * temp\<close>; \<open>i\<close> is the index of the segment's right end.\<close>

fun unequal_fn_loop :: "fun1 \<Rightarrow> nat \<Rightarrow> real list \<Rightarrow> real \<Rightarrow> real" where
  "unequal_fn_loop Fxdx i (a # b # rest) s =
     unequal_fn_loop Fxdx (Suc i) (b # rest)
       (s + (b - a) * ((Fxdx (real i) - Fxdx (real i - 1)) / 2))"
| "unequal_fn_loop Fxdx i xs s = s"

definition TrapezoidUnequalSegments :: "real list \<Rightarrow> fun1 \<Rightarrow> real" where
  "TrapezoidUnequalSegments x Fxdx = unequal_fn_loop Fxdx 1 x 0"

subsection \<open>Simpson's 1/3 rule\<close>

text \<open>\<open>for i in range(1, n): l += wd / n; if i % 2 == 0: f12 += Fxdx(l)
  else: f11 += Fxdx(l)\<close>; \<open>i\<close> is the Python index, \<open>k\<close> the iterations left.
  Returns the final \<open>l\<close> too, which the \<open>n == 1\<close> branch reads.\<close>

fun simpson_loop :: "fun1 \<Rightarrow> real \<Rightarrow> nat \<Rightarrow> nat \<Rightarrow> real \<Rightarrow> real \<Rightarrow> real \<Rightarrow> real \<times> real \<times> real" where
  "simpson_loop Fxdx d i 0 l f11 f12 = (l, f11, f12)"
| "simpson_loop Fxdx d i (Suc k) l f11 f12 =
     (if i mod 2 = 0 then simpson_loop Fxdx d (Suc i) k (l + d) f11 (f12 + Fxdx (l + d))
      else simpson_loop Fxdx d (Suc i) k (l + d) (f11 + Fxdx (l + d)) f12)"

definition SimpsonOneThird :: "real \<Rightarrow> real \<Rightarrow> int \<Rightarrow> fun1 \<Rightarrow> real result" where
  "SimpsonOneThird l u n Fxdx =
     (let wd = u - l; f0 = Fxdx l;
          (l', f11, f12) = simpson_loop Fxdx (wd / of_int n) 1 (nat (n - 1)) l 0 0;
          (f11', n') = (if n = 1 then (Fxdx (l' + wd / 2), 2) else (f11, n));
          f2 = Fxdx u
      in if n' = 0 then Inl ZeroDivisionError
         else Inr (wd * (f0 + 4 * f11' + 2 * f12 + f2) / (3 * of_int n')))"

subsection \<open>Simpson's 3/8 rule\<close>

definition SimpsonThirdEight :: "real \<Rightarrow> real \<Rightarrow> fun1 \<Rightarrow> real" where
  "SimpsonThirdEight l u Fxdx =
     (let wd = u - l; f0 = Fxdx l; f1 = Fxdx (l + wd / 3); f2 = Fxdx (l + wd * 2 / 3);
          f3 = Fxdx u
      in wd * (f0 + 3 * f1 + 3 * f2 + f3) / 8)"

subsection \<open>Romberg\<close>

text \<open>The \<open>np.empty((maxIt, maxIt))\<close> table. \<open>romberg_cols cnt k r\<close> runs the
  inner loop \<open>for k in range(1, cnt + 1)\<close> from its current \<open>k\<close> with \<open>r\<close>
  iterations left; \<open>romberg_rows\<close> the outer loop \<open>for cnt in range(maxIt)\<close>.\<close>

fun romberg_cols :: "nat \<Rightarrow> nat \<Rightarrow> nat \<Rightarrow> table \<Rightarrow> table" where
  "romberg_cols cnt k 0 I = I"
| "romberg_cols cnt k (Suc r) I =
     (let j = cnt - k
      in romberg_cols cnt (Suc k) r
           (I(j := (I j)(k := (4 ^ k * I (j + 1) (k - 1) - I j (k - 1)) / (4 ^ k - 1)))))"

fun romberg_rows :: "real \<Rightarrow> real \<Rightarrow> fun1 \<Rightarrow> nat \<Rightarrow> nat \<Rightarrow> table \<Rightarrow> table result" where
  "romberg_rows l u Fxdx cnt 0 I = Inr I"
| "romberg_rows l u Fxdx cnt (Suc r) I =
     (case Trapezoid l u (2 ^ cnt) Fxdx of
        Inl e \<Rightarrow> Inl e
      | Inr t \<Rightarrow> romberg_rows l u Fxdx (Suc cnt) r (romberg_cols cnt 1 cnt (I(cnt := (I cnt)(0 := t)))))"

text \<open>The method body, started from the table's initial (uninitialised) contents
  \<open>I0\<close>: \<open>np.empty\<close> with a negative size raises \<open>ValueError\<close>; with size 0 the
  assignment \<open>I[0][0] = ...\<close> raises \<open>IndexError\<close> after evaluating its right-hand
  side; the result is \<open>I[0][-1]\<close>, that is \<open>I[0][maxIt - 1]\<close>.\<close>

definition romberg_from :: "table \<Rightarrow> real \<Rightarrow> real \<Rightarrow> int \<Rightarrow> fun1 \<Rightarrow> real result" where
  "romberg_from I0 l u maxIt Fxdx =
     (if maxIt < 0 then Inl ValueError
      else case Trapezoid l u 1 Fxdx of
        Inl e \<Rightarrow> Inl e
      | Inr t0 \<Rightarrow>
          if maxIt = 0 then Inl IndexError
          else case romberg_rows l u Fxdx 0 (nat maxIt) (I0(0 := (I0 0)(0 := t0))) of
                 Inl e \<Rightarrow> Inl e
               | Inr I \<Rightarrow> Inr (I 0 (nat maxIt - 1)))"

definition Romberg :: "real \<Rightarrow> real \<Rightarrow> int \<Rightarrow> fun1 \<Rightarrow> real result" where
  "Romberg l u maxIt Fxdx = romberg_from (\<lambda>_ _. 0) l u maxIt Fxdx"

subsection \<open>Adaptive quadrature\<close>

text \<open>\<open>__qstep\<close> recurses on both halves until the 3-point and 5-point Simpson
  estimates agree to \<open>tol\<close>; nothing bounds the depth, so the recursion is a
  partial function.\<close>

partial_function (option) qstep ::
  "real \<Rightarrow> real \<Rightarrow> real \<Rightarrow> real \<Rightarrow> real \<Rightarrow> real \<Rightarrow> fun1 \<Rightarrow> real option" where
  "qstep l u tol fl fh fu Fxdx =
     (let h1 = u - l; h2 = h1 / 2; h = (l + u) / 2;
          fd = Fxdx ((l + h) / 2); fe = Fxdx ((h + u) / 2);
          I1 = h1 / 6 * (fl + 4 * fh + fu);
          I2 = h2 / 6 * (fl + 4 * fd + 2 * fh + 4 * fe + fu)
      in if \<bar>I2 - I1\<bar> < tol then Some (I2 + (I2 - I1) / 15)
         else Option.bind (qstep l h tol fl fd fh Fxdx)
                (\<lambda>Il. Option.bind (qstep h u tol fh fe fu Fxdx) (\<lambda>Iu. Some (Il + Iu))))"

definition AdaptiveQuadrature :: "real \<Rightarrow> real \<Rightarrow> fun1 \<Rightarrow> real option" where
  "AdaptiveQuadrature l u Fxdx =
     (let tol = 0.000001; h = (l + u) / 2; fl = Fxdx l; fh = Fxdx h; fu = Fxdx u
      in qstep l u tol fl fh fu Fxdx)"

subsection \<open>Two-point Gauss-Legendre\<close>

definition TwoPointGaussLegendre :: "fun1 \<Rightarrow> real" where
  "TwoPointGaussLegendre Fxdx = Fxdx (- 1 / sqrt 3) - Fxdx (1 / sqrt 3)"

text \<open>The rule the spec describes: nodes \<open>\<plusminus>1/\<surd>3\<close>, both weights 1.\<close>

definition gauss_legendre2 :: "fun1 \<Rightarrow> real" where
  "gauss_legendre2 f = f (- 1 / sqrt 3) + f (1 / sqrt 3)"

text \<open>The composite trapezoid rule of the spec: \<open>n\<close> equal panels, weights
  \<open>1, 2, ..., 2, 1\<close> scaled by \<open>h/2\<close>.\<close>

definition composite_trapezoid :: "real \<Rightarrow> real \<Rightarrow> nat \<Rightarrow> fun1 \<Rightarrow> real" where
  "composite_trapezoid l u n f =
     (let h = (u - l) / real n
      in h / 2 * (f l + 2 * (\<Sum>i = 1..<n. f (l + real i * h)) + f u))"

text \<open>The Romberg table the spec describes: column 0 holds the trapezoid estimate
  with \<open>2^j\<close> panels, column \<open>k\<close> the Richardson extrapolation of column
  \<open>k - 1\<close>.\<close>

fun romberg_R :: "real \<Rightarrow> real \<Rightarrow> fun1 \<Rightarrow> nat \<Rightarrow> nat \<Rightarrow> real" where
  "romberg_R l u F j 0 = composite_trapezoid l u (2 ^ j) F"
| "romberg_R l u F j (Suc k) =
     (4 ^ Suc k * romberg_R l u F (Suc j) k - romberg_R l u F j k) / (4 ^ Suc k - 1)"

section \<open>Loop lemmas\<close>

lemma trap_loop_sum: "trap_loop F h k l s = s + (\<Sum>j<k. F (l + real (Suc j) * h))"
proof (induction k arbitrary: l s)
  case 0
  show ?case by simp
next
  case (Suc k)
  have shift: "(\<Sum>j<k. F (l + h + real (Suc j) * h)) = (\<Sum>j<k. F (l + real (Suc (Suc j)) * h))"
    by (simp add: algebra_simps)
  have "trap_loop F h (Suc k) l s = s + F (l + h) + (\<Sum>j<k. F (l + h + real (Suc j) * h))"
    using Suc.IH by simp
  also have "\<dots> = s + (F (l + real (Suc 0) * h) + (\<Sum>j<k. F (l + real (Suc (Suc j)) * h)))"
    using shift by simp
  also have "\<dots> = s + (\<Sum>j<Suc k. F (l + real (Suc j) * h))"
    by (simp only: sum.lessThan_Suc_shift)
  finally show ?case .
qed

lemma Trapezoid_pos:
  "0 < n \<Longrightarrow> Trapezoid l u n F =
     Inr ((u - l) * (F l + 2 * (\<Sum>j<nat (n - 1). F (l + real (Suc j) * ((u - l) / of_int n))) + F u)
          / (2 * of_int n))"
  by (simp add: Trapezoid_def trap_loop_sum)

lemma unequal_fn_loop_const: "unequal_fn_loop (\<lambda>_. c) i x s = s"
  by (induction "\<lambda>_::real. c" i x s rule: unequal_fn_loop.induct) simp_all

lemma unequal_fn_loop_affine:
  "unequal_fn_loop (\<lambda>t. a + b * t) i x s = (if x = [] then s else s + b * (last x - hd x) / 2)"
  by (induction "\<lambda>t::real. a + b * t" i x s rule: unequal_fn_loop.induct) (simp_all add: field_simps)

lemma Trapezoid_composite:
  assumes "0 < n"
  shows "Trapezoid l u n F = Inr (composite_trapezoid l u (nat n) F)"
proof -
  have N: "0 < nat n" "real (nat n) = of_int n" "nat (n - 1) = nat n - 1" using assms by simp_all
  have "(\<Sum>i = 1..<nat n. F (l + real i * ((u - l) / of_int n))) =
      (\<Sum>j<nat (n - 1). F (l + real (Suc j) * ((u - l) / of_int n)))"
    using sum_from1_shift[OF N(1), of "\<lambda>i. F (l + real i * ((u - l) / of_int n))"]
    by (simp only: N(3))
  then show ?thesis using assms N
    by (simp add: Trapezoid_pos composite_trapezoid_def Let_def field_simps)
qed

lemma simpson_loop_pairs:
  "odd i \<Longrightarrow> simpson_loop F d i (2 * m + 1) l a b =
     (l + real (2 * m + 1) * d, a + (\<Sum>p\<le>m. F (l + real (2 * p + 1) * d)),
      b + (\<Sum>p<m. F (l + real (2 * p + 2) * d)))"
proof (induction m arbitrary: i l a b)
  case 0
  then show ?case by (simp add: odd_iff_mod_2_eq_one)
next
  case (Suc m)
  have i: "i mod 2 = 1" "Suc i mod 2 = 0" using Suc.prems by (simp_all add: odd_iff_mod_2_eq_one)
  have "simpson_loop F d i (2 * Suc m + 1) l a b =
        simpson_loop F d (Suc (Suc i)) (2 * m + 1) (l + d + d) (a + F (l + d)) (b + F (l + d + d))"
    using i by (simp add: numeral_eq_Suc)
  also have "\<dots> = (l + d + d + real (2 * m + 1) * d,
      a + F (l + d) + (\<Sum>p\<le>m. F (l + d + d + real (2 * p + 1) * d)),
      b + F (l + d + d) + (\<Sum>p<m. F (l + d + d + real (2 * p + 2) * d)))"
    using Suc.prems by (subst Suc.IH) simp_all
  also have "\<dots> = (l + real (2 * Suc m + 1) * d, a + (\<Sum>p\<le>Suc m. F (l + real (2 * p + 1) * d)),
      b + (\<Sum>p<Suc m. F (l + real (2 * p + 2) * d)))"
  proof -
    have e1: "(\<Sum>p\<le>m. F (l + d + d + real (2 * p + 1) * d)) = (\<Sum>p\<le>m. F (l + real (2 * Suc p + 1) * d))"
      by (simp add: algebra_simps)
    have e2: "(\<Sum>p<m. F (l + d + d + real (2 * p + 2) * d)) = (\<Sum>p<m. F (l + real (2 * Suc p + 2) * d))"
      by (simp add: algebra_simps)
    show ?thesis
      unfolding e1 e2 sum.atMost_Suc_shift sum.lessThan_Suc_shift
      by (simp add: algebra_simps)
  qed
  finally show ?case .
qed


lemma simpson_panel_cubic:
  "(b - a) / 6 * (cubic c0 c1 c2 c3 a + 4 * cubic c0 c1 c2 c3 ((a + b) / 2) + cubic c0 c1 c2 c3 b) =
   cubic_int c0 c1 c2 c3 b - cubic_int c0 c1 c2 c3 a"
  by (simp add: poly_defs field_simps power_def)

lemma simpson_weights:
  fixes F :: fun1
  shows "F l + 4 * (\<Sum>p\<le>m. F (l + real (2 * p + 1) * d)) + 2 * (\<Sum>p<m. F (l + real (2 * p + 2) * d))
     + F (l + real (2 * Suc m) * d) =
   (\<Sum>p<Suc m. F (l + real (2 * p) * d) + 4 * F (l + real (2 * p + 1) * d) + F (l + real (2 * p + 2) * d))"
proof -
  have even_pts: "(\<Sum>p<Suc m. F (l + real (2 * p) * d)) = F l + (\<Sum>p<m. F (l + real (2 * p + 2) * d))"
    by (simp only: sum.lessThan_Suc_shift) simp
  have odd_pts: "(\<Sum>p<Suc m. F (l + real (2 * p + 1) * d)) = (\<Sum>p\<le>m. F (l + real (2 * p + 1) * d))"
    by (simp only: lessThan_Suc_atMost)
  have last_pts: "(\<Sum>p<Suc m. F (l + real (2 * p + 2) * d)) =
      (\<Sum>p<m. F (l + real (2 * p + 2) * d)) + F (l + real (2 * Suc m) * d)"
    by simp
  have "(\<Sum>p<Suc m. F (l + real (2 * p) * d) + 4 * F (l + real (2 * p + 1) * d) + F (l + real (2 * p + 2) * d))
      = (\<Sum>p<Suc m. F (l + real (2 * p) * d)) + 4 * (\<Sum>p<Suc m. F (l + real (2 * p + 1) * d))
        + (\<Sum>p<Suc m. F (l + real (2 * p + 2) * d))"
    by (simp only: sum.distrib sum_distrib_left)
  then show ?thesis using even_pts odd_pts last_pts by linarith
qed


lemma simpson_double_panel:
  fixes d l :: real
  shows "d / 3 * (cubic c0 c1 c2 c3 (l + real (2 * p) * d) + 4 * cubic c0 c1 c2 c3 (l + real (2 * p + 1) * d)
          + cubic c0 c1 c2 c3 (l + real (2 * p + 2) * d)) =
         cubic_int c0 c1 c2 c3 (l + real (2 * Suc p) * d) - cubic_int c0 c1 c2 c3 (l + real (2 * p) * d)"
proof -
  let ?a = "l + real (2 * p) * d" and ?b = "l + real (2 * Suc p) * d"
  have mid: "(?a + ?b) / 2 = l + real (2 * p + 1) * d" by (simp add: field_simps)
  have w: "d / 3 = (?b - ?a) / 6" by (simp add: field_simps)
  have b: "l + real (2 * p + 2) * d = ?b" by simp
  show ?thesis
    unfolding w b mid[symmetric] by (rule simpson_panel_cubic)
qed

text \<open>Simpson's rule with an even number \<open>2(m+1)\<close> of panels is the sum of
  its double panels, for every integrand.\<close>

lemma SimpsonOneThird_even:
  fixes F :: fun1
  assumes d_def: "d = (u - l) / real (2 * Suc m)"
  shows "SimpsonOneThird l u (int (2 * Suc m)) F =
    Inr (d / 3 * (\<Sum>p<Suc m. F (l + real (2 * p) * d) + 4 * F (l + real (2 * p + 1) * d) + F (l + real (2 * p + 2) * d)))"
proof -
  have iters: "nat (int (2 * Suc m) - 1) = 2 * m + 1" by simp
  have u: "u = l + real (2 * Suc m) * d" by (simp add: d_def)
  have scale: "(u - l) * X / (3 * of_int (int (2 * Suc m))) = d / 3 * X" for X by (simp add: d_def)
  have "simpson_loop F d 1 (2 * m + 1) l 0 0 =
      (l + real (2 * m + 1) * d, 0 + (\<Sum>p\<le>m. F (l + real (2 * p + 1) * d)), 0 + (\<Sum>p<m. F (l + real (2 * p + 2) * d)))"
    by (rule simpson_loop_pairs) simp
  moreover have dd: "(u - l) / of_int (int (2 * Suc m)) = d" by (simp add: d_def)
  ultimately have "SimpsonOneThird l u (int (2 * Suc m)) F =
      Inr ((u - l) * (F l + 4 * (\<Sum>p\<le>m. F (l + real (2 * p + 1) * d)) + 2 * (\<Sum>p<m. F (l + real (2 * p + 2) * d)) + F u)
           / (3 * of_int (int (2 * Suc m))))"
    by (simp only: SimpsonOneThird_def Let_def iters dd) (simp del: simpson_loop.simps)
  also have "\<dots> = Inr (d / 3 * (\<Sum>p<Suc m. F (l + real (2 * p) * d) + 4 * F (l + real (2 * p + 1) * d) + F (l + real (2 * p + 2) * d)))"
  proof -
    have Fu: "F u = F (l + real (2 * Suc m) * d)" using u by simp
    show ?thesis by (simp only: scale Fu simpson_weights)
  qed
  finally show ?thesis .
qed

text \<open>The composite trapezoid rule as a sum over its panels.\<close>

lemma trapezoid_pairs:
  fixes f :: "nat \<Rightarrow> real"
  shows "(\<Sum>k<Suc m. f k + f (Suc k)) = f 0 + 2 * (\<Sum>i = 1..<Suc m. f i) + f (Suc m)"
  by (induction m) simp_all

lemma Trapezoid_steps:
  fixes g :: fun1
  assumes "0 < h"
  shows "Trapezoid xi (xi + real (Suc m) * h) (int (Suc m)) g =
           Inr (\<Sum>k<Suc m. h / 2 * (g (xi + real k * h) + g (xi + real (Suc k) * h)))"
proof -
  define f where "f k = g (xi + real k * h)" for k
  have hh: "(xi + real (Suc m) * h - xi) / real (Suc m) = h" by simp
  have "Trapezoid xi (xi + real (Suc m) * h) (int (Suc m)) g =
      Inr (h / 2 * (f 0 + 2 * (\<Sum>i = 1..<Suc m. f i) + f (Suc m)))"
    by (simp add: Trapezoid_composite composite_trapezoid_def hh f_def del: of_nat_Suc)
  also have "h / 2 * (f 0 + 2 * (\<Sum>i = 1..<Suc m. f i) + f (Suc m)) = (\<Sum>k<Suc m. h / 2 * (f k + f (Suc k)))"
    by (simp only: sum_distrib_left[symmetric] trapezoid_pairs)
  finally show ?thesis by (simp only: f_def)
qed

text \<open>Invariant of the column loop of row cnt: entries above the anti-diagonal
  cnt are final, and on it the entries of columns below k.\<close>

lemma romberg_cols_inv:
  assumes "\<forall>j k'. j + k' < cnt \<or> (j + k' = cnt \<and> k' < k) \<longrightarrow> I j k' = romberg_R l u F j k'"
    and "k + r = Suc cnt" "0 < k"
  shows "\<forall>j k'. j + k' \<le> cnt \<longrightarrow> romberg_cols cnt k r I j k' = romberg_R l u F j k'"
  using assms
proof (induction r arbitrary: k I)
  case 0
  show ?case
  proof (intro allI impI)
    fix j k' assume "j + k' \<le> cnt"
    then have "j + k' < cnt \<or> (j + k' = cnt \<and> k' < k)" using "0.prems"(2) by linarith
    then show "romberg_cols cnt k 0 I j k' = romberg_R l u F j k'" using "0.prems"(1) by auto
  qed
next
  case (Suc r)
  let ?j = "cnt - k"
  let ?v = "(4 ^ k * I (?j + 1) (k - 1) - I ?j (k - 1)) / (4 ^ k - 1)"
  let ?I = "I(?j := (I ?j)(k := ?v))"
  have kc: "k \<le> cnt" using Suc.prems(2) by simp
  obtain k0 where k0: "k = Suc k0" using Suc.prems(3) by (cases k) auto
  have a: "I (?j + 1) k0 = romberg_R l u F (?j + 1) k0"
    using Suc.prems(1) kc k0 by simp
  have b: "I ?j k0 = romberg_R l u F ?j k0"
    using Suc.prems(1) kc k0 by simp
  have v: "?v = romberg_R l u F ?j k" using a b k0 by simp
  have inv: "\<forall>j k'. j + k' < cnt \<or> (j + k' = cnt \<and> k' < Suc k) \<longrightarrow> ?I j k' = romberg_R l u F j k'"
  proof (intro allI impI)
    fix j k' assume jk: "j + k' < cnt \<or> (j + k' = cnt \<and> k' < Suc k)"
    show "?I j k' = romberg_R l u F j k'"
    proof (cases "j = ?j \<and> k' = k")
      case True
      then show ?thesis using v by simp
    next
      case False
      with jk kc have "j + k' < cnt \<or> (j + k' = cnt \<and> k' < k)" by auto
      then show ?thesis using Suc.prems(1) False by auto
    qed
  qed
  have eq: "romberg_cols cnt k (Suc r) I = romberg_cols cnt (Suc k) r ?I"
    by (simp only: romberg_cols.simps Let_def)
  show ?case unfolding eq
    by (rule Suc.IH[OF inv]) (use Suc.prems(2) in simp_all)
qed


lemma romberg_rows_inv:
  assumes "\<forall>j k. j + k < cnt \<longrightarrow> I j k = romberg_R l u F j k"
  shows "\<exists>I'. romberg_rows l u F cnt r I = Inr I' \<and>
           (\<forall>j k. j + k < cnt + r \<longrightarrow> I' j k = romberg_R l u F j k)"
  using assms
proof (induction r arbitrary: cnt I)
  case 0
  then show ?case by simp
next
  case (Suc r)
  let ?T = "composite_trapezoid l u (2 ^ cnt) F"
  let ?I1 = "I(cnt := (I cnt)(0 := ?T))"
  have trap: "Trapezoid l u (2 ^ cnt) F = Inr ?T"
    using Trapezoid_composite[of "2 ^ cnt" l u F] by (simp add: nat_power_eq)
  have "\<forall>j k'. j + k' < cnt \<or> (j + k' = cnt \<and> k' < 1) \<longrightarrow> ?I1 j k' = romberg_R l u F j k'"
    using Suc.prems by auto
  then have "\<forall>j k. j + k \<le> cnt \<longrightarrow> romberg_cols cnt 1 cnt ?I1 j k = romberg_R l u F j k"
    by (rule romberg_cols_inv) simp_all
  then have "\<forall>j k. j + k < Suc cnt \<longrightarrow> romberg_cols cnt 1 cnt ?I1 j k = romberg_R l u F j k"
    by (simp only: less_Suc_eq_le)
  from Suc.IH[OF this] show ?case by (simp add: trap)
qed

lemma romberg_from_spec:
  "romberg_from I0 l u maxIt F =
     (if maxIt < 0 then Inl ValueError
      else if maxIt = 0 then Inl IndexError
      else Inr (romberg_R l u F 0 (nat maxIt - 1)))"
proof -
  have t1: "Trapezoid l u 1 F = Inr (composite_trapezoid l u 1 F)"
    using Trapezoid_composite[of 1 l u F] by simp
  show ?thesis
  proof (cases "0 < maxIt")
    case True
    obtain I' where I': "romberg_rows l u F 0 (nat maxIt) (I0(0 := (I0 0)(0 := composite_trapezoid l u 1 F))) = Inr I'"
      and inv: "\<forall>j k. j + k < nat maxIt \<longrightarrow> I' j k = romberg_R l u F j k"
      using romberg_rows_inv[of 0 "I0(0 := (I0 0)(0 := composite_trapezoid l u 1 F))" l u F "nat maxIt"]
      by auto
    have "I' 0 (nat maxIt - 1) = romberg_R l u F 0 (nat maxIt - 1)" using inv True by simp
    with True t1 I' show ?thesis by (simp add: romberg_from_def)
  next
    case False
    with t1 show ?thesis by (simp add: romberg_from_def)
  qed
qed


section \<open>Properties of the quadrature rules\<close>

text \<open>C8: \<open>Trapezoid\<close> on every branch: \<open>n = 0\<close> raises
  \<open>ZeroDivisionError\<close> (at \<open>h = (u - l) / n\<close>); a negative \<open>n\<close> runs no loop
  iteration and returns \<open>(u - l) (f(l) + f(u)) / (2n)\<close>, a value of the wrong sign;
  a positive \<open>n\<close> gives the composite trapezoid rule with \<open>n\<close> equal panels.\<close>

theorem Trapezoid_spec:
  "Trapezoid l u n F =
     (if n = 0 then Inl ZeroDivisionError
      else if n < 0 then Inr ((u - l) * (F l + F u) / (2 * of_int n))
      else Inr (composite_trapezoid l u (nat n) F))"
proof (cases "0 < n")
  case True
  then show ?thesis by (simp add: Trapezoid_composite)
next
  case False
  then show ?thesis by (simp add: Trapezoid_def)
qed

text \<open>With at least one panel the trapezoid rule integrates linear functions
  exactly.\<close>

theorem Trapezoid_linear_exact:
  assumes "0 < n"
  shows "Trapezoid l u n (cubic c0 c1 0 0) = Inr (cubic_int c0 c1 0 0 u - cubic_int c0 c1 0 0 l)"
proof -
  define N where "N = nat n"
  define h where "h = (u - l) / real N"
  have nN: "of_int n = real N" "nat (n - 1) = N - 1" "0 < N" using assms by (simp_all add: N_def)
  have N1: "real (N - 1) = real N - 1" using nN(3) by simp
  have s: "(\<Sum>j<N - 1. cubic c0 c1 0 0 (l + real (Suc j) * h)) =
      real (N - 1) * (c0 + c1 * l) + c1 * h * (real (N - 1) * (real (N - 1) + 1) / 2)"
  proof -
    have "(\<Sum>j<N - 1. cubic c0 c1 0 0 (l + real (Suc j) * h)) =
        (\<Sum>j<N - 1. (c0 + c1 * l) + c1 * h * real (Suc j))"
      by (rule sum.cong) (simp_all add: poly_defs algebra_simps del: of_nat_Suc)
    also have "\<dots> = real (N - 1) * (c0 + c1 * l) + c1 * h * (\<Sum>j<N - 1. real (Suc j))"
      by (simp add: sum.distrib sum_distrib_left del: of_nat_Suc)
    finally show ?thesis by (simp only: sum_real_Suc)
  qed
  have u: "u = l + h * real N" using nN(3) by (simp add: h_def)
  have "(u - l) * (cubic c0 c1 0 0 l + 2 * (real (N - 1) * (c0 + c1 * l) +
          c1 * h * (real (N - 1) * (real (N - 1) + 1) / 2)) + cubic c0 c1 0 0 u) / (2 * real N)
        = cubic_int c0 c1 0 0 u - cubic_int c0 c1 0 0 l"
    unfolding u N1 using nN(3) by (simp add: poly_defs field_simps power2_eq_square)
  moreover have "Trapezoid l u n (cubic c0 c1 0 0) =
      Inr ((u - l) * (cubic c0 c1 0 0 l + 2 * (\<Sum>j<N - 1. cubic c0 c1 0 0 (l + real (Suc j) * h))
        + cubic c0 c1 0 0 u) / (2 * real N))"
    using Trapezoid_pos[OF assms, of l u "cubic c0 c1 0 0"] by (simp only: nN(1,2) h_def[symmetric])
  ultimately show ?thesis by (simp only: s)
qed

theorem Trapezoid_linear_exact_witness:
  "Trapezoid 0 1 3 (cubic 1 2 0 0) = Inr 2"
  using Trapezoid_linear_exact[of 3 0 1 1 2] by (simp add: poly_defs)

text \<open>C9: with one panel (the special case \<open>n == 1\<close>, which evaluates the true
  midpoint) or an even number of panels, Simpson's 1/3 rule integrates cubics
  exactly.\<close>

theorem SimpsonOneThird_cubic_exact:
  assumes "n = 1 \<or> (even n \<and> 0 < n)"
  shows "SimpsonOneThird l u n (cubic c0 c1 c2 c3) = Inr (cubic_int c0 c1 c2 c3 u - cubic_int c0 c1 c2 c3 l)"
proof (cases "n = 1")
  case True
  have "(u - l) * (cubic c0 c1 c2 c3 l + 4 * cubic c0 c1 c2 c3 (l + (u - l) / 2) + cubic c0 c1 c2 c3 u) / 6 =
      cubic_int c0 c1 c2 c3 u - cubic_int c0 c1 c2 c3 l"
    using simpson_panel_cubic[of u l c0 c1 c2 c3] by (simp add: field_simps)
  with True show ?thesis by (simp add: SimpsonOneThird_def)
next
  case False
  with assms have "even n" "0 < n" by auto
  then obtain k where k: "n = 2 * k" "0 < k" by (auto elim: evenE)
  define m where "m = nat k - 1"
  have n: "n = int (2 * Suc m)" using k by (simp add: m_def)
  let ?P = "cubic_int c0 c1 c2 c3" and ?F = "cubic c0 c1 c2 c3"
  define d where "d = (u - l) / real (2 * Suc m)"
  let ?x = "\<lambda>k::nat. l + real k * d"
  have u: "u = ?x (2 * Suc m)" by (simp add: d_def)
  have "SimpsonOneThird l u n ?F =
      Inr (d / 3 * (\<Sum>p<Suc m. ?F (?x (2 * p)) + 4 * ?F (?x (2 * p + 1)) + ?F (?x (2 * p + 2))))"
    unfolding n by (rule SimpsonOneThird_even) (rule d_def)
  also have "\<dots> = Inr (\<Sum>p<Suc m. ?P (?x (2 * Suc p)) - ?P (?x (2 * p)))"
    by (simp only: sum_distrib_left simpson_double_panel)
  also have "\<dots> = Inr (?P u - ?P l)"
  proof -
    have "(\<Sum>p<Suc m. ?P (?x (2 * Suc p)) - ?P (?x (2 * p))) = ?P (?x (2 * Suc m)) - ?P (?x (2 * 0))"
      by (rule sum_lessThan_telescope)
    then show ?thesis using u by simp
  qed
  finally show ?thesis .
qed
theorem SimpsonOneThird_cubic_exact_witness:
  "SimpsonOneThird 0 2 4 (cubic 0 0 0 1) = Inr 4 \<and> SimpsonOneThird 0 2 1 (cubic 0 0 0 1) = Inr 4"
  using SimpsonOneThird_cubic_exact[of 4 0 2 0 0 0 1] SimpsonOneThird_cubic_exact[of 1 0 2 0 0 0 1]
  by (simp add: poly_defs)

text \<open>The code does not reject an odd number of panels (the spec requires
  \<open>n\<close> even): with \<open>n = 3\<close> the alternating weights no longer pair up, and
  \<open>\<integral>\<^sub>0\<^sup>3 x\<^sup>2 dx = 9\<close> comes out as 7.\<close>

theorem SimpsonOneThird_odd_counterexample:
  "SimpsonOneThird 0 3 3 (\<lambda>x. x ^ 2) = Inr 7 \<and> cubic_int 0 0 1 0 3 - cubic_int 0 0 1 0 0 = 9"
  by (simp add: SimpsonOneThird_def poly_defs numeral_eq_Suc)

text \<open>Simpson's 3/8 rule integrates cubics exactly.\<close>

theorem SimpsonThirdEight_cubic_exact:
  "SimpsonThirdEight l u (cubic c0 c1 c2 c3) = cubic_int c0 c1 c2 c3 u - cubic_int c0 c1 c2 c3 l"
  by (simp add: SimpsonThirdEight_def Let_def poly_defs field_simps power_def)

text \<open>C10: \<open>TwoPointGaussLegendre\<close> subtracts where the rule adds: on a cubic it
  returns \<open>-(2/\<surd>3)(c1 + c3/3)\<close>, a multiple of the odd part, while the
  two-point rule of the spec (\<open>gauss_legendre2\<close>) gives the exact integral
  \<open>2 c0 + 2 c2 / 3\<close> over \<open>[-1, 1]\<close>.\<close>

theorem TwoPointGaussLegendre_odd_part:
  "TwoPointGaussLegendre (cubic c0 c1 c2 c3) = - (2 / sqrt 3) * (c1 + c3 / 3) \<and>
   gauss_legendre2 (cubic c0 c1 c2 c3) = cubic_int c0 c1 c2 c3 1 - cubic_int c0 c1 c2 c3 (-1)"
  by (simp add: TwoPointGaussLegendre_def gauss_legendre2_def poly_defs field_simps power_def)

text \<open>C11: \<open>TrapezoidUnequalSegments\<close> of the callback class evaluates the
  callback at the indices \<open>i\<close> and \<open>i - 1\<close>, not at the points \<open>x[i]\<close>, \<open>x[i-1]\<close>,
  and takes the difference of the two values instead of their sum: on every
  affine integrand \<open>a + b t\<close> it returns \<open>b (x[-1] - x[0]) / 2\<close>, whatever the
  interior points (the trapezoid rule gives \<open>a (x[-1] - x[0]) + b (x[-1]\<^sup>2 - x[0]\<^sup>2) / 2\<close>);
  in particular it returns 0 for every constant integrand.\<close>

theorem TrapezoidUnequalSegments_affine:
  "TrapezoidUnequalSegments x (\<lambda>t. a + b * t) = (if x = [] then 0 else b * (last x - hd x) / 2)"
  using unequal_fn_loop_affine[of a b 1 x 0] by (simp add: TrapezoidUnequalSegments_def)

text \<open>C12: \<open>Romberg\<close> on every branch: a negative \<open>maxIt\<close> raises \<open>ValueError\<close>
  (from \<open>np.empty\<close>), \<open>maxIt = 0\<close> raises \<open>IndexError\<close>, and otherwise the result is
  the top-right corner \<open>R(0, maxIt - 1)\<close> of the Romberg table of the spec.\<close>

theorem Romberg_spec:
  "Romberg l u maxIt F =
     (if maxIt < 0 then Inl ValueError
      else if maxIt = 0 then Inl IndexError
      else Inr (romberg_R l u F 0 (nat maxIt - 1)))"
  by (simp add: Romberg_def romberg_from_spec)

text \<open>C13: the table is allocated with \<open>np.empty\<close>, whose contents are arbitrary;
  the algorithm never reads an entry before writing it, so its result does not
  depend on them.\<close>

theorem romberg_from_init_irrelevant:
  "romberg_from I0 l u maxIt F = romberg_from I1 l u maxIt F"
  by (simp only: romberg_from_spec)

text \<open>Romberg's first Richardson extrapolation is Simpson's rule:
  \<open>Romberg l u 2\<close> equals \<open>SimpsonOneThird l u 2\<close>.\<close>

theorem Romberg_two_simpson: "Romberg l u 2 F = SimpsonOneThird l u 2 F"
  by (simp add: Romberg_def romberg_from_spec SimpsonOneThird_def composite_trapezoid_def
      numeral_eq_Suc field_simps)

text \<open>With three rows Romberg integrates quintics exactly (its corner is
  Boole's rule).\<close>

theorem Romberg_three_quintic:
  "Romberg l u 3 (quintic c0 c1 c2 c3 c4 c5) =
     Inr (quintic_int c0 c1 c2 c3 c4 c5 u - quintic_int c0 c1 c2 c3 c4 c5 l)"
  by (simp add: Romberg_def romberg_from_spec composite_trapezoid_def numeral_eq_Suc poly_defs
      field_simps power_def)

text \<open>Romberg's rows are Richardson extrapolation: with two rows it is
  Simpson's 1/3 rule with two panels, and with three rows it integrates every
  quintic exactly.\<close>

theorem Romberg_rows:
  "Romberg l u 2 F = SimpsonOneThird l u 2 F \<and>
   Romberg l u 3 (quintic c0 c1 c2 c3 c4 c5) =
     Inr (quintic_int c0 c1 c2 c3 c4 c5 u - quintic_int c0 c1 c2 c3 c4 c5 l)"
  by (simp only: Romberg_two_simpson Romberg_three_quintic simp_thms)

text \<open>C14: on a cubic integrand adaptive quadrature returns (the recursion stops at
  the top level, both Simpson estimates being exact) and its result is the exact
  integral.\<close>

theorem AdaptiveQuadrature_cubic_exact:
  "AdaptiveQuadrature l u (cubic c0 c1 c2 c3) = Some (cubic_int c0 c1 c2 c3 u - cubic_int c0 c1 c2 c3 l)"
proof -
  let ?F = "cubic c0 c1 c2 c3" and ?P = "cubic_int c0 c1 c2 c3"
  let ?h = "(l + u) / 2"
  have I1: "(u - l) / 6 * (?F l + 4 * ?F ?h + ?F u) = ?P u - ?P l"
    using simpson_panel_cubic[of u l c0 c1 c2 c3] by (simp add: add.commute)
  have left: "(?h - l) / 6 * (?F l + 4 * ?F ((l + ?h) / 2) + ?F ?h) = ?P ?h - ?P l"
    by (rule simpson_panel_cubic)
  have right: "(u - ?h) / 6 * (?F ?h + 4 * ?F ((?h + u) / 2) + ?F u) = ?P u - ?P ?h"
    by (rule simpson_panel_cubic)
  have I2: "(u - l) / 2 / 6 * (?F l + 4 * ?F ((l + ?h) / 2) + 2 * ?F ?h + 4 * ?F ((?h + u) / 2) + ?F u)
      = ?P u - ?P l"
  proof -
    have "(u - l) / 2 / 6 * (?F l + 4 * ?F ((l + ?h) / 2) + 2 * ?F ?h + 4 * ?F ((?h + u) / 2) + ?F u)
        = (?h - l) / 6 * (?F l + 4 * ?F ((l + ?h) / 2) + ?F ?h) + (u - ?h) / 6 * (?F ?h + 4 * ?F ((?h + u) / 2) + ?F u)"
      by (simp add: field_simps)
    then show ?thesis using left right by simp
  qed
  show ?thesis
    unfolding AdaptiveQuadrature_def Let_def
    by (subst qstep.simps) (simp only: Let_def I1 I2, simp)
qed
end
