(* ===== verification/TwoDIntegration.thy ===== *)
theory TwoDIntegration
  imports Integration
begin

text \<open>
  The private class \<open>__TwoDIntegral\<close> of \<open>src/numerics/integration.py\<close> (lines
  466-488), whose docstring calls it incomplete and which nothing calls. Its one
  method \<open>__Trapezoid\<close> integrates \<open>Fxdx([x, y])\<close> over a rectangle: for each of the
  \<open>nY + 1\<close> grid lines \<open>y = yl + j h[1]\<close> it computes the trapezoid rule in \<open>x\<close>
  with the same loop as \<open>OneDIntegralwithFunction.Trapezoid\<close> (\<open>trap_loop\<close>), then
  combines the rows \<open>I[0]\<close>, \<open>I[1]\<close>, \<open>I[2]\<close> and divides by the area.
\<close>

section \<open>Definitions\<close>

text \<open>One pass of \<open>for j in range(nY+1)\<close>: \<open>f0 = Fxdx([xl,yl])\<close>, the inner loop
  \<open>xl += h[0]; sum += Fxdx([xl,yl])\<close>, and the appended row value; \<open>xl = lx\<close>
  restores the left end, so every row starts at \<open>xl\<close>.\<close>

definition td_row :: "sys_rhs \<Rightarrow> real \<Rightarrow> real \<Rightarrow> int \<Rightarrow> real \<Rightarrow> real" where
  "td_row Fxdx xl xu nX yl =
     (let h0 = (xu - xl) / of_int nX; wd0 = xu - xl; f0 = Fxdx [xl, yl];
          s = trap_loop (\<lambda>x. Fxdx [x, yl]) h0 (nat (nX - 1)) xl 0
      in wd0 * (f0 + 2 * s + Fxdx [xu, yl]) / (2 * of_int nX))"

text \<open>The outer loop with \<open>r\<close> iterations left: \<open>yl += h[1]\<close> after each row.\<close>

fun td_rows :: "sys_rhs \<Rightarrow> real \<Rightarrow> real \<Rightarrow> int \<Rightarrow> real \<Rightarrow> nat \<Rightarrow> real \<Rightarrow> real list \<Rightarrow> real list" where
  "td_rows Fxdx xl xu nX h1 0 yl I = I"
| "td_rows Fxdx xl xu nX h1 (Suc r) yl I = td_rows Fxdx xl xu nX h1 r (yl + h1) (I @ [td_row Fxdx xl xu nX yl])"

text \<open>The method: \<open>h.append((xu - xl) / nX)\<close> and \<open>h.append((yu - yl) / nY)\<close> raise
  \<open>ZeroDivisionError\<close> for a zero count; the rows, then
  \<open>res = wd[1] * (I[0] + 2*I[1] + I[2]) / (2*nY)\<close> and \<open>res / (wd[0] * wd[1])\<close>.\<close>

definition TwoD_Trapezoid :: "real \<Rightarrow> real \<Rightarrow> int \<Rightarrow> real \<Rightarrow> real \<Rightarrow> int \<Rightarrow> sys_rhs \<Rightarrow> real result" where
  "TwoD_Trapezoid xl xu nX yl yu nY Fxdx =
     (if nX = 0 \<or> nY = 0 then Inl ZeroDivisionError
      else let h1 = (yu - yl) / of_int nY; wd0 = xu - xl; wd1 = yu - yl;
               I = td_rows Fxdx xl xu nX h1 (nat (nY + 1)) yl []
           in res_bind (py_get I 0) (\<lambda>i0. res_bind (py_get I 1) (\<lambda>i1. res_bind (py_get I 2) (\<lambda>i2.
                py_div (wd1 * (i0 + 2 * i1 + i2) / (2 * of_int nY)) (wd0 * wd1)))))"

section \<open>Lemmas\<close>

lemma td_row_Trapezoid: "nX \<noteq> 0 \<Longrightarrow> Trapezoid xl xu nX (\<lambda>x. Fxdx [x, yl]) = Inr (td_row Fxdx xl xu nX yl)"
  by (simp add: Trapezoid_def td_row_def Let_def)

lemma td_rows_map:
  "td_rows Fxdx xl xu nX h1 r yl I = I @ map (\<lambda>j. td_row Fxdx xl xu nX (yl + real j * h1)) [0..<r]"
proof (induction r arbitrary: yl I)
  case 0
  then show ?case by simp
next
  case (Suc r)
  have "map (\<lambda>j. td_row Fxdx xl xu nX (yl + h1 + real j * h1)) [0..<r] =
        map (\<lambda>j. td_row Fxdx xl xu nX (yl + real (Suc j) * h1)) [0..<r]"
    by (simp add: algebra_simps)
  then show ?case by (simp add: Suc.IH map_upt_Suc del: upt_Suc)
qed

lemma td_row_bilinear:
  assumes "0 < nX"
  shows "td_row (\<lambda>v. a + b * v ! 0 + c * v ! 1 + d * v ! 0 * v ! 1) xl xu nX y =
           (a + c * y) * (xu - xl) + (b + d * y) * (xu ^ 2 - xl ^ 2) / 2"
proof -
  have f: "(\<lambda>x. (\<lambda>v. a + b * v ! 0 + c * v ! 1 + d * v ! 0 * v ! 1) [x, y]) = cubic (a + c * y) (b + d * y) 0 0"
    by (simp add: fun_eq_iff cubic_def algebra_simps)
  have "Inr (td_row (\<lambda>v. a + b * v ! 0 + c * v ! 1 + d * v ! 0 * v ! 1) xl xu nX y) =
        Inr (cubic_int (a + c * y) (b + d * y) 0 0 xu - cubic_int (a + c * y) (b + d * y) 0 0 xl)"
    using td_row_Trapezoid[of nX xl xu "\<lambda>v. a + b * v ! 0 + c * v ! 1 + d * v ! 0 * v ! 1" y]
      Trapezoid_linear_exact[OF assms] assms by (simp only: f) simp
  then have eq: "td_row (\<lambda>v. a + b * v ! 0 + c * v ! 1 + d * v ! 0 * v ! 1) xl xu nX y =
      cubic_int (a + c * y) (b + d * y) 0 0 xu - cubic_int (a + c * y) (b + d * y) 0 0 xl" by simp
  show ?thesis unfolding eq by (simp add: cubic_int_def power2_eq_square field_simps)
qed

text \<open>C15: with two panels in \<open>y\<close> (the only count for which the three rows it
  reads are all the rows), and any positive count in \<open>x\<close>, the method is exact on
  every bilinear integrand \<open>a + b x + c y + d x y\<close>, but what it returns is the
  integral divided by the area of the rectangle, that is the mean value of the
  integrand, not its integral.\<close>

theorem TwoD_Trapezoid_mean:
  assumes "0 < nX" "xl \<noteq> xu" "yl \<noteq> yu"
  shows "TwoD_Trapezoid xl xu nX yl yu 2 (\<lambda>v. a + b * v ! 0 + c * v ! 1 + d * v ! 0 * v ! 1) =
           Inr (a + b * ((xl + xu) / 2) + c * ((yl + yu) / 2) + d * ((xl + xu) / 2) * ((yl + yu) / 2))"
proof -
  let ?F = "\<lambda>v. a + b * v ! 0 + c * v ! 1 + d * v ! 0 * v ! 1"
  let ?R = "\<lambda>y. (a + c * y) * (xu - xl) + (b + d * y) * (xu ^ 2 - xl ^ 2) / 2"
  define h1 where "h1 = (yu - yl) / of_int (2 :: int)"
  have rows: "td_rows ?F xl xu nX h1 (nat (2 + 1)) yl [] = [?R yl, ?R (yl + h1), ?R (yl + 2 * h1)]"
  proof -
    have r: "td_row ?F xl xu nX y = ?R y" for y using td_row_bilinear[OF assms(1)] .
    show ?thesis by (simp only: td_rows_map r) (simp add: numeral_eq_Suc)
  qed
  have nz: "(xu - xl) * (yu - yl) \<noteq> 0" using assms(2,3) by simp
  define M where "M = a + b * ((xl + xu) / 2) + c * ((yl + yu) / 2) + d * ((xl + xu) / 2) * ((yl + yu) / 2)"
  have "(yu - yl) * (?R yl + 2 * ?R (yl + h1) + ?R (yl + 2 * h1)) / (2 * 2) = M * ((xu - xl) * (yu - yl))"
    unfolding h1_def M_def by (simp add: power2_eq_square field_simps)
  then have "(yu - yl) * (?R yl + 2 * ?R (yl + h1) + ?R (yl + 2 * h1)) / (2 * 2) / ((xu - xl) * (yu - yl)) =
      M * ((xu - xl) * (yu - yl)) / ((xu - xl) * (yu - yl))" by (simp only:)
  also have "\<dots> = M" using nz by simp
  finally have mean: "(yu - yl) * (?R yl + 2 * ?R (yl + h1) + ?R (yl + 2 * h1)) / (2 * 2) / ((xu - xl) * (yu - yl)) = M" .
  then show ?thesis
    using nz mean assms(1)
    by (simp only: TwoD_Trapezoid_def Let_def h1_def[symmetric] rows) (simp add: py_div_def M_def)
qed


text \<open>C16: the final combination reads \<open>I[0]\<close>, \<open>I[1]\<close> and \<open>I[2]\<close> whatever \<open>nY\<close> is:
  with non-zero panel counts and \<open>nY < 2\<close> (fewer than three rows) the method raises
  \<open>IndexError\<close>.\<close>

theorem TwoD_Trapezoid_few_rows:
  assumes "nX \<noteq> 0" "nY \<noteq> 0" "nY < 2"
  shows "TwoD_Trapezoid xl xu nX yl yu nY Fxdx = Inl IndexError"
proof (cases "nY < 0")
  case True
  then have "nat (nY + 1) = 0" by simp
  then show ?thesis using assms by (simp add: TwoD_Trapezoid_def Let_def py_get_def)
next
  case False
  then have "nY = 1" using assms(2,3) by simp
  then show ?thesis using assms(1) by (simp add: TwoD_Trapezoid_def Let_def py_get_def numeral_eq_Suc)
qed

lemma TwoD_Trapezoid_rows_ignored: "TwoD_Trapezoid 0 1 1 0 1 4 (\<lambda>_. 1) = Inr (1 / 2)"
  by (simp add: TwoD_Trapezoid_def td_rows_map td_row_def py_get_def py_div_def numeral_eq_Suc)

theorem TwoD_Trapezoid_mean_witness:
  "(0 :: int) < 1 \<and> (0 :: real) \<noteq> 2 \<and> (0 :: real) \<noteq> 1 \<and>
   TwoD_Trapezoid 0 2 1 0 1 2 (\<lambda>v. 1 + 2 * v ! 0 + 3 * v ! 1 + 4 * v ! 0 * v ! 1) = Inr (13 / 2)"
  using TwoD_Trapezoid_mean[where nX = 1 and xl = 0 and xu = 2 and yl = 0 and yu = 1 and a = 1 and b = 2
      and c = 3 and d = 4]
  by simp


theorem TwoD_Trapezoid_few_rows_witness:
  "(1 :: int) \<noteq> 0 \<and> (1 :: int) \<noteq> 0 \<and> (1 :: int) < 2 \<and>
   TwoD_Trapezoid 0 1 1 0 1 1 (\<lambda>v. v ! 0 * v ! 1) = Inl IndexError"
  using TwoD_Trapezoid_few_rows[where nX = 1 and nY = 1 and xl = 0 and xu = 1 and yl = 0 and yu = 1
      and Fxdx = "\<lambda>v. v ! 0 * v ! 1"]
  by simp

end
