(* ===== verification/RootFind.thy ===== *)
theory RootFind
  imports Prelude
begin

text \<open>
  Class \<open>RootFind\<close> of \<open>src/rootfind.py\<close>. \<open>setParams\<close> stores the callback, its
  derivative and the tolerance in instance fields: the record \<open>rootfind\<close>. An
  instance on which \<open>setParams\<close> was never called has no such fields, and any
  method raises \<open>AttributeError\<close> at \<open>self.func\<close>: the instance state is
  \<open>rootfind option\<close>. Each method's \<open>while\<close> loop has no bound on its iterations, so
  it is a \<^theory_text>\<open>partial_function (option)\<close> whose value is \<open>None\<close> when the loop
  runs forever and \<open>Some (Inl e)\<close> when it raises \<open>e\<close>. The \<open>print(x2)\<close> of
  \<open>BiSection\<close> is output only and is not modelled.
\<close>

section \<open>Definitions\<close>

record rootfind =
  func :: "fun1 option"
  der :: "fun1 option"
  err :: real

definition setParams :: "fun1 option \<Rightarrow> fun1 option \<Rightarrow> real \<Rightarrow> rootfind" where
  "setParams f d e = \<lparr>func = f, der = d, err = e\<rparr>"

text \<open>The default tolerance \<open>err=1e-13\<close>.\<close>

definition default_err :: real where
  "default_err = 1 / 10 ^ 13"

definition msg_func :: string where
  "msg_func = ''Function (func) should be declared in setParams.''"

definition msg_der :: string where
  "msg_der = ''Derivative function (der) should be declared in setParams.''"

definition msg_guess :: string where
  "msg_guess = ''Guess are not proper.'' @ [CHR 0x0A] @ ''Func(x0) * Func(x1) > 0. Select proper guess.''"

subsection \<open>BiSection\<close>

text \<open>The \<open>while ... else\<close> loop: the \<open>else\<close> branch, which raises, runs whenever the
  guard \<open>func(x0) * func(x1) < 0\<close> is false, also after iterations; the only normal
  exit is the \<open>return x2\<close> inside the body.\<close>

partial_function (option) bisect_loop :: "fun1 \<Rightarrow> real \<Rightarrow> real \<Rightarrow> real \<Rightarrow> real result option" where
  "bisect_loop f tol x0 x1 =
     (if f x0 * f x1 < 0 then
        (let x2 = x0 + (x1 - x0) / 2;
             (x0', x1') = (if f x0 * f x2 > 0 then (x2, x1) else (x0, x2))
         in if \<bar>f x0' - f x1'\<bar> < tol then Some (Inr x2) else bisect_loop f tol x0' x1')
      else Some (Inl (Exception msg_guess)))"

definition BiSection :: "rootfind option \<Rightarrow> real \<Rightarrow> real \<Rightarrow> real result option" where
  "BiSection self x0 x1 =
     (case self of
        None \<Rightarrow> Some (Inl AttributeError)
      | Some s \<Rightarrow> (case func s of
          None \<Rightarrow> Some (Inl (Exception msg_func))
        | Some f \<Rightarrow> bisect_loop f (err s) x0 x1))"

subsection \<open>NewtonRaphson\<close>

text \<open>One loop iteration and the test of the next guard \<open>err > self.err\<close>; a zero
  derivative raises \<open>ZeroDivisionError\<close> at \<open>func(x0) / der(x0)\<close>.\<close>

partial_function (option) newton_loop :: "fun1 \<Rightarrow> fun1 \<Rightarrow> real \<Rightarrow> real \<Rightarrow> real result option" where
  "newton_loop f df tol x0 =
     (if df x0 = 0 then Some (Inl ZeroDivisionError)
      else let x_n1 = x0 - f x0 / df x0; e = \<bar>f x0 - f x_n1\<bar>
           in if e > tol then newton_loop f df tol x_n1 else Some (Inr x_n1))"

text \<open>\<open>err = 100\<close> before the loop: with a tolerance of at least 100 the loop body
  never runs and \<open>return x_n1\<close> reads an unbound local.\<close>

definition NewtonRaphson :: "rootfind option \<Rightarrow> real \<Rightarrow> real result option" where
  "NewtonRaphson self x0 =
     (case self of
        None \<Rightarrow> Some (Inl AttributeError)
      | Some s \<Rightarrow> (case func s of
          None \<Rightarrow> Some (Inl (Exception msg_func))
        | Some f \<Rightarrow> (case der s of
            None \<Rightarrow> Some (Inl (Exception msg_der))
          | Some df \<Rightarrow> if 100 > err s then newton_loop f df (err s) x0
                        else Some (Inl UnboundLocalError))))"

subsection \<open>Secant\<close>

partial_function (option) secant_loop :: "fun1 \<Rightarrow> real \<Rightarrow> real \<Rightarrow> real \<Rightarrow> real result option" where
  "secant_loop f tol x0 x1 =
     (if f x1 - f x0 = 0 then Some (Inl ZeroDivisionError)
      else let x_2 = (x0 * f x1 - x1 * f x0) / (f x1 - f x0); e = \<bar>f x_2\<bar>
           in if e > tol then secant_loop f tol x1 x_2 else Some (Inr x_2))"

definition Secant :: "rootfind option \<Rightarrow> real \<Rightarrow> real \<Rightarrow> real result option" where
  "Secant self x0 x1 =
     (case self of
        None \<Rightarrow> Some (Inl AttributeError)
      | Some s \<Rightarrow> (case func s of
          None \<Rightarrow> Some (Inl (Exception msg_func))
        | Some f \<Rightarrow> if 100 > err s then secant_loop f (err s) x0 x1
                     else Some (Inl UnboundLocalError)))"

subsection \<open>Iteration (fixed point)\<close>

partial_function (option) fixpoint_loop :: "fun1 \<Rightarrow> real \<Rightarrow> real \<Rightarrow> real result option" where
  "fixpoint_loop f tol x0 =
     (let x_1 = f x0; e = \<bar>x_1 - x0\<bar>
      in if e > tol then fixpoint_loop f tol x_1 else Some (Inr x_1))"

definition Iteration :: "rootfind option \<Rightarrow> real \<Rightarrow> real result option" where
  "Iteration self x0 =
     (case self of
        None \<Rightarrow> Some (Inl AttributeError)
      | Some s \<Rightarrow> (case func s of
          None \<Rightarrow> Some (Inl (Exception msg_func))
        | Some f \<Rightarrow> if 100 > err s then fixpoint_loop f (err s) x0
                     else Some (Inl UnboundLocalError)))"

text \<open>A contraction with constant \<open>q < 1\<close>: the hypothesis under which the
  fixed-point iteration converges.\<close>

definition contraction :: "real \<Rightarrow> fun1 \<Rightarrow> bool" where
  "contraction q f \<longleftrightarrow> 0 \<le> q \<and> q < 1 \<and> (\<forall>x y. \<bar>f x - f y\<bar> \<le> q * \<bar>x - y\<bar>)"

text \<open>Lipschitz continuity of a callback on the closed interval between two
  points: the hypothesis of the termination theorem for bisection.\<close>

definition lipschitz_on_between :: "real \<Rightarrow> fun1 \<Rightarrow> real \<Rightarrow> real \<Rightarrow> bool" where
  "lipschitz_on_between L f a b \<longleftrightarrow>
     (\<forall>x y. min a b \<le> x \<and> x \<le> max a b \<and> min a b \<le> y \<and> y \<le> max a b \<longrightarrow>
        \<bar>f x - f y\<bar> \<le> L * \<bar>x - y\<bar>)"


section \<open>Loop lemmas\<close>

lemma sign_flip: "(a::real) * b < 0 \<Longrightarrow> 0 < a * c \<Longrightarrow> c * b < 0"
  by (auto simp: mult_less_0_iff zero_less_mult_iff)

lemma abs_le_diff_opposite: "(a::real) * b \<le> 0 \<Longrightarrow> \<bar>a\<bar> \<le> \<bar>a - b\<bar> \<and> \<bar>b\<bar> \<le> \<bar>a - b\<bar>"
  by (auto simp: mult_le_0_iff abs_if)

lemma bisect_step_pair:
  fixes f :: fun1
  assumes "f x0 * f x1 < 0"
    and "(x0', x1') = (if f x0 * f (x0 + (x1 - x0) / 2) > 0 then (x0 + (x1 - x0) / 2, x1) else (x0, x0 + (x1 - x0) / 2))"
  shows "f x0' * f x1' \<le> 0 \<and> (x0 + (x1 - x0) / 2 = x0' \<or> x0 + (x1 - x0) / 2 = x1') \<and>
         min x0 x1 \<le> min x0' x1' \<and> max x0' x1' \<le> max x0 x1 \<and> \<bar>x1' - x0'\<bar> = \<bar>x1 - x0\<bar> / 2"
proof (cases "f x0 * f (x0 + (x1 - x0) / 2) > 0")
  case True
  with assms have e: "x0' = x0 + (x1 - x0) / 2" "x1' = x1" by auto
  have "f (x0 + (x1 - x0) / 2) * f x1 < 0" using sign_flip[OF assms(1) True] .
  then have "f x0' * f x1' \<le> 0" using e by simp
  moreover have "min x0 x1 \<le> min x0' x1' \<and> max x0' x1' \<le> max x0 x1 \<and> \<bar>x1' - x0'\<bar> = \<bar>x1 - x0\<bar> / 2"
    using e by (auto simp: abs_if min_def max_def field_simps)
  ultimately show ?thesis using e by simp
next
  case False
  with assms have e: "x0' = x0" "x1' = x0 + (x1 - x0) / 2" by auto
  from False have "f x0' * f x1' \<le> 0" using e by simp
  moreover have "min x0 x1 \<le> min x0' x1' \<and> max x0' x1' \<le> max x0 x1 \<and> \<bar>x1' - x0'\<bar> = \<bar>x1 - x0\<bar> / 2"
    using e by (auto simp: abs_if min_def max_def field_simps)
  ultimately show ?thesis using e by simp
qed

lemma bisect_loop_residual:
  assumes ret: "bisect_loop f tol x0 x1 = Some (Inr r)"
  shows "\<bar>f r\<bar> < tol \<and> min x0 x1 \<le> r \<and> r \<le> max x0 x1"
proof -
  have "\<forall>r'. (Inr r :: real result) = Inr r' \<longrightarrow> \<bar>f r'\<bar> < tol \<and> min x0 x1 \<le> r' \<and> r' \<le> max x0 x1"
  proof (rule bisect_loop.raw_induct[where P = "\<lambda>f tol x0 x1 res.
      \<forall>r'. res = Inr r' \<longrightarrow> \<bar>f r'\<bar> < tol \<and> min x0 x1 \<le> r' \<and> r' \<le> max x0 x1", OF _ ret])
    fix bl and f :: fun1 and tol x0 x1 :: real and res :: "real result"
    assume IH: "\<And>f tol x0 x1 res. bl f tol x0 x1 = Some res \<Longrightarrow>
        \<forall>r'. res = Inr r' \<longrightarrow> \<bar>f r'\<bar> < tol \<and> min x0 x1 \<le> r' \<and> r' \<le> max x0 x1"
      and eq: "(if f x0 * f x1 < 0 then
        (let x2 = x0 + (x1 - x0) / 2;
             (x0', x1') = (if f x0 * f x2 > 0 then (x2, x1) else (x0, x2))
         in if \<bar>f x0' - f x1'\<bar> < tol then Some (Inr x2) else bl f tol x0' x1')
      else Some (Inl (Exception msg_guess))) = Some res"
    show "\<forall>r'. res = Inr r' \<longrightarrow> \<bar>f r'\<bar> < tol \<and> min x0 x1 \<le> r' \<and> r' \<le> max x0 x1"
    proof (cases "f x0 * f x1 < 0")
      case False
      with eq have "res = Inl (Exception msg_guess)" by simp
      then show ?thesis by simp
    next
      case guard: True
      define x2 where "x2 = x0 + (x1 - x0) / 2"
      obtain x0' x1' where pair: "(x0', x1') = (if f x0 * f x2 > 0 then (x2, x1) else (x0, x2))"
        by (metis surj_pair)
      from bisect_step_pair[OF guard pair[unfolded x2_def]]
      have st: "f x0' * f x1' \<le> 0" "x2 = x0' \<or> x2 = x1'" "min x0 x1 \<le> min x0' x1'"
          "max x0' x1' \<le> max x0 x1"
        by (auto simp: x2_def)
      have x2b: "min x0 x1 \<le> x2 \<and> x2 \<le> max x0 x1" by (auto simp: x2_def min_def max_def field_simps)
      have eq': "(if \<bar>f x0' - f x1'\<bar> < tol then Some (Inr x2) else bl f tol x0' x1') = Some res"
        using eq guard by (simp add: x2_def[symmetric] Let_def pair[symmetric])
      show ?thesis
      proof (cases "\<bar>f x0' - f x1'\<bar> < tol")
        case True
        with eq' have "res = Inr x2" by simp
        moreover have "\<bar>f x2\<bar> < tol"
          using st(2) True abs_le_diff_opposite[OF st(1)] by auto
        ultimately show ?thesis using x2b by simp
      next
        case False
        with eq' have "bl f tol x0' x1' = Some res" by simp
        from IH[OF this] st(3,4) show ?thesis by (auto simp: min_def max_def split: if_splits)
      qed
    qed
  qed
  then show ?thesis by blast
qed

lemma bisect_loop_step:
  assumes "f x0 * f x1 < 0"
    and "(x0', x1') = (if f x0 * f (x0 + (x1 - x0) / 2) > 0 then (x0 + (x1 - x0) / 2, x1) else (x0, x0 + (x1 - x0) / 2))"
  shows "bisect_loop f tol x0 x1 =
    (if \<bar>f x0' - f x1'\<bar> < tol then Some (Inr (x0 + (x1 - x0) / 2)) else bisect_loop f tol x0' x1')"
  using assms by (subst bisect_loop.simps) (simp add: Let_def assms(2)[symmetric])

lemma lipschitz_on_between_sub:
  "lipschitz_on_between L f a b \<Longrightarrow> min a b \<le> min c d \<Longrightarrow> max c d \<le> max a b \<Longrightarrow>
   lipschitz_on_between L f c d"
  unfolding lipschitz_on_between_def by (meson order_trans)

lemma lipschitz_on_between_ends:
  "lipschitz_on_between L f a b \<Longrightarrow> \<bar>f a - f b\<bar> \<le> L * \<bar>a - b\<bar>"
  unfolding lipschitz_on_between_def by (metis max.cobounded1 max.cobounded2 min.cobounded1 min.cobounded2)

lemma bisect_loop_terminates:
  assumes "0 < tol" "lipschitz_on_between L f x0 x1" "L * \<bar>x1 - x0\<bar> < tol * 2 ^ n"
  shows "\<exists>r. bisect_loop f tol x0 x1 = Some r"
  using assms(2,3)
proof (induction n arbitrary: x0 x1)
  case (0 x0 x1)
  show ?case
  proof (cases "f x0 * f x1 < 0")
    case False
    then show ?thesis by (subst bisect_loop.simps) simp
  next
    case guard: True
    obtain x0' x1' where pair: "(x0', x1') = (if f x0 * f (x0 + (x1 - x0) / 2) > 0
        then (x0 + (x1 - x0) / 2, x1) else (x0, x0 + (x1 - x0) / 2))" by (metis surj_pair)
    from bisect_step_pair[OF guard pair] have st: "min x0 x1 \<le> min x0' x1'" "max x0' x1' \<le> max x0 x1"
      "\<bar>x1' - x0'\<bar> = \<bar>x1 - x0\<bar> / 2" by auto
    have "\<bar>f x0' - f x1'\<bar> \<le> L * \<bar>x0' - x1'\<bar>"
      by (rule lipschitz_on_between_ends[OF lipschitz_on_between_sub[OF "0.prems"(1) st(1,2)]])
    also have "\<dots> = L * \<bar>x1 - x0\<bar> / 2" using st(3) by (simp add: abs_minus_commute)
    also have "\<dots> < tol" using "0.prems"(2) assms(1) by (simp add: field_simps)
    finally show ?thesis by (simp add: bisect_loop_step[OF guard pair])
  qed
next
  case (Suc n x0 x1)
  show ?case
  proof (cases "f x0 * f x1 < 0")
    case False
    then show ?thesis by (subst bisect_loop.simps) simp
  next
    case guard: True
    obtain x0' x1' where pair: "(x0', x1') = (if f x0 * f (x0 + (x1 - x0) / 2) > 0
        then (x0 + (x1 - x0) / 2, x1) else (x0, x0 + (x1 - x0) / 2))" by (metis surj_pair)
    from bisect_step_pair[OF guard pair] have st: "min x0 x1 \<le> min x0' x1'" "max x0' x1' \<le> max x0 x1"
      "\<bar>x1' - x0'\<bar> = \<bar>x1 - x0\<bar> / 2" by auto
    have lip: "lipschitz_on_between L f x0' x1'"
      by (rule lipschitz_on_between_sub[OF Suc.prems(1) st(1,2)])
    have "L * \<bar>x1 - x0\<bar> = 2 * (L * \<bar>x1' - x0'\<bar>)" using st(3) by simp
    moreover have "tol * 2 ^ Suc n = 2 * (tol * 2 ^ n)" by simp
    ultimately have "L * \<bar>x1' - x0'\<bar> < tol * 2 ^ n" using Suc.prems(2) by linarith
    from Suc.IH[OF lip this] show ?thesis by (simp add: bisect_loop_step[OF guard pair])
  qed
qed
lemma fixpoint_loop_steps:
  assumes "contraction q f" "q ^ n * \<bar>f x - x\<bar> \<le> tol"
  shows "\<exists>r. fixpoint_loop f tol x = Some (Inr r) \<and> \<bar>f r - r\<bar> \<le> q * tol"
  using assms(2)
proof (induction n arbitrary: x)
  case 0
  then have le: "\<bar>f x - x\<bar> \<le> tol" by simp
  have "\<bar>f (f x) - f x\<bar> \<le> q * \<bar>f x - x\<bar>" using assms(1) by (simp add: contraction_def)
  also have "\<dots> \<le> q * tol" using le assms(1) by (simp add: contraction_def mult_left_mono)
  finally show ?case using le by (subst fixpoint_loop.simps) (simp add: Let_def)
next
  case (Suc n)
  show ?case
  proof (cases "\<bar>f x - x\<bar> \<le> tol")
    case le: True
    have "\<bar>f (f x) - f x\<bar> \<le> q * \<bar>f x - x\<bar>" using assms(1) by (simp add: contraction_def)
    also have "\<dots> \<le> q * tol" using le assms(1) by (simp add: contraction_def mult_left_mono)
    finally show ?thesis using le by (subst fixpoint_loop.simps) (simp add: Let_def)
  next
    case False
    have q: "0 \<le> q" using assms(1) by (simp add: contraction_def)
    have "q ^ n * \<bar>f (f x) - f x\<bar> \<le> q ^ n * (q * \<bar>f x - x\<bar>)"
      using assms(1) q by (intro mult_left_mono) (simp_all add: contraction_def)
    also have "\<dots> \<le> tol" using Suc.prems by (simp add: mult.assoc mult.left_commute)
    finally have "\<exists>r. fixpoint_loop f tol (f x) = Some (Inr r) \<and> \<bar>f r - r\<bar> \<le> q * tol"
      by (rule Suc.IH)
    moreover have "fixpoint_loop f tol x = fixpoint_loop f tol (f x)"
      using False by (subst fixpoint_loop.simps) (simp add: Let_def)
    ultimately show ?thesis by simp
  qed
qed

lemma secant_loop_residual:
  assumes ret: "secant_loop f tol x0 x1 = Some (Inr r)"
  shows "\<bar>f r\<bar> \<le> tol"
proof -
  have "\<forall>r'. (Inr r :: real result) = Inr r' \<longrightarrow> \<bar>f r'\<bar> \<le> tol"
  proof (rule secant_loop.raw_induct[where P = "\<lambda>f tol x0 x1 res. \<forall>r'. res = Inr r' \<longrightarrow> \<bar>f r'\<bar> \<le> tol", OF _ ret])
    fix sl and f :: fun1 and tol x0 x1 :: real and res :: "real result"
    assume IH: "\<And>f tol x0 x1 res. sl f tol x0 x1 = Some res \<Longrightarrow> \<forall>r'. res = Inr r' \<longrightarrow> \<bar>f r'\<bar> \<le> tol"
      and eq: "(if f x1 - f x0 = 0 then Some (Inl ZeroDivisionError)
      else let x_2 = (x0 * f x1 - x1 * f x0) / (f x1 - f x0); e = \<bar>f x_2\<bar>
           in if e > tol then sl f tol x1 x_2 else Some (Inr x_2)) = Some res"
    show "\<forall>r'. res = Inr r' \<longrightarrow> \<bar>f r'\<bar> \<le> tol"
      using eq IH by (auto simp: Let_def split: if_splits)
  qed
  then show ?thesis by blast
qed

lemma abs_sub_sqrt2: "0 < r \<Longrightarrow> \<bar>r - sqrt 2\<bar> \<le> \<bar>r ^ 2 - 2\<bar> / r"
proof -
  assume r: "0 < r"
  have "r ^ 2 - 2 = (r - sqrt 2) * (r + sqrt 2)" by (simp add: algebra_simps power2_eq_square)
  then have eq: "\<bar>r ^ 2 - 2\<bar> = \<bar>r - sqrt 2\<bar> * (r + sqrt 2)" using r by (simp add: abs_mult)
  have "\<bar>r - sqrt 2\<bar> * r \<le> \<bar>r - sqrt 2\<bar> * (r + sqrt 2)" by (simp add: mult_left_mono)
  then show ?thesis using r eq by (simp add: field_simps)
qed

section \<open>Properties of the root finders\<close>

subsection \<open>Bisection\<close>

lemma bisect_loop_exact_mid:
  assumes "f a * f b < 0" "f (a + (b - a) / 2) = 0"
  shows "bisect_loop f tol a b =
           Some (if \<bar>f a\<bar> < tol then Inr (a + (b - a) / 2) else Inl (Exception msg_guess))"
  using assms by (subst bisect_loop.simps) (simp add: Let_def bisect_loop.simps)

text \<open>C17: \<open>BiSection\<close> with guesses whose function values do not have strictly
  opposite signs raises the "Guess are not proper" exception at once (the spec's
  literal case: \<open>f(x) = x\<^sup>2 + 1\<close>).\<close>

theorem BiSection_same_sign_error:
  assumes "func s = Some f" "0 \<le> f x0 * f x1"
  shows "BiSection (Some s) x0 x1 = Some (Inl (Exception msg_guess))"
  using assms by (simp add: BiSection_def bisect_loop.simps)

theorem BiSection_same_sign_error_witness:
  "BiSection (Some (setParams (Some (\<lambda>x. x ^ 2 + 1)) None default_err)) 0 1 =
     Some (Inl (Exception msg_guess))"
proof (rule BiSection_same_sign_error)
  show "func (setParams (Some (\<lambda>x. x ^ 2 + 1)) None default_err) = Some (\<lambda>x. x ^ 2 + 1 :: real)"
    by (simp add: setParams_def)
  show "0 \<le> ((0::real) ^ 2 + 1) * (1 ^ 2 + 1)" by simp
qed

text \<open>When \<open>BiSection\<close> returns a value, the callback's residual there is
  below the tolerance and the value lies between the two initial guesses.\<close>

theorem BiSection_residual:
  assumes "func s = Some f" "BiSection (Some s) x0 x1 = Some (Inr r)"
  shows "\<bar>f r\<bar> < err s \<and> min x0 x1 \<le> r \<and> r \<le> max x0 x1"
  using assms bisect_loop_residual by (simp add: BiSection_def)

theorem BiSection_residual_witness:
  "\<bar>(1/2 :: real) - 1/2\<bar> < 1 \<and> min 0 1 \<le> (1/2 :: real) \<and> (1/2 :: real) \<le> max 0 1"
proof -
  have run: "BiSection (Some (setParams (Some (\<lambda>x. x - 1/2)) None 1)) 0 1 = Some (Inr (1/2))"
    by (simp add: BiSection_def setParams_def bisect_loop.simps Let_def)
  show ?thesis
    using BiSection_residual[OF _ run, of "\<lambda>x. x - 1/2"] by (simp add: setParams_def)
qed

text \<open>C19: the loop's \<open>while ... else\<close> raises whenever the bracketing test fails,
  also when a midpoint hits the root exactly: then \<open>func(x0) * func(x2) = 0\<close>, the
  bracket becomes \<open>[x0, x2]\<close>, and unless \<open>|func(x0)|\<close> is already below the
  tolerance the next test \<open>func(x0) * func(x1) < 0\<close> fails and "Guess are not
  proper" is raised instead of returning the root just found. Stated for the
  first midpoint; every later iteration is the same loop on the current
  bracket (lemma \<open>bisect_loop_exact_mid\<close>).\<close>

theorem BiSection_exact_root_raises:
  assumes "func s = Some f" "f x0 * f x1 < 0" "f (x0 + (x1 - x0) / 2) = 0"
  shows "BiSection (Some s) x0 x1 =
           Some (if \<bar>f x0\<bar> < err s then Inr (x0 + (x1 - x0) / 2) else Inl (Exception msg_guess))"
  using bisect_loop_exact_mid[OF assms(2,3)] assms(1) by (simp add: BiSection_def)

theorem BiSection_exact_root_raises_witness:
  "BiSection (Some (setParams (Some (\<lambda>x. x - 1)) None default_err)) 0 2 = Some (Inl (Exception msg_guess))"
  using BiSection_exact_root_raises[of "setParams (Some (\<lambda>x. x - 1)) None default_err" "\<lambda>x. x - 1" 0 2]
  by (simp add: setParams_def default_err_def)

text \<open>C20: for a positive tolerance and a callback that is Lipschitz continuous
  between the guesses, \<open>BiSection\<close> terminates: its bracket halves each
  iteration, so \<open>|func(x0) - func(x1)|\<close> drops below the tolerance.\<close>

theorem BiSection_terminates:
  assumes "func s = Some f" "0 < err s" "lipschitz_on_between L f x0 x1"
  shows "\<exists>r. BiSection (Some s) x0 x1 = Some r"
proof -
  obtain n where n: "L * \<bar>x1 - x0\<bar> / err s < 2 ^ n"
    using real_arch_pow[of 2 "L * \<bar>x1 - x0\<bar> / err s"] by auto
  then have "L * \<bar>x1 - x0\<bar> < err s * 2 ^ n" using assms(2) by (simp add: field_simps)
  from bisect_loop_terminates[OF assms(2,3) this] assms(1) show ?thesis
    by (simp add: BiSection_def)
qed

theorem BiSection_terminates_witness:
  "\<exists>r. BiSection (Some (setParams (Some (\<lambda>x. x ^ 2 - 2)) None default_err)) 1 2 = Some r"
proof -
  have lip: "lipschitz_on_between 4 (\<lambda>x. x ^ 2 - 2) 1 2"
    unfolding lipschitz_on_between_def
  proof (intro allI impI)
    fix x y :: real assume b: "min 1 2 \<le> x \<and> x \<le> max 1 2 \<and> min 1 2 \<le> y \<and> y \<le> max 1 2"
    have "\<bar>(x ^ 2 - 2) - (y ^ 2 - 2)\<bar> = \<bar>x - y\<bar> * \<bar>x + y\<bar>"
      by (simp add: abs_mult[symmetric] algebra_simps power2_eq_square)
    also have "\<dots> \<le> \<bar>x - y\<bar> * 4" using b by (intro mult_left_mono) auto
    finally show "\<bar>(x ^ 2 - 2) - (y ^ 2 - 2)\<bar> \<le> 4 * \<bar>x - y\<bar>" by (simp add: mult.commute)
  qed
  show ?thesis
    by (rule BiSection_terminates[OF _ _ lip]) (simp_all add: setParams_def default_err_def)
qed

subsection \<open>The spec's test case: the root of \<open>x\<^sup>2 - 2\<close>\<close>

text \<open>On \<open>f(x) = x\<^sup>2 - 2\<close> with the default tolerance \<open>1e-13\<close>, bisection on
  \<open>[1, 2]\<close> (45 halvings), Newton-Raphson from 1 with \<open>der = 2x\<close> (6 steps) and the
  secant method from 1, 2 (6 steps) all return, and each result is within
  \<open>1e-13\<close> of \<open>\<surd>2\<close>.\<close>

theorem root_finders_sqrt2:
  "BiSection (Some (setParams (Some (\<lambda>x. x ^ 2 - 2)) None default_err)) 1 2 =
     Some (Inr (49758216191607 / 35184372088832)) \<and>
   NewtonRaphson (Some (setParams (Some (\<lambda>x. x ^ 2 - 2)) (Some (\<lambda>x. 2 * x)) default_err)) 1 =
     Some (Inr (1572584048032918633353217 / 1111984844349868137938112)) \<and>
   Secant (Some (setParams (Some (\<lambda>x. x ^ 2 - 2)) None default_err)) 1 2 =
     Some (Inr (77227930 / 54608393)) \<and>
   \<bar>49758216191607 / 35184372088832 - sqrt 2\<bar> < 1 / 10 ^ 13 \<and>
   \<bar>1572584048032918633353217 / 1111984844349868137938112 - sqrt 2\<bar> < 1 / 10 ^ 13 \<and>
   \<bar>77227930 / 54608393 - sqrt 2\<bar> < 1 / 10 ^ 13"
proof (intro conjI)
  show "BiSection (Some (setParams (Some (\<lambda>x. x ^ 2 - 2)) None default_err)) 1 2 =
      Some (Inr (49758216191607 / 35184372088832))"
    by (simp add: BiSection_def setParams_def default_err_def bisect_loop.simps Let_def power_divide)
  show "NewtonRaphson (Some (setParams (Some (\<lambda>x. x ^ 2 - 2)) (Some (\<lambda>x. 2 * x)) default_err)) 1 =
      Some (Inr (1572584048032918633353217 / 1111984844349868137938112))"
    by (simp add: NewtonRaphson_def setParams_def default_err_def newton_loop.simps Let_def power_divide)
  show "Secant (Some (setParams (Some (\<lambda>x. x ^ 2 - 2)) None default_err)) 1 2 =
      Some (Inr (77227930 / 54608393))"
    by (simp add: Secant_def setParams_def default_err_def secant_loop.simps Let_def power_divide)
  show "\<bar>49758216191607 / 35184372088832 - sqrt 2\<bar> < 1 / 10 ^ 13"
    by (rule le_less_trans[OF abs_sub_sqrt2]) (simp_all add: power_divide)
  show "\<bar>1572584048032918633353217 / 1111984844349868137938112 - sqrt 2\<bar> < 1 / 10 ^ 13"
    by (rule le_less_trans[OF abs_sub_sqrt2]) (simp_all add: power_divide)
  show "\<bar>77227930 / 54608393 - sqrt 2\<bar> < 1 / 10 ^ 13"
    by (rule le_less_trans[OF abs_sub_sqrt2]) (simp_all add: power_divide)
qed

subsection \<open>Error paths\<close>

text \<open>The explicit errors of missing configuration: every method on an
  instance whose \<open>setParams\<close> was never called raises \<open>AttributeError\<close> (there is
  no \<open>self.func\<close> to compare with \<open>None\<close>); every method with \<open>func = None\<close> raises
  the "Function (func) should be declared" exception; \<open>NewtonRaphson\<close> with
  \<open>der = None\<close> raises the "Derivative function (der)" exception.\<close>

theorem rootfind_missing_callbacks:
  "BiSection None x0 x1 = Some (Inl AttributeError) \<and> NewtonRaphson None x0 = Some (Inl AttributeError) \<and>
   Secant None x0 x1 = Some (Inl AttributeError) \<and> Iteration None x0 = Some (Inl AttributeError) \<and>
   BiSection (Some (setParams None d e)) x0 x1 = Some (Inl (Exception msg_func)) \<and>
   NewtonRaphson (Some (setParams None d e)) x0 = Some (Inl (Exception msg_func)) \<and>
   Secant (Some (setParams None d e)) x0 x1 = Some (Inl (Exception msg_func)) \<and>
   Iteration (Some (setParams None d e)) x0 = Some (Inl (Exception msg_func)) \<and>
   NewtonRaphson (Some (setParams (Some f) None e)) x0 = Some (Inl (Exception msg_der))"
  by (simp add: BiSection_def NewtonRaphson_def Secant_def Iteration_def setParams_def)

text \<open>C21: the loops start from \<open>err = 100\<close>; with a configured tolerance of 100 or
  more their body never runs and \<open>return\<close> reads an unassigned local:
  \<open>NewtonRaphson\<close>, \<open>Secant\<close> and \<open>Iteration\<close> raise \<open>UnboundLocalError\<close>.\<close>

theorem rootfind_large_tolerance_unbound:
  assumes "100 \<le> e"
  shows "NewtonRaphson (Some (setParams (Some f) (Some df) e)) x0 = Some (Inl UnboundLocalError) \<and>
         Secant (Some (setParams (Some f) d e)) x0 x1 = Some (Inl UnboundLocalError) \<and>
         Iteration (Some (setParams (Some f) d e)) x0 = Some (Inl UnboundLocalError)"
  using assms by (simp add: NewtonRaphson_def Secant_def Iteration_def setParams_def)

theorem rootfind_large_tolerance_unbound_witness:
  "NewtonRaphson (Some (setParams (Some (\<lambda>x. x)) (Some (\<lambda>x. 1)) 100)) 0 = Some (Inl UnboundLocalError) \<and>
   Secant (Some (setParams (Some (\<lambda>x. x)) None 100)) 0 1 = Some (Inl UnboundLocalError) \<and>
   Iteration (Some (setParams (Some (\<lambda>x. x)) None 100)) 0 = Some (Inl UnboundLocalError)"
  by (rule rootfind_large_tolerance_unbound) simp

subsection \<open>Fixed-point iteration and secant\<close>

text \<open>C22: for a contraction \<open>f\<close> (constant \<open>q < 1\<close>) and a tolerance in
  \<open>(0, 100)\<close>, \<open>Iteration\<close> terminates, and its result \<open>r\<close> nearly solves the
  fixed-point equation: \<open>|f(r) - r| \<le> q \<cdot> err\<close>.\<close>

theorem Iteration_contraction:
  assumes "func s = Some f" "0 < err s" "err s < 100" "contraction q f"
  shows "\<exists>r. Iteration (Some s) x0 = Some (Inr r) \<and> \<bar>f r - r\<bar> \<le> q * err s"
proof -
  have q: "0 \<le> q" "q < 1" using assms(4) by (simp_all add: contraction_def)
  obtain n where n: "q ^ n * \<bar>f x0 - x0\<bar> \<le> err s"
  proof (cases "\<bar>f x0 - x0\<bar> = 0")
    case True
    then show ?thesis using that[of 0] assms(2) by simp
  next
    case False
    then have pos: "0 < err s / \<bar>f x0 - x0\<bar>" using assms(2) by simp
    obtain n where "q ^ n < err s / \<bar>f x0 - x0\<bar>"
      using real_arch_pow_inv[OF pos q(2)] by blast
    then have "q ^ n * \<bar>f x0 - x0\<bar> \<le> err s" using False by (simp add: field_simps)
    then show ?thesis by (rule that)
  qed
  from fixpoint_loop_steps[OF assms(4) n] assms(1,3) show ?thesis
    by (simp add: Iteration_def)
qed

theorem Iteration_contraction_witness:
  "\<exists>r. Iteration (Some (setParams (Some (\<lambda>x. x / 2 + 1)) None (1/10))) 0 = Some (Inr r) \<and>
     \<bar>(r / 2 + 1) - r\<bar> \<le> 1/2 * (1/10)"
proof -
  have c: "contraction (1/2) (\<lambda>x. x / 2 + 1)"
    by (simp add: contraction_def abs_if field_simps)
  show ?thesis
    using Iteration_contraction[OF _ _ _ c, of "setParams (Some (\<lambda>x. x / 2 + 1)) None (1/10)" 0]
    by (simp add: setParams_def)
qed

text \<open>When \<open>Secant\<close> returns a value, the callback's residual there is at
  most the tolerance.\<close>

theorem Secant_residual:
  assumes "func s = Some f" "Secant (Some s) x0 x1 = Some (Inr r)"
  shows "\<bar>f r\<bar> \<le> err s"
  using assms secant_loop_residual by (auto simp: Secant_def split: if_splits)

theorem Secant_residual_witness: "\<bar>(3::real) - 3\<bar> \<le> 1/10"
proof -
  have run: "Secant (Some (setParams (Some (\<lambda>x. x - 3)) None (1/10))) 0 1 = Some (Inr 3)"
    by (simp add: Secant_def setParams_def secant_loop.simps Let_def)
  show ?thesis using Secant_residual[OF _ run, of "\<lambda>x. x - 3"] by (simp add: setParams_def)
qed


text \<open>C18: the two bracketing-free exits agree with the tolerance: a value returned
  by \<open>BiSection\<close> has residual below \<open>err\<close> and lies between the guesses, and a
  value returned by \<open>Secant\<close> has residual at most \<open>err\<close>.\<close>

theorem root_finders_residual:
  assumes "func s = Some f"
  shows "(BiSection (Some s) x0 x1 = Some (Inr r) \<longrightarrow> \<bar>f r\<bar> < err s \<and> min x0 x1 \<le> r \<and> r \<le> max x0 x1) \<and>
         (Secant (Some s) x0 x1 = Some (Inr r) \<longrightarrow> \<bar>f r\<bar> \<le> err s)"
  using BiSection_residual[OF assms] Secant_residual[OF assms] by blast

theorem root_finders_residual_witness:
  "BiSection (Some (setParams (Some (\<lambda>x. x - 1/2)) None 1)) 0 1 = Some (Inr (1/2)) \<and>
   Secant (Some (setParams (Some (\<lambda>x. x - 3)) None (1/10))) 0 1 = Some (Inr 3) \<and>
   \<bar>(1/2 :: real) - 1/2\<bar> < 1 \<and> \<bar>(3::real) - 3\<bar> \<le> 1/10"
proof -
  have b: "BiSection (Some (setParams (Some (\<lambda>x. x - 1/2)) None 1)) 0 1 = Some (Inr (1/2))"
    by (simp add: BiSection_def setParams_def bisect_loop.simps Let_def)
  have s: "Secant (Some (setParams (Some (\<lambda>x. x - 3)) None (1/10))) 0 1 = Some (Inr 3)"
    by (simp add: Secant_def setParams_def secant_loop.simps Let_def)
  show ?thesis
    using root_finders_residual[of "setParams (Some (\<lambda>x. x - 1/2)) None 1" "\<lambda>x. x - 1/2" 0 1 "1/2"]
      root_finders_residual[of "setParams (Some (\<lambda>x. x - 3)) None (1/10)" "\<lambda>x. x - 3" 0 1 3] b s
    by (simp add: setParams_def)
qed

end
