(* ===== verification/Systems.thy ===== *)
theory Systems
  imports ODE
begin

text \<open>
  The steppers for systems of ODEs, \<open>SystemEuler\<close> and \<open>SystemRK4\<close> of
  \<open>src/ODE.py\<close>. The state \<open>yi\<close> is a list of reals, the callbacks \<open>dydx\<close> a list
  of functions of the shared argument vector \<open>args = [x, y1, y2, ...]\<close>. The
  model writes the code's in-place updates out index by index: the per-component
  loops are folds over \<open>[0..<len(dydx)]\<close> that update \<open>yi\<close> and \<open>args\<close> with
  \<open>xs[i := v]\<close>, and the rows of the scratch table \<open>k_arr\<close> are the lists of the
  values written into them, in index order. Because \<open>yi\<close> is updated in place,
  the caller's list is changed by the call; the loop therefore returns, beside
  \<open>x_arr\<close> and \<open>y_arr\<close>, the final content of \<open>yi\<close>. Building \<open>args\<close> reads
  \<open>yi[g]\<close> for every callback index \<open>g\<close>: fewer state components than callbacks is
  an \<open>IndexError\<close>. The reference semantics of the spec (every callback of a
  stage reads the complete argument vector of that stage) is \<open>euler_vec\<close> and
  \<open>rk4_vec\<close>.
\<close>

section \<open>The loop of the system steppers\<close>

type_synonym sys_step = "real \<Rightarrow> real list \<Rightarrow> real \<Rightarrow> real list result"

text \<open>The \<open>while (xi + h <= xf)\<close> loop of \<open>SystemEuler\<close> and \<open>SystemRK4\<close>
  (\<open>src/ODE.py\<close> lines 137-149 and 433-458): a step may raise, and the result
  carries the final content of the caller's \<open>yi\<close>.\<close>

partial_function (option) sys_loop ::
  "sys_step \<Rightarrow> real \<Rightarrow> real \<Rightarrow> real \<Rightarrow> real list \<Rightarrow> real list \<Rightarrow> real list list
   \<Rightarrow> ((real list \<times> real list list) \<times> real list) result option" where
  "sys_loop step xf h xi yi x_arr y_arr =
     (if xi + h \<le> xf then
        (let h' = (if xi + h > xf then xf - xi else h)
         in case step xi yi h' of
              Inl e \<Rightarrow> Some (Inl e)
            | Inr y_next \<Rightarrow>
                (let xi' = xi + h'
                 in sys_loop step xf h' xi' y_next (x_arr @ [xi']) (y_arr @ [y_next])))
      else Some (Inr ((x_arr, y_arr), yi)))"

text \<open>\<open>args.append(xi); for g in range(len(dydx)): args.append(yi[g])\<close>.\<close>

definition sys_args :: "real \<Rightarrow> real list \<Rightarrow> nat \<Rightarrow> real list result" where
  "sys_args xi yi n = (if n \<le> length yi then Inr (xi # take n yi) else Inl IndexError)"

section \<open>SystemEuler\<close>

text \<open>\<open>for j in range(len(dydx)): yi[j] = yi[j] + dydx[j](args) * h\<close>: \<open>args\<close> was
  built before the loop, so every callback reads the old state.\<close>

definition sys_euler_step :: "sys_rhs list \<Rightarrow> sys_step" where
  "sys_euler_step dydx xi yi h =
     (case sys_args xi yi (length dydx) of
        Inl e \<Rightarrow> Inl e
      | Inr args \<Rightarrow> Inr (fold (\<lambda>j yi. yi[j := yi ! j + (dydx ! j) args * h]) [0..<length dydx] yi))"

definition SystemEuler ::
  "real \<Rightarrow> real \<Rightarrow> real list \<Rightarrow> real \<Rightarrow> sys_rhs list
   \<Rightarrow> ((real list \<times> real list list) \<times> real list) result option" where
  "SystemEuler xi xf yi h dydx = sys_loop (sys_euler_step dydx) xf h xi yi [xi] [yi]"

section \<open>SystemRK4\<close>

text \<open>Stages 2 and 3: \<open>args[0] = xi + 1/2 * h\<close>, then for each \<open>i\<close> in turn
  \<open>args[i+1] = yi[i] + 1/2 * kp[i] * h\<close> and \<open>k[i] = dydx[i](args)\<close>. The update is
  in place: callback \<open>i\<close> reads the new values of components \<open>0..i\<close> and the
  previous stage's values of the components after \<open>i\<close>.\<close>

definition rk4_mid_stage ::
  "sys_rhs list \<Rightarrow> real list \<Rightarrow> real list \<Rightarrow> real \<Rightarrow> real \<Rightarrow> real list \<Rightarrow> real list \<times> real list" where
  "rk4_mid_stage dydx yi kp h x args =
     fold (\<lambda>i (args, k). let args' = args[Suc i := yi ! i + 1/2 * kp ! i * h]
                         in (args', k @ [(dydx ! i) args']))
       [0..<length dydx] (args[0 := x], [])"

text \<open>Stage 4 with the update of the state: \<open>args[i+1] = yi[i] + k3[i] * h\<close>,
  \<open>k4[i] = dydx[i](args)\<close>, \<open>yi[i] = yi[i] + 1/6 * (k1[i] + 2 k2[i] + 2 k3[i] + k4[i]) * h\<close>.\<close>

definition rk4_last_stage ::
  "sys_rhs list \<Rightarrow> real list \<Rightarrow> real list \<Rightarrow> real list \<Rightarrow> real \<Rightarrow> real \<Rightarrow> real list \<Rightarrow> real list
   \<Rightarrow> real list \<times> real list \<times> real list" where
  "rk4_last_stage dydx k1 k2 k3 h x args yi =
     fold (\<lambda>i (args, yi, k). let args' = args[Suc i := yi ! i + k3 ! i * h];
                                k4i = (dydx ! i) args'
                            in (args', yi[i := yi ! i + 1/6 * (k1 ! i + 2 * k2 ! i + 2 * k3 ! i + k4i) * h],
                                k @ [k4i]))
       [0..<length dydx] (args[0 := x], yi, [])"

definition sys_rk4_step :: "sys_rhs list \<Rightarrow> sys_step" where
  "sys_rk4_step dydx xi yi h =
     (case sys_args xi yi (length dydx) of
        Inl e \<Rightarrow> Inl e
      | Inr args \<Rightarrow>
          (let k1 = map (\<lambda>f. f args) dydx;
               (args2, k2) = rk4_mid_stage dydx yi k1 h (xi + 1/2 * h) args;
               (args3, k3) = rk4_mid_stage dydx yi k2 h (xi + 1/2 * h) args2;
               (_, yi', _) = rk4_last_stage dydx k1 k2 k3 h (xi + h) args3 yi
           in Inr yi'))"

definition SystemRK4 ::
  "real \<Rightarrow> real \<Rightarrow> real list \<Rightarrow> real \<Rightarrow> sys_rhs list
   \<Rightarrow> ((real list \<times> real list list) \<times> real list) result option" where
  "SystemRK4 xi xf yi h dydx = sys_loop (sys_rk4_step dydx) xf h xi yi [xi] [yi]"

section \<open>Reference semantics\<close>

text \<open>The spec's stepping of a system: every callback of a stage reads the
  complete argument vector \<open>[x, y1 + c k1 h, y2 + c k2 h, ...]\<close> of that stage.\<close>

definition sys_eval :: "sys_rhs list \<Rightarrow> real list \<Rightarrow> real list" where
  "sys_eval dydx args = map (\<lambda>f. f args) dydx"

definition vec_step :: "real list \<Rightarrow> real \<Rightarrow> real list \<Rightarrow> real \<Rightarrow> real list" where
  "vec_step ys c k h = map (\<lambda>i. ys ! i + c * k ! i * h) [0..<length ys]"

definition euler_vec :: "sys_rhs list \<Rightarrow> real \<Rightarrow> real list \<Rightarrow> real \<Rightarrow> real list" where
  "euler_vec dydx x ys h = vec_step ys 1 (sys_eval dydx (x # ys)) h"

definition rk4_vec :: "sys_rhs list \<Rightarrow> real \<Rightarrow> real list \<Rightarrow> real \<Rightarrow> real list" where
  "rk4_vec dydx x ys h =
     (let k1 = sys_eval dydx (x # ys);
          k2 = sys_eval dydx ((x + 1/2 * h) # vec_step ys (1/2) k1 h);
          k3 = sys_eval dydx ((x + 1/2 * h) # vec_step ys (1/2) k2 h);
          k4 = sys_eval dydx ((x + h) # vec_step ys 1 k3 h)
      in map (\<lambda>i. ys ! i + 1/6 * (k1 ! i + 2 * k2 ! i + 2 * k3 ! i + k4 ! i) * h) [0..<length ys])"

section \<open>Loop and stage lemmas\<close>

lemma sys_loop_unfold_step:
  "xi + h \<le> xf \<Longrightarrow>
   sys_loop step xf h xi yi xs ys =
   (case step xi yi h of Inl e \<Rightarrow> Some (Inl e)
    | Inr y' \<Rightarrow> sys_loop step xf h (xi + h) y' (xs @ [xi + h]) (ys @ [y']))"
  by (subst sys_loop.simps) (simp add: Let_def not_less split: sum.split)

lemma sys_loop_unfold_stop: "xf < xi + h \<Longrightarrow> sys_loop step xf h xi yi xs ys = Some (Inr ((xs, ys), yi))"
  by (subst sys_loop.simps) simp

lemma sys_loop_iter:
  assumes "0 < h"
    and ok: "\<And>x y h. length y = n \<Longrightarrow> step x y h = Inr (step' x y h)"
    and len: "\<And>x y h. length y = n \<Longrightarrow> length (step' x y h) = n"
    and "length yi = n"
  shows "sys_loop step xf h xi yi xs ys =
    Some (Inr ((xs @ fst (ode_iter step' (ode_steps xi xf h) h xi yi),
                ys @ snd (ode_iter step' (ode_steps xi xf h) h xi yi)),
               last (yi # snd (ode_iter step' (ode_steps xi xf h) h xi yi))))"
  using assms(1,4)
proof (induction "ode_steps xi xf h" arbitrary: xi yi xs ys)
  case 0
  from ode_steps_0[OF \<open>0 < h\<close> "0.hyps"[symmetric]] "0.hyps"[symmetric]
  show ?case by (simp add: sys_loop_unfold_stop)
next
  case (Suc m)
  from ode_steps_Suc[OF Suc.prems(1) Suc.hyps(2)[symmetric]]
  have le: "xi + h \<le> xf" and m: "ode_steps (xi + h) xf h = m" by auto
  have l': "length (step' xi yi h) = n" using len Suc.prems(2) .
  show ?case
    using Suc.hyps(1)[OF m[symmetric] Suc.prems(1) l'] Suc.hyps(2)[symmetric] m
    by (simp add: sys_loop_unfold_step[OF le] ok[OF Suc.prems(2)] Let_def split_beta)
qed

lemma sys_loop_index_error:
  "xi + h \<le> xf \<Longrightarrow> step xi yi h = Inl e \<Longrightarrow> sys_loop step xf h xi yi xs ys = Some (Inl e)"
  by (simp add: sys_loop_unfold_step)

lemma ode_iter_map:
  assumes "\<And>x y h. step' x (F y) h = F (step x y h)"
  shows "ode_iter step' n h xi (F y) = (fst (ode_iter step n h xi y), map F (snd (ode_iter step n h xi y)))"
  by (induction n arbitrary: xi y) (simp_all add: assms Let_def split_beta)

lemma fold_add_upd:
  "n \<le> length zs \<Longrightarrow>
   fold (\<lambda>j zs. zs[j := zs ! j + g j]) [0..<n] zs = map (\<lambda>j. if j < n then zs ! j + g j else zs ! j) [0..<length zs]"
  by (induction n) (auto intro!: nth_equalityI simp: nth_list_update)

lemma sys_args_ok: "n \<le> length yi \<Longrightarrow> sys_args xi yi n = Inr (xi # take n yi)"
  by (simp add: sys_args_def)

lemma sys_args_short: "length yi < n \<Longrightarrow> sys_args xi yi n = Inl IndexError"
  by (simp add: sys_args_def)

lemma vec_step_length [simp]: "length (vec_step ys c k h) = length ys"
  by (simp add: vec_step_def)

lemma rk4_vec_length [simp]: "length (rk4_vec dydx x ys h) = length ys"
  by (simp add: rk4_vec_def Let_def)

lemma euler_vec_length [simp]: "length (euler_vec dydx x ys h) = length ys"
  by (simp add: euler_vec_def)

lemma euler_vec_length_eq: "length y = n \<Longrightarrow> length (euler_vec dydx x y h) = n"
  by simp

lemma rk4_vec_length_eq: "length y = n \<Longrightarrow> length (rk4_vec dydx x y h) = n"
  by simp

lemma sys_euler_step_vec:
  "length yi = length dydx \<Longrightarrow> sys_euler_step dydx xi yi h = Inr (euler_vec dydx xi yi h)"
  by (auto intro!: nth_equalityI simp: sys_euler_step_def sys_args_ok fold_add_upd euler_vec_def
      vec_step_def sys_eval_def)

lemma upd_after_prefix:
  "m < length old \<Longrightarrow> (map v [0..<m] @ drop m old)[m := w] = map v [0..<m] @ w # drop (Suc m) old"
  by (simp add: list_update_append Cons_nth_drop_Suc[symmetric])

lemma fold_update_eval:
  "m \<le> length old \<Longrightarrow>
   fold (\<lambda>i (args, k). let args' = args[Suc i := v i] in (args', k @ [g i args'])) [0..<m] (a # old, k0) =
   (a # map v [0..<m] @ drop m old, k0 @ map (\<lambda>i. g i (a # map v [0..<Suc i] @ drop (Suc i) old)) [0..<m])"
  by (induction m) (simp_all add: upd_after_prefix Let_def)

lemma fold_update_eval_upd:
  "m \<le> length old \<Longrightarrow> m \<le> length yi \<Longrightarrow>
   fold (\<lambda>i (args, yi, k). let args' = args[Suc i := yi ! i + c i]; ki = g i args'
                          in (args', yi[i := yi ! i + d i ki], k @ [ki])) [0..<m] (a # old, yi, k0) =
   (a # map (\<lambda>i. yi ! i + c i) [0..<m] @ drop m old,
    map (\<lambda>j. if j < m then yi ! j + d j (g j (a # map (\<lambda>i. yi ! i + c i) [0..<Suc j] @ drop (Suc j) old))
             else yi ! j) [0..<length yi],
    k0 @ map (\<lambda>i. g i (a # map (\<lambda>i. yi ! i + c i) [0..<Suc i] @ drop (Suc i) old)) [0..<m])"
proof (induction m)
  case 0
  then show ?case by (simp add: map_nth)
next
  case (Suc m)
  then have m: "m < length old" "m < length yi" by auto
  define v where "v = (\<lambda>i. yi ! i + c i)"
  define w where "w = (\<lambda>i. g i (a # map v [0..<Suc i] @ drop (Suc i) old))"
  define ym where "ym = map (\<lambda>j. if j < m then yi ! j + d j (w j) else yi ! j) [0..<length yi]"
  define F where "F = (\<lambda>i (args, yi, k). let args' = args[Suc i := yi ! i + c i]; ki = g i args'
                          in (args', yi[i := yi ! i + d i ki], k @ [ki]))"
  have IH: "fold F [0..<m] (a # old, yi, k0) = (a # map v [0..<m] @ drop m old, ym, k0 @ map w [0..<m])"
    using Suc.IH m unfolding F_def v_def w_def ym_def by simp
  have ym_m: "ym ! m = yi ! m" using m(2) by (simp add: ym_def)
  have args: "(a # map v [0..<m] @ drop m old)[Suc m := ym ! m + c m] = a # map v [0..<Suc m] @ drop (Suc m) old"
    using m(1) by (simp add: ym_m v_def upd_after_prefix)
  have ys: "ym[m := ym ! m + d m (w m)] =
      map (\<lambda>j. if j < Suc m then yi ! j + d j (w j) else yi ! j) [0..<length yi]"
    using m(2) by (auto intro!: nth_equalityI simp: ym_def nth_list_update)
  have gm: "g m (a # map v [0..<Suc m] @ drop (Suc m) old) = w m" by (simp add: w_def)
  have "fold F [0..<Suc m] (a # old, yi, k0) = F m (a # map v [0..<m] @ drop m old, ym, k0 @ map w [0..<m])"
    by (simp add: IH)
  also have "\<dots> = (a # map v [0..<Suc m] @ drop (Suc m) old,
      map (\<lambda>j. if j < Suc m then yi ! j + d j (w j) else yi ! j) [0..<length yi], k0 @ map w [0..<Suc m])"
    unfolding F_def Let_def prod.case args gm ys by simp
  finally show ?case unfolding F_def v_def w_def .
qed

lemma rk4_mid_stage_eval:
  "length old = length dydx \<Longrightarrow>
   rk4_mid_stage dydx yi kp h x (a # old) =
   (x # map (\<lambda>i. yi ! i + 1/2 * kp ! i * h) [0..<length dydx],
    map (\<lambda>i. (dydx ! i) (x # map (\<lambda>i. yi ! i + 1/2 * kp ! i * h) [0..<Suc i] @ drop (Suc i) old))
      [0..<length dydx])"
  using fold_update_eval[of "length dydx" old "\<lambda>i. yi ! i + 1/2 * kp ! i * h" "\<lambda>i. dydx ! i" x "[]"]
  by (simp add: rk4_mid_stage_def del: upt_Suc)

lemma rk4_last_stage_eval:
  "length old = length dydx \<Longrightarrow> length yi = length dydx \<Longrightarrow>
   snd (rk4_last_stage dydx k1 k2 k3 h x (a # old) yi) =
   (map (\<lambda>j. yi ! j + 1/6 * (k1 ! j + 2 * k2 ! j + 2 * k3 ! j +
        (dydx ! j) (x # map (\<lambda>i. yi ! i + k3 ! i * h) [0..<Suc j] @ drop (Suc j) old)) * h) [0..<length yi],
    map (\<lambda>i. (dydx ! i) (x # map (\<lambda>i. yi ! i + k3 ! i * h) [0..<Suc i] @ drop (Suc i) old)) [0..<length dydx])"
  using fold_update_eval_upd[of "length dydx" old yi "\<lambda>i. k3 ! i * h" "\<lambda>i. dydx ! i"
      "\<lambda>i ki. 1/6 * (k1 ! i + 2 * k2 ! i + 2 * k3 ! i + ki) * h" x "[]"]
  by (simp add: rk4_last_stage_def del: upt_Suc)

lemma take_prefix_args:
  "i < n \<Longrightarrow> take (Suc (Suc i)) (x # map v [0..<Suc i] @ rest) = take (Suc (Suc i)) (x # map v [0..<n])"
  by (simp add: take_map min_def del: upt_Suc)

lemma triangular_stage:
  assumes tri: "\<And>i a. i < length dydx \<Longrightarrow> (dydx ! i) a = (dydx ! i) (take (Suc (Suc i)) a)"
  shows "map (\<lambda>i. (dydx ! i) (x # map v [0..<Suc i] @ drop (Suc i) old)) [0..<length dydx] =
         sys_eval dydx (x # map v [0..<length dydx])"
proof (rule nth_equalityI)
  fix i assume "i < length (map (\<lambda>i. (dydx ! i) (x # map v [0..<Suc i] @ drop (Suc i) old)) [0..<length dydx])"
  then have i: "i < length dydx" by simp
  have "(dydx ! i) (x # map v [0..<Suc i] @ drop (Suc i) old) =
        (dydx ! i) (take (Suc (Suc i)) (x # map v [0..<Suc i] @ drop (Suc i) old))"
    using tri[OF i] .
  also have "\<dots> = (dydx ! i) (take (Suc (Suc i)) (x # map v [0..<length dydx]))"
    by (subst take_prefix_args[OF i]) (rule refl)
  also have "\<dots> = (dydx ! i) (x # map v [0..<length dydx])" by (rule tri[OF i, symmetric])
  finally show "map (\<lambda>i. (dydx ! i) (x # map v [0..<Suc i] @ drop (Suc i) old)) [0..<length dydx] ! i =
      sys_eval dydx (x # map v [0..<length dydx]) ! i"
    using i by (simp add: sys_eval_def del: upt_Suc)
qed (simp add: sys_eval_def)

lemma sys_rk4_step_triangular:
  assumes tri: "\<And>i a. i < length dydx \<Longrightarrow> (dydx ! i) a = (dydx ! i) (take (Suc (Suc i)) a)"
    and len: "length yi = length dydx"
  shows "sys_rk4_step dydx xi yi h = Inr (rk4_vec dydx xi yi h)"
proof -
  define n where "n = length dydx"
  define k1 where "k1 = sys_eval dydx (xi # yi)"
  define v2 where "v2 = (\<lambda>i. yi ! i + 1/2 * k1 ! i * h)"
  define k2 where "k2 = sys_eval dydx ((xi + 1/2 * h) # map v2 [0..<n])"
  define v3 where "v3 = (\<lambda>i. yi ! i + 1/2 * k2 ! i * h)"
  define k3 where "k3 = sys_eval dydx ((xi + 1/2 * h) # map v3 [0..<n])"
  define v4 where "v4 = (\<lambda>i. yi ! i + k3 ! i * h)"
  define k4 where "k4 = sys_eval dydx ((xi + h) # map v4 [0..<n])"
  have s1: "map (\<lambda>f. f (xi # yi)) dydx = k1" by (simp add: k1_def sys_eval_def)
  have s2: "rk4_mid_stage dydx yi k1 h (xi + 1/2 * h) (xi # yi) = ((xi + 1/2 * h) # map v2 [0..<n], k2)"
    using len by (simp add: rk4_mid_stage_eval triangular_stage[OF tri] k2_def v2_def n_def del: upt_Suc)
  have s3: "rk4_mid_stage dydx yi k2 h (xi + 1/2 * h) ((xi + 1/2 * h) # map v2 [0..<n]) =
      ((xi + 1/2 * h) # map v3 [0..<n], k3)"
    by (simp add: rk4_mid_stage_eval triangular_stage[OF tri] k3_def v3_def n_def del: upt_Suc)
  have s4: "snd (rk4_last_stage dydx k1 k2 k3 h (xi + h) ((xi + 1/2 * h) # map v3 [0..<n]) yi) =
      (map (\<lambda>j. yi ! j + 1/6 * (k1 ! j + 2 * k2 ! j + 2 * k3 ! j + k4 ! j) * h) [0..<length yi], k4)"
  proof -
    have "map (\<lambda>i. (dydx ! i) ((xi + h) # map v4 [0..<Suc i] @ drop (Suc i) (map v3 [0..<n]))) [0..<n] = k4"
      unfolding k4_def n_def by (rule triangular_stage[OF tri])
    then show ?thesis
      using len by (simp add: rk4_last_stage_eval v4_def n_def del: upt_Suc) (auto intro!: nth_equalityI)
  qed
  then obtain a4 where s4': "rk4_last_stage dydx k1 k2 k3 h (xi + h) ((xi + 1/2 * h) # map v3 [0..<n]) yi =
      (a4, map (\<lambda>j. yi ! j + 1/6 * (k1 ! j + 2 * k2 ! j + 2 * k3 ! j + k4 ! j) * h) [0..<length yi], k4)"
    by (metis prod.collapse)
  have vs: "vec_step yi (1/2) k1 h = map v2 [0..<n]" "vec_step yi (1/2) k2 h = map v3 [0..<n]"
    "vec_step yi 1 k3 h = map v4 [0..<n]"
    using len by (simp_all add: vec_step_def v2_def v3_def v4_def n_def)
  have rv: "rk4_vec dydx xi yi h =
      map (\<lambda>j. yi ! j + 1/6 * (k1 ! j + 2 * k2 ! j + 2 * k3 ! j + k4 ! j) * h) [0..<length yi]"
    unfolding rk4_vec_def Let_def
    by (simp only: vs k1_def[symmetric] k2_def[symmetric] k3_def[symmetric] k4_def[symmetric])
  have sa: "sys_args xi yi (length dydx) = Inr (xi # yi)" using len by (simp add: sys_args_ok)
  show ?thesis
    unfolding sys_rk4_step_def
    by (simp only: sa sum.case Let_def s1 s2 s3 s4' prod.case rv)
qed

section \<open>Properties of the system steppers\<close>

text \<open>C23: when the state has one component per callback and the step is
  positive, \<open>SystemEuler\<close> returns the reference trajectory of the spec's vector
  Euler step (every callback reads the old state), and the caller's list \<open>yi\<close>
  is left holding the last state of the trajectory.\<close>

theorem SystemEuler_refines:
  assumes "length yi = length dydx" "0 < h"
  shows "SystemEuler xi xf yi h dydx =
    Some (Inr (trajectory (euler_vec dydx) xi xf yi h, last (snd (trajectory (euler_vec dydx) xi xf yi h))))"
  using sys_loop_iter[where n = "length dydx" and step = "sys_euler_step dydx" and step' = "euler_vec dydx",
      OF assms(2) sys_euler_step_vec euler_vec_length_eq assms(1)]
  by (simp add: assms(1) SystemEuler_def trajectory_def split_beta)

theorem SystemEuler_refines_witness:
  "SystemEuler 0 1 [1, 2] (1/2) [\<lambda>a. a ! 2, \<lambda>a. a ! 1] =
   Some (Inr (trajectory (euler_vec [\<lambda>a. a ! 2, \<lambda>a. a ! 1]) 0 1 [1, 2] (1/2),
              last (snd (trajectory (euler_vec [\<lambda>a. a ! 2, \<lambda>a. a ! 1]) 0 1 [1, 2] (1/2)))))"
  by (rule SystemEuler_refines) simp_all

text \<open>C24: for a triangular system, where callback \<open>i\<close> reads only \<open>x\<close> and the
  components \<open>y1 .. y(i+1)\<close>, the in-place stages of \<open>SystemRK4\<close> compute the
  spec's RK4 step, so \<open>SystemRK4\<close> returns the reference trajectory of \<open>rk4_vec\<close>
  and leaves the caller's list holding its last state.\<close>

theorem SystemRK4_triangular_refines:
  assumes "\<And>i a. i < length dydx \<Longrightarrow> (dydx ! i) a = (dydx ! i) (take (Suc (Suc i)) a)"
    and "length yi = length dydx" "0 < h"
  shows "SystemRK4 xi xf yi h dydx =
    Some (Inr (trajectory (rk4_vec dydx) xi xf yi h, last (snd (trajectory (rk4_vec dydx) xi xf yi h))))"
  using sys_loop_iter[where n = "length dydx" and step = "sys_rk4_step dydx" and step' = "rk4_vec dydx",
      OF assms(3) sys_rk4_step_triangular[OF assms(1)] rk4_vec_length_eq assms(2)]
  by (simp add: assms(2) SystemRK4_def trajectory_def split_beta)

theorem SystemRK4_triangular_refines_witness:
  "SystemRK4 0 1 [0, 0] (1/2) [\<lambda>a. a ! 0, \<lambda>a. a ! 1] =
   Some (Inr (trajectory (rk4_vec [\<lambda>a. a ! 0, \<lambda>a. a ! 1]) 0 1 [0, 0] (1/2),
              last (snd (trajectory (rk4_vec [\<lambda>a. a ! 0, \<lambda>a. a ! 1]) 0 1 [0, 0] (1/2)))))"
proof (rule SystemRK4_triangular_refines[where dydx = "[\<lambda>a. a ! 0, \<lambda>a. a ! 1]" and yi = "[0, 0]"])
  fix i and a :: "real list"
  assume "i < length [\<lambda>a. a ! 0, \<lambda>a. a ! 1 :: real]"
  then have "i = 0 \<or> i = 1" by auto
  then show "([\<lambda>a. a ! 0, \<lambda>a. a ! 1] ! i) a = ([\<lambda>a. a ! 0, \<lambda>a. a ! 1] ! i) (take (Suc (Suc i)) a)"
  proof
    assume "i = 0"
    then show ?thesis by (cases a) simp_all
  next
    assume i: "i = 1"
    show ?thesis
    proof (cases "length a \<le> 3")
      case True
      then show ?thesis using i by (simp add: numeral_eq_Suc)
    next
      case False
      then show ?thesis using i by (simp add: nth_take numeral_eq_Suc)
    qed
  qed
qed simp_all

text \<open>C25: on a single equation, where the argument vector is \<open>[x, y]\<close>,
  \<open>SystemRK4\<close> computes exactly the scalar \<open>RK4\<close> of theory ODE, its rows being the
  one-element lists of the scalar trajectory.\<close>

theorem SystemRK4_single_equation:
  assumes "0 < h"
  shows "SystemRK4 xi xf [yi] h [\<lambda>a. g (a ! 0) (a ! 1)] =
    map_option (\<lambda>(xs, ys). Inr ((xs, map (\<lambda>y. [y]) ys), [last ys])) (RK4 xi xf yi h g)"
proof -
  define step' where "step' = (\<lambda>x (y :: real list) h. [rk4_step g x (hd y) h])"
  have ok: "sys_rk4_step [\<lambda>a. g (a ! 0) (a ! 1)] x y h' = Inr (step' x y h')" if l: "length y = 1" for x y h'
  proof -
    obtain y0 where "y = [y0]" using l by (cases y) auto
    then show ?thesis
      by (simp add: step'_def sys_rk4_step_def sys_args_def rk4_mid_stage_def rk4_last_stage_def
          rk4_step_def Let_def)
  qed
  have len: "length (step' x y h') = 1" for x y h' by (simp add: step'_def)
  have lift: "step' x [y] h' = [rk4_step g x y h']" for x y h' by (simp add: step'_def)
  show ?thesis
    using sys_loop_iter[where n = 1 and step = "sys_rk4_step [\<lambda>a. g (a ! 0) (a ! 1)]" and step' = step',
        OF assms ok len, where yi = "[yi]" and xf = xf and xi = xi and xs = "[xi]" and ys = "[[yi]]"]
      ode_iter_map[of step' "\<lambda>y. [y]" "rk4_step g", OF lift]
      ode_loop_iter[OF assms, of "rk4_step g" xf xi yi "[xi]" "[yi]"]
    by (simp add: SystemRK4_def RK4_def last_map split_beta)
qed

theorem SystemRK4_single_equation_witness:
  "SystemRK4 0 1 [1] (1/2) [\<lambda>a. a ! 1] =
   map_option (\<lambda>(xs, ys). Inr ((xs, map (\<lambda>y. [y]) ys), [last ys])) (RK4 0 1 1 (1/2) (\<lambda>x y. y))"
  using SystemRK4_single_equation[of "1/2" 0 1 1 "\<lambda>x y. y"] by simp

text \<open>C26: the in-place update breaks the spec's requirement that every callback
  of a stage reads the complete argument vector of that stage. On
  \<open>y1' = y2, y2' = 1\<close> from \<open>y = (0, 0)\<close>, one step of \<open>SystemRK4\<close> yields
  \<open>y1 = h\<^sup>2/4\<close>, while the spec's RK4 step yields \<open>h\<^sup>2/2\<close>, the exact solution
  \<open>x\<^sup>2/2\<close>: the method loses its order on coupled systems.\<close>

theorem SystemRK4_in_place_divergence:
  assumes "0 < h"
  shows "SystemRK4 0 h [0, 0] h [\<lambda>a. a ! 2, \<lambda>a. 1] =
           Some (Inr (([0, h], [[0, 0], [h ^ 2 / 4, h]]), [h ^ 2 / 4, h])) \<and>
         rk4_vec [\<lambda>a. a ! 2, \<lambda>a. 1] 0 [0, 0] h = [h ^ 2 / 2, h]"
proof
  have st: "sys_rk4_step [\<lambda>a. a ! 2, \<lambda>a. 1] 0 [0, 0] h = Inr [h ^ 2 / 4, h]"
    by (simp add: sys_rk4_step_def sys_args_def rk4_mid_stage_def rk4_last_stage_def Let_def
        numeral_eq_Suc upt_rec power2_eq_square)
  have "h < h + h" using assms by simp
  then show "SystemRK4 0 h [0, 0] h [\<lambda>a. a ! 2, \<lambda>a. 1] =
      Some (Inr (([0, h], [[0, 0], [h ^ 2 / 4, h]]), [h ^ 2 / 4, h]))"
    by (simp add: SystemRK4_def sys_loop_unfold_step st sys_loop_unfold_stop)
  show "rk4_vec [\<lambda>a. a ! 2, \<lambda>a. 1] 0 [0, 0] h = [h ^ 2 / 2, h]"
    by (simp add: rk4_vec_def sys_eval_def vec_step_def upt_rec numeral_eq_Suc power2_eq_square)
qed

theorem SystemRK4_in_place_divergence_witness:
  "SystemRK4 0 1 [0, 0] 1 [\<lambda>a. a ! 2, \<lambda>a. 1] = Some (Inr (([0, 1], [[0, 0], [1 / 4, 1]]), [1 / 4, 1])) \<and>
   rk4_vec [\<lambda>a. a ! 2, \<lambda>a. 1] 0 [0, 0] 1 = [1 / 2, 1]"
  using SystemRK4_in_place_divergence[of 1] by simp

text \<open>With fewer state components than callbacks, building the argument
  vector reads past the end of \<open>yi\<close>: both system steppers raise \<open>IndexError\<close> on
  their first step.\<close>

theorem system_steppers_index_error:
  assumes "length yi < length dydx" "xi + h \<le> xf"
  shows "SystemEuler xi xf yi h dydx = Some (Inl IndexError) \<and>
         SystemRK4 xi xf yi h dydx = Some (Inl IndexError)"
  using assms by (simp add: SystemEuler_def SystemRK4_def sys_loop_unfold_step sys_euler_step_def
      sys_rk4_step_def sys_args_short)

theorem system_steppers_index_error_witness:
  "SystemEuler 0 1 [1] 1 [\<lambda>a. a ! 1, \<lambda>a. a ! 2] = Some (Inl IndexError) \<and>
   SystemRK4 0 1 [1] 1 [\<lambda>a. a ! 1, \<lambda>a. a ! 2] = Some (Inl IndexError)"
  by (rule system_steppers_index_error) simp_all


lemma ode_iter_rows:
  assumes "\<And>x y h. length y = n \<Longrightarrow> length (step x y h) = n" "length y = n"
  shows "list_all (\<lambda>row. length row = n) (snd (ode_iter step m h x y))"
  using assms(2)
proof (induction m arbitrary: x y)
  case 0
  then show ?case by simp
next
  case (Suc m)
  then show ?case using assms(1)[OF Suc.prems] Suc.IH[of "step x y h" "x + h"]
    by (simp add: Let_def split_beta assms(1))
qed

lemma sys_loop_shape:
  assumes h: "0 < h" and step: "\<And>x y h. length y = n \<Longrightarrow> \<exists>y'. step x y h = Inr y' \<and> length y' = n"
    and n: "length yi = n"
  shows "\<exists>xs ys yf. sys_loop step xf h xi yi [xi] [yi] = Some (Inr ((xs, ys), yf)) \<and>
           length ys = length xs \<and> list_all (\<lambda>row. length row = n) ys \<and> length yf = n"
proof -
  define step' where "step' x y h = (case step x y h of Inr v \<Rightarrow> v | Inl _ \<Rightarrow> y)" for x y h
  have ok: "step x y h = Inr (step' x y h)" and len: "length (step' x y h) = n" if "length y = n" for x y h
    using step[OF that, of x h] by (auto simp: step'_def)
  define it where "it = ode_iter step' (ode_steps xi xf h) h xi yi"
  have run: "sys_loop step xf h xi yi [xi] [yi] = Some (Inr ((xi # fst it, yi # snd it), last (yi # snd it)))"
    using sys_loop_iter[where n = n and step' = step', OF h ok len n] by (simp add: it_def)
  have rows: "list_all (\<lambda>row. length row = n) (yi # snd it)"
    using ode_iter_rows[of n step', OF len n] n by (simp add: it_def)
  have "length (yi # snd it) = length (xi # fst it)" by (simp add: it_def)
  moreover have "length (last (yi # snd it)) = n"
    using rows by (simp add: list_all_iff)
  ultimately show ?thesis using run rows by blast
qed


lemma fold_upd_length: "length (fold (\<lambda>j ys. ys[j := g j ys]) is y) = length y"
  by (induction "is" arbitrary: y) simp_all

lemma rk4_last_stage_length:
  "length (fst (snd (rk4_last_stage dydx k1 k2 k3 h x args yi))) = length yi"
proof -
  have "length (fst (snd (fold (\<lambda>i (args, yi, k). let args' = args[Suc i := yi ! i + k3 ! i * h];
                                k4i = (dydx ! i) args'
                            in (args', yi[i := yi ! i + 1/6 * (k1 ! i + 2 * k2 ! i + 2 * k3 ! i + k4i) * h],
                                k @ [k4i])) is (a, y, k)))) = length y" for "is" a y k
    by (induction "is" arbitrary: a y k) (simp_all add: Let_def)
  then show ?thesis by (simp add: rk4_last_stage_def)
qed

lemma sys_steps_shape:
  assumes "length dydx \<le> length y"
  shows "\<exists>y'. sys_euler_step dydx x y h = Inr y' \<and> length y' = length y"
    "\<exists>y'. sys_rk4_step dydx x y h = Inr y' \<and> length y' = length y"
  using assms by (simp_all add: sys_euler_step_def sys_rk4_step_def sys_args_ok fold_upd_length
      rk4_last_stage_length Let_def split_beta)

text \<open>C27: the shape of the results: with at least as many state components as
  callbacks and a positive step, both system steppers return, with as many
  rows of \<open>y\<close> as values of \<open>x\<close>, every row and the final content of the caller's
  \<open>yi\<close> a list of the length of \<open>yi\<close>.\<close>

theorem system_steppers_shape:
  assumes "length dydx \<le> length yi" "0 < h"
  shows "(\<exists>xs ys yf. SystemEuler xi xf yi h dydx = Some (Inr ((xs, ys), yf)) \<and>
            length ys = length xs \<and> list_all (\<lambda>row. length row = length yi) ys \<and> length yf = length yi) \<and>
         (\<exists>xs ys yf. SystemRK4 xi xf yi h dydx = Some (Inr ((xs, ys), yf)) \<and>
            length ys = length xs \<and> list_all (\<lambda>row. length row = length yi) ys \<and> length yf = length yi)"
proof -
  have "\<exists>y'. sys_euler_step dydx x y h' = Inr y' \<and> length y' = length yi"
    and "\<exists>y'. sys_rk4_step dydx x y h' = Inr y' \<and> length y' = length yi"
    if "length y = length yi" for x y h'
    using sys_steps_shape[of dydx y x h'] that assms(1) by simp_all
  from sys_loop_shape[OF assms(2) this(1) refl] sys_loop_shape[OF assms(2) this(2) refl]
  show ?thesis by (simp add: SystemEuler_def SystemRK4_def)
qed

theorem system_steppers_shape_witness:
  "length [\<lambda>a :: real list. a ! 2, \<lambda>a. a ! 1] \<le> length [1, 2 :: real] \<and> (0 :: real) < 1 / 2 \<and>
   (\<exists>xs ys yf. SystemEuler 0 1 [1, 2] (1 / 2) [\<lambda>a. a ! 2, \<lambda>a. a ! 1] = Some (Inr ((xs, ys), yf)) \<and>
      length ys = length xs \<and> list_all (\<lambda>row. length row = length [1, 2 :: real]) ys \<and> length yf = length [1, 2 :: real]) \<and>
   (\<exists>xs ys yf. SystemRK4 0 1 [1, 2] (1 / 2) [\<lambda>a. a ! 2, \<lambda>a. a ! 1] = Some (Inr ((xs, ys), yf)) \<and>
      length ys = length xs \<and> list_all (\<lambda>row. length row = length [1, 2 :: real]) ys \<and> length yf = length [1, 2 :: real])"
  using system_steppers_shape[where dydx = "[\<lambda>a. a ! 2, \<lambda>a. a ! 1]" and yi = "[1, 2]" and h = "1 / 2"
      and xi = 0 and xf = 1]
  by simp

end
