(* ===== verification/Optimization.thy ===== *)
theory Optimization
  imports Prelude
begin

text \<open>
  One-dimensional optimisation, class \<open>OneD\<close> of \<open>src/optimization.py\<close>. Every
  callback takes a one-element list (\<open>func([x])\<close>), so it is a \<open>sys_rhs\<close> applied
  to \<open>[x]\<close>. \<open>GoldenSection\<close> keeps its interior points and their values in
  instance attributes (\<open>self.x1\<close>, \<open>self.f1\<close>, \<open>self.x2\<close>, \<open>self.f2\<close>,
  \<open>self.minMax\<close>): they are the record \<open>oned\<close>, threaded through the loop and
  returned beside the result because they outlive the call. The loop locals
  \<open>xl\<close>, \<open>xu\<close>, \<open>d\<close>, \<open>xopt\<close> and \<open>ea\<close> are parameters of the loop; \<open>ea\<close> is
  \<open>None\<close> until first assigned, and reading it unassigned is \<open>UnboundLocalError\<close>.
  \<open>ParabolicInterpolation\<close> edits its list \<open>args\<close> in place, with Python's
  \<open>args.index(x)\<close> and the negative index \<open>args[ind-1]\<close>; \<open>Newton\<close> runs exactly
  \<open>maxIt\<close> steps. A \<open>for\<close> loop over \<open>range(maxIt)\<close> runs \<open>nat maxIt\<close> times.
\<close>

section \<open>GoldenSection\<close>

text \<open>\<open>R = (pow(5,0.5) - 1) / 2\<close>.\<close>

definition golden_R :: real where
  "golden_R = (sqrt 5 - 1) / 2"

record oned =
  gs_x1 :: real
  gs_f1 :: real
  gs_x2 :: real
  gs_f2 :: real
  gs_minMax :: string

text \<open>The test shared by the loop and \<open>__GoldenCond\<close>: is \<open>x1\<close> the better point?\<close>

definition golden_pick :: "oned \<Rightarrow> bool" where
  "golden_pick s \<longleftrightarrow>
     (gs_minMax s = ''Max'' \<and> gs_f1 s > gs_f2 s) \<or> (gs_minMax s = ''Min'' \<and> gs_f1 s < gs_f2 s)"

definition golden_cond :: "oned \<Rightarrow> real \<times> real" where
  "golden_cond s = (if golden_pick s then (gs_x1 s, gs_f1 s) else (gs_x2 s, gs_f2 s))"

text \<open>One iteration's update (lines 76-88). In the first branch the code writes
  \<open>x2 = self.x1\<close>, a local that is never read: \<open>self.x2\<close> keeps its old value.\<close>

definition golden_step ::
  "sys_rhs \<Rightarrow> real \<Rightarrow> oned \<Rightarrow> real \<Rightarrow> real \<Rightarrow> real \<Rightarrow> oned \<times> real \<times> real \<times> real" where
  "golden_step func R s xl xu d =
     (let d' = d * R
      in if golden_pick s then
           (let xl' = gs_x2 s; x1' = xl' + d'
            in (s\<lparr>gs_x1 := x1', gs_f2 := gs_f1 s, gs_f1 := func [x1']\<rparr>, xl', xu, d'))
         else
           (let xu' = gs_x1 s; x2' = xu' - d'
            in (s\<lparr>gs_x1 := gs_x2 s, gs_x2 := x2', gs_f1 := gs_f2 s, gs_f2 := func [x2']\<rparr>, xl, xu', d')))"

fun golden_loop ::
  "sys_rhs \<Rightarrow> real \<Rightarrow> real \<Rightarrow> nat \<Rightarrow> oned \<Rightarrow> real \<Rightarrow> real \<Rightarrow> real \<Rightarrow> real \<Rightarrow> real option
   \<Rightarrow> oned \<times> real result" where
  "golden_loop func R es 0 s xl xu d xopt ea = (s, Inr xopt)"
| "golden_loop func R es (Suc n) s xl xu d xopt ea =
     (let (s', xl', xu', d') = golden_step func R s xl xu d;
          (xopt', fx) = golden_cond s';
          ea' = (if xopt' \<noteq> 0 then Some ((1 - R) * \<bar>(xu' - xl') / xopt'\<bar> * 100) else ea)
      in case ea' of
           None \<Rightarrow> (s', Inl UnboundLocalError)
         | Some e \<Rightarrow> if e < es then (s', Inr xopt') else golden_loop func R es n s' xl' xu' d' xopt' ea')"

definition GoldenSection ::
  "real \<Rightarrow> real \<Rightarrow> int \<Rightarrow> sys_rhs \<Rightarrow> string \<Rightarrow> real \<Rightarrow> oned \<times> real result" where
  "GoldenSection xLow xHigh maxIt func minMax es =
     (let R = golden_R; xl = xLow; xu = xHigh; d = R * (xu - xl);
          x1 = xl + d; x2 = xu - d;
          s = \<lparr>gs_x1 = x1, gs_f1 = func [x1], gs_x2 = x2, gs_f2 = func [x2], gs_minMax = minMax\<rparr>;
          (xopt, fx) = golden_cond s
      in golden_loop func R es (nat maxIt) s xl xu d xopt None)"

text \<open>The spec's golden-section state: both interior points at the golden
  fraction of the bracket, with their function values. \<open>golden_ref_step\<close> is
  the textbook update, which in the first branch moves \<open>x1\<close> to \<open>x2\<close>.\<close>

definition golden_shape :: "real \<Rightarrow> sys_rhs \<Rightarrow> oned \<Rightarrow> real \<Rightarrow> real \<Rightarrow> real \<Rightarrow> bool" where
  "golden_shape R func s xl xu d \<longleftrightarrow>
     d = R * (xu - xl) \<and> gs_x1 s = xl + d \<and> gs_x2 s = xu - d \<and>
     gs_f1 s = func [gs_x1 s] \<and> gs_f2 s = func [gs_x2 s]"

definition golden_ref_step ::
  "sys_rhs \<Rightarrow> real \<Rightarrow> oned \<Rightarrow> real \<Rightarrow> real \<Rightarrow> real \<Rightarrow> oned \<times> real \<times> real \<times> real" where
  "golden_ref_step func R s xl xu d =
     (let d' = d * R
      in if golden_pick s then
           (let xl' = gs_x2 s; x1' = xl' + d'
            in (s\<lparr>gs_x1 := x1', gs_x2 := gs_x1 s, gs_f2 := gs_f1 s, gs_f1 := func [x1']\<rparr>, xl', xu, d'))
         else
           (let xu' = gs_x1 s; x2' = xu' - d'
            in (s\<lparr>gs_x1 := gs_x2 s, gs_x2 := x2', gs_f1 := gs_f2 s, gs_f2 := func [x2']\<rparr>, xl, xu', d')))"

section \<open>ParabolicInterpolation\<close>

text \<open>The vertex formula of one iteration (lines 138-139): numerator and
  denominator.\<close>

definition parab_num :: "real list \<Rightarrow> real \<Rightarrow> real \<Rightarrow> real \<Rightarrow> real" where
  "parab_num args f0 f1 f2 =
     f0 * (args ! 1 ^ 2 - args ! 2 ^ 2) + f1 * (args ! 2 ^ 2 - args ! 0 ^ 2) + f2 * (args ! 0 ^ 2 - args ! 1 ^ 2)"

definition parab_dev :: "real list \<Rightarrow> real \<Rightarrow> real \<Rightarrow> real \<Rightarrow> real" where
  "parab_dev args f0 f1 f2 =
     2 * f0 * (args ! 1 - args ! 2) + 2 * f1 * (args ! 2 - args ! 0) + 2 * f2 * (args ! 0 - args ! 1)"

text \<open>The inner \<open>for x in args\<close> (lines 144-150): at the first \<open>x > x3\<close>,
  \<open>ind = args.index(x)\<close>, then \<open>args[2] = x\<close>, \<open>args[0] = args[ind-1]\<close> (read after
  the write to \<open>args[2]\<close>; \<open>args[-1]\<close> when \<open>ind = 0\<close>) and \<open>args[1] = x3\<close>. The
  third argument is the part of \<open>args\<close> not yet visited.\<close>

fun parab_scan :: "real list \<Rightarrow> real \<Rightarrow> real list \<Rightarrow> real list result" where
  "parab_scan args x3 [] = Inr args"
| "parab_scan args x3 (x # xs) =
     (if x > x3 then
        (case py_index args x of
           Inl e \<Rightarrow> Inl e
         | Inr ind \<Rightarrow>
             (let a = args[2 := x]
              in case py_get a (int ind - 1) of
                   Inl e \<Rightarrow> Inl e
                 | Inr v \<Rightarrow> Inr (a[0 := v, 1 := x3])))
      else parab_scan args x3 xs)"

text \<open>The outer loop; \<open>dev == 0\<close> breaks out and returns \<open>args[1]\<close>. The value
  \<open>f3 = func([x3])\<close> is computed and never used; callbacks are pure, so it is
  omitted.\<close>

fun parab_loop :: "sys_rhs \<Rightarrow> nat \<Rightarrow> real list \<Rightarrow> real result" where
  "parab_loop func 0 args = Inr (args ! 1)"
| "parab_loop func (Suc n) args =
     (let f0 = func [args ! 0]; f1 = func [args ! 1]; f2 = func [args ! 2];
          x3 = parab_num args f0 f1 f2; dev = parab_dev args f0 f1 f2
      in if dev = 0 then Inr (args ! 1)
         else (case parab_scan args (x3 / dev) args of
                 Inl e \<Rightarrow> Inl e
               | Inr args' \<Rightarrow> parab_loop func n args'))"

definition ParabolicInterpolation :: "real \<Rightarrow> real \<Rightarrow> real \<Rightarrow> int \<Rightarrow> sys_rhs \<Rightarrow> real result" where
  "ParabolicInterpolation x0 x1 x2 maxIt func = parab_loop func (nat maxIt) [x0, x1, x2]"

text \<open>The quadratic test callback \<open>a x\<^sup>2 + b x + c\<close>, with its vertex at \<open>-b / (2a)\<close>.\<close>

definition quad :: "real \<Rightarrow> real \<Rightarrow> real \<Rightarrow> sys_rhs" where
  "quad a b c = (\<lambda>xs. a * (xs ! 0) ^ 2 + b * xs ! 0 + c)"

section \<open>Newton\<close>

text \<open>\<open>for i in range(maxIt): xNext = x0 - der([x0]) / dder([x0]); x0 = xNext\<close>,
  then \<open>return xNext\<close>: unbound when the loop never ran.\<close>

fun opt_newton_loop :: "sys_rhs \<Rightarrow> sys_rhs \<Rightarrow> nat \<Rightarrow> real \<Rightarrow> real option \<Rightarrow> real result" where
  "opt_newton_loop der dder 0 x0 xNext = (case xNext of None \<Rightarrow> Inl UnboundLocalError | Some x \<Rightarrow> Inr x)"
| "opt_newton_loop der dder (Suc n) x0 xNext =
     (if dder [x0] = 0 then Inl ZeroDivisionError
      else let x' = x0 - der [x0] / dder [x0] in opt_newton_loop der dder n x' (Some x'))"

definition Newton :: "real \<Rightarrow> int \<Rightarrow> sys_rhs \<Rightarrow> sys_rhs \<Rightarrow> real result" where
  "Newton x0 maxIt der dder = opt_newton_loop der dder (nat maxIt) x0 None"

section \<open>Lemmas\<close>

lemma golden_R_pos: "0 < golden_R" and golden_R_less1: "golden_R < 1"
proof -
  have "1 < sqrt 5" by (rule real_less_rsqrt) simp
  moreover have "sqrt 5 < 3" by (rule real_less_lsqrt) simp_all
  ultimately show "0 < golden_R" "golden_R < 1" by (simp_all add: golden_R_def)
qed

lemma golden_R_sq: "golden_R * golden_R = 1 - golden_R"
proof -
  have "sqrt 5 * sqrt 5 = (5 :: real)" by simp
  then show ?thesis by (simp add: golden_R_def field_simps)
qed

lemma golden_split: "d = golden_R * w \<Longrightarrow> d + d * golden_R = w"
proof -
  assume "d = golden_R * w"
  then have "d + d * golden_R = (golden_R + golden_R * golden_R) * w" by (simp add: algebra_simps)
  then show ?thesis by (simp add: golden_R_sq)
qed

lemma golden_ref_step_shape:
  assumes "golden_shape golden_R func s xl xu d"
  shows "case golden_ref_step func golden_R s xl xu d of (s', xl', xu', d') \<Rightarrow> golden_shape golden_R func s' xl' xu' d'"
proof -
  have sp: "d + d * golden_R = xu - xl" using assms golden_split by (simp add: golden_shape_def)
  show ?thesis
    using assms sp by (auto simp: golden_ref_step_def golden_shape_def Let_def algebra_simps)
qed

lemma golden_step_else_shape:
  assumes "golden_shape golden_R func s xl xu d" "\<not> golden_pick s"
  shows "case golden_step func golden_R s xl xu d of (s', xl', xu', d') \<Rightarrow> golden_shape golden_R func s' xl' xu' d'"
proof -
  have sp: "d + d * golden_R = xu - xl" using assms golden_split by (simp add: golden_shape_def)
  show ?thesis
    using assms sp by (auto simp: golden_step_def golden_shape_def Let_def algebra_simps)
qed

lemma golden_step_pick_stale:
  assumes "golden_shape golden_R func s xl xu d" "golden_pick s" "xl < xu"
  shows "case golden_step func golden_R s xl xu d of (s', xl', xu', d') \<Rightarrow>
           gs_x2 s' = xl' \<and> gs_f2 s' = gs_f1 s \<and> \<not> golden_shape golden_R func s' xl' xu' d'"
proof -
  have d: "0 < d" using assms(1,3) golden_R_pos by (simp add: golden_shape_def)
  have "d * golden_R \<noteq> d" using d golden_R_less1 by simp
  then show ?thesis
    using assms(1,2) by (auto simp: golden_step_def golden_shape_def Let_def)
qed

lemma parab_quad:
  "parab_num [p0, p1, p2] (a * p0\<^sup>2 + b * p0 + c) (a * p1\<^sup>2 + b * p1 + c) (a * p2\<^sup>2 + b * p2 + c) =
     b * ((p0 - p1) * (p1 - p2) * (p2 - p0))"
  "parab_dev [p0, p1, p2] (a * p0\<^sup>2 + b * p0 + c) (a * p1\<^sup>2 + b * p1 + c) (a * p2\<^sup>2 + b * p2 + c) =
     - 2 * a * ((p0 - p1) * (p1 - p2) * (p2 - p0))"
  by (simp_all add: parab_num_def parab_dev_def power2_eq_square algebra_simps)

lemma parab_scan3:
  "parab_scan [p0, p1, p2] x3 [p0, p1, p2] =
     Inr (if x3 < p0 then [p0, x3, p0] else if x3 < p1 then [p0, x3, p1]
          else if x3 < p2 then [p1, x3, p2] else [p0, p1, p2])"
  by (auto simp: py_get_def)

lemma vertex_div: "(a :: real) \<noteq> 0 \<Longrightarrow> V \<noteq> 0 \<Longrightarrow> b * V / (- 2 * a * V) = - b / (2 * a)"
  by (simp add: field_simps)

lemma quad_at [simp]: "quad a b c [x] = a * x\<^sup>2 + b * x + c"
  by (simp add: quad_def)

lemma parab_loop_Suc_quad:
  "parab_loop (quad a b c) (Suc n) [p0, p1, p2] =
     (if - 2 * a * ((p0 - p1) * (p1 - p2) * (p2 - p0)) = 0 then Inr p1
      else case parab_scan [p0, p1, p2] (b * ((p0 - p1) * (p1 - p2) * (p2 - p0)) /
                                         (- 2 * a * ((p0 - p1) * (p1 - p2) * (p2 - p0)))) [p0, p1, p2] of
             Inl e \<Rightarrow> Inl e
           | Inr args' \<Rightarrow> parab_loop (quad a b c) n args')"
  by (simp add: Let_def parab_quad del: parab_scan.simps)

lemma parab_loop_vertex_kept:
  assumes "a \<noteq> 0" "v = - b / (2 * a)"
  shows "parab_loop (quad a b c) n [q0, v, q2] = Inr v"
proof (induction n arbitrary: q0 q2)
  case 0
  then show ?case by simp
next
  case (Suc n)
  define V where "V = (q0 - v) * (v - q2) * (q2 - q0)"
  show ?case
  proof (cases "- 2 * a * V = 0")
    case True
    then show ?thesis by (simp only: parab_loop_Suc_quad V_def[symmetric] True simp_thms(6) if_True)
  next
    case False
    then have "V \<noteq> 0" by simp
    then have x3: "b * V / (- 2 * a * V) = v" using vertex_div[OF assms(1)] assms(2) by simp
    have "parab_loop (quad a b c) (Suc n) [q0, v, q2] =
        (case parab_scan [q0, v, q2] v [q0, v, q2] of Inl e \<Rightarrow> Inl e | Inr args' \<Rightarrow> parab_loop (quad a b c) n args')"
      by (simp only: parab_loop_Suc_quad V_def[symmetric] False if_False x3)
    then show ?thesis using Suc.IH by (simp add: parab_scan3)
  qed
qed

lemma parab_loop_unmoved:
  assumes "a \<noteq> 0" "(p0 - p1) * (p1 - p2) * (p2 - p0) \<noteq> 0"
    and "p0 \<le> - b / (2 * a)" "p1 \<le> - b / (2 * a)" "p2 \<le> - b / (2 * a)"
  shows "parab_loop (quad a b c) n [p0, p1, p2] = Inr p1"
proof (induction n)
  case 0
  then show ?case by simp
next
  case (Suc n)
  define V where "V = (p0 - p1) * (p1 - p2) * (p2 - p0)"
  have nz: "- 2 * a * V \<noteq> 0" using assms(1,2) by (simp add: V_def)
  have x3: "b * V / (- 2 * a * V) = - b / (2 * a)" using vertex_div[OF assms(1)] assms(2) by (simp add: V_def)
  have sc: "parab_scan [p0, p1, p2] (- b / (2 * a)) [p0, p1, p2] = Inr [p0, p1, p2]"
    using assms(3-5) by (simp add: parab_scan3 not_less)
  show ?case
    by (simp only: parab_loop_Suc_quad V_def[symmetric] nz if_False x3 sc sum.case Suc.IH)
qed

lemma opt_newton_fixed:
  "x - der [x] / dder [x] = x \<Longrightarrow> dder [x] \<noteq> 0 \<Longrightarrow> opt_newton_loop der dder n x (Some x) = Inr x"
  by (induction n) (simp_all add: Let_def)

section \<open>Properties of the optimisers\<close>

subsection \<open>GoldenSection\<close>

text \<open>C28: from a state with both interior points at the golden fraction of the
  bracket and with their function values, the spec's update keeps that shape.
  The code's update agrees with it when \<open>x2\<close> is the better point; when \<open>x1\<close> is,
  the assignment \<open>x2 = self.x1\<close> goes to a local, so \<open>self.x2\<close> stays at the new
  lower end \<open>xl\<close> of the bracket and the golden shape is lost.\<close>

theorem golden_step_shape:
  assumes "golden_shape golden_R func s xl xu d" "xl < xu"
  shows "(case golden_ref_step func golden_R s xl xu d of
            (s', xl', xu', d') \<Rightarrow> golden_shape golden_R func s' xl' xu' d') \<and>
         (\<not> golden_pick s \<longrightarrow> golden_step func golden_R s xl xu d = golden_ref_step func golden_R s xl xu d) \<and>
         (golden_pick s \<longrightarrow> (case golden_step func golden_R s xl xu d of
            (s', xl', xu', d') \<Rightarrow> gs_x2 s' = xl' \<and> \<not> golden_shape golden_R func s' xl' xu' d'))"
  using golden_ref_step_shape[OF assms(1)] golden_step_pick_stale[OF assms(1) _ assms(2)]
  by (auto simp: golden_step_def golden_ref_step_def Let_def split: prod.splits)

theorem golden_step_shape_witness:
  "golden_shape golden_R (\<lambda>xs. xs ! 0)
     \<lparr>gs_x1 = golden_R, gs_f1 = golden_R, gs_x2 = 1 - golden_R, gs_f2 = 1 - golden_R, gs_minMax = ''Max''\<rparr>
     0 1 golden_R \<and> (0 :: real) < 1 \<and>
   golden_pick \<lparr>gs_x1 = golden_R, gs_f1 = golden_R, gs_x2 = 1 - golden_R, gs_f2 = 1 - golden_R, gs_minMax = ''Max''\<rparr> \<and>
   (case golden_ref_step (\<lambda>xs. xs ! 0) golden_R
           \<lparr>gs_x1 = golden_R, gs_f1 = golden_R, gs_x2 = 1 - golden_R, gs_f2 = 1 - golden_R, gs_minMax = ''Max''\<rparr>
           0 1 golden_R of
      (s', xl', xu', d') \<Rightarrow> golden_shape golden_R (\<lambda>xs. xs ! 0) s' xl' xu' d') \<and>
   (case golden_step (\<lambda>xs. xs ! 0) golden_R
           \<lparr>gs_x1 = golden_R, gs_f1 = golden_R, gs_x2 = 1 - golden_R, gs_f2 = 1 - golden_R, gs_minMax = ''Max''\<rparr>
           0 1 golden_R of
      (s', xl', xu', d') \<Rightarrow> gs_x2 s' = xl' \<and> \<not> golden_shape golden_R (\<lambda>xs. xs ! 0) s' xl' xu' d')"
proof -
  have sh: "golden_shape golden_R (\<lambda>xs. xs ! 0)
      \<lparr>gs_x1 = golden_R, gs_f1 = golden_R, gs_x2 = 1 - golden_R, gs_f2 = 1 - golden_R, gs_minMax = ''Max''\<rparr>
      0 1 golden_R"
    by (simp add: golden_shape_def)
  have "2 < sqrt 5" by (rule real_less_rsqrt) simp
  then have pk: "golden_pick
      \<lparr>gs_x1 = golden_R, gs_f1 = golden_R, gs_x2 = 1 - golden_R, gs_f2 = 1 - golden_R, gs_minMax = ''Max''\<rparr>"
    by (simp add: golden_pick_def golden_R_def field_simps)
  show ?thesis using golden_step_shape[OF sh] sh pk by simp
qed

subsection \<open>ParabolicInterpolation\<close>

text \<open>C29: on a quadratic with \<open>a \<noteq> 0\<close>, from three distinct guesses of which at
  least one lies above the vertex, \<open>ParabolicInterpolation\<close> returns the exact
  vertex \<open>-b / (2a)\<close> for every \<open>maxIt \<ge> 1\<close>: the first parabola is the function
  itself, and later iterations keep the vertex in \<open>args[1]\<close> (also through the
  \<open>args[-1]\<close> read when the vertex lies below all three points).\<close>

theorem ParabolicInterpolation_quadratic_vertex:
  assumes "a \<noteq> 0" "distinct [p0, p1, p2]" "0 < maxIt"
    and "- b / (2 * a) < p0 \<or> - b / (2 * a) < p1 \<or> - b / (2 * a) < p2"
  shows "ParabolicInterpolation p0 p1 p2 maxIt (quad a b c) = Inr (- b / (2 * a))"
proof -
  obtain n where n: "nat maxIt = Suc n" using assms(3) by (cases "nat maxIt") auto
  define v where "v = - b / (2 * a)"
  define V where "V = (p0 - p1) * (p1 - p2) * (p2 - p0)"
  have nz: "- 2 * a * V \<noteq> 0" using assms(1,2) by (simp add: V_def)
  have x3: "b * V / (- 2 * a * V) = v" using vertex_div[OF assms(1)] nz by (simp add: v_def)
  have some: "v < p0 \<or> v < p1 \<or> v < p2" using assms(4) by (simp add: v_def)
  have "\<exists>q0 q2. parab_scan [p0, p1, p2] v [p0, p1, p2] = Inr [q0, v, q2]"
    using some by (auto simp: parab_scan3)
  then obtain q0 q2 where sc: "parab_scan [p0, p1, p2] v [p0, p1, p2] = Inr [q0, v, q2]" by blast
  have "ParabolicInterpolation p0 p1 p2 maxIt (quad a b c) = parab_loop (quad a b c) n [q0, v, q2]"
    by (simp only: ParabolicInterpolation_def n parab_loop_Suc_quad V_def[symmetric] nz if_False x3 sc sum.case)
  also have "\<dots> = Inr v" using parab_loop_vertex_kept[OF assms(1) v_def] .
  finally show ?thesis by (simp only: v_def)
qed

theorem ParabolicInterpolation_quadratic_vertex_witness:
  "ParabolicInterpolation 3 4 5 3 (quad (-1) 4 1) = Inr 2"
  using ParabolicInterpolation_quadratic_vertex[of "-1" 3 4 5 3 4 1] by simp

text \<open>C30: the replacement step looks for the first point above the new estimate
  \<open>x3\<close> and never compares function values; when all three guesses lie on the
  side of the optimum below it, no point is replaced, and
  \<open>ParabolicInterpolation\<close> returns the initial middle guess \<open>x1\<close> whatever
  \<open>maxIt\<close> is, although each iteration computed the exact vertex.\<close>

theorem ParabolicInterpolation_stalls:
  assumes "a \<noteq> 0" "distinct [p0, p1, p2]"
    and "p0 \<le> - b / (2 * a)" "p1 \<le> - b / (2 * a)" "p2 \<le> - b / (2 * a)"
  shows "ParabolicInterpolation p0 p1 p2 maxIt (quad a b c) = Inr p1"
proof -
  have "(p0 - p1) * (p1 - p2) * (p2 - p0) \<noteq> 0" using assms(2) by simp
  from parab_loop_unmoved[OF assms(1) this assms(3-5)] show ?thesis
    by (simp add: ParabolicInterpolation_def)
qed

theorem ParabolicInterpolation_stalls_witness:
  "ParabolicInterpolation 0 (1/2) 1 100 (quad (-1) 4 1) = Inr (1/2)"
  using ParabolicInterpolation_stalls[of "-1" 0 "1/2" 1 4 100 1] by simp

subsection \<open>Further properties\<close>

text \<open>If the first iteration's optimum estimate is 0, the relative error \<open>ea\<close> is
  never assigned and \<open>if (ea < es)\<close> raises \<open>UnboundLocalError\<close>: with a constant
  callback and the bracket \<open>[-R\<^sup>3, 1 - R\<^sup>3]\<close> the estimate is exactly 0.\<close>

lemma GoldenSection_unbound:
  "snd (GoldenSection (- (golden_R ^ 3)) (1 - golden_R ^ 3) 1 (\<lambda>xs. 0) ''Max'' 1) = Inl UnboundLocalError"
proof -
  have "golden_R ^ 3 = golden_R * (golden_R * golden_R)" by (simp add: power3_eq_cube)
  also have "\<dots> = golden_R * (1 - golden_R)" by (simp only: golden_R_sq)
  also have "\<dots> = golden_R - golden_R * golden_R" by (simp add: algebra_simps)
  finally have c: "golden_R ^ 3 = golden_R - golden_R * golden_R" .
  show ?thesis
    by (simp add: GoldenSection_def golden_step_def golden_cond_def golden_pick_def Let_def c)
qed


text \<open>\<open>Newton\<close> reaches the vertex of a quadratic in one step and stays there;
  with \<open>maxIt \<le> 0\<close> its \<open>return xNext\<close> reads an unbound local.\<close>

theorem Newton_quadratic:
  assumes "a \<noteq> 0" "0 < maxIt"
  shows "Newton x0 maxIt (\<lambda>xs. 2 * a * xs ! 0 + b) (\<lambda>xs. 2 * a) = Inr (- b / (2 * a))"
proof -
  obtain n where n: "nat maxIt = Suc n" using assms(2) by (cases "nat maxIt") auto
  have step: "x - (2 * a * x + b) / (2 * a) = - b / (2 * a)" for x using assms(1) by (simp add: field_simps)
  show ?thesis
    using opt_newton_fixed[of "- b / (2 * a)" "\<lambda>xs. 2 * a * xs ! 0 + b" "\<lambda>xs. 2 * a" n] assms(1)
    by (simp add: Newton_def n step)
qed


lemma Newton_unbound: "maxIt \<le> 0 \<Longrightarrow> Newton x0 maxIt der dder = Inl UnboundLocalError"
  by (simp add: Newton_def)

end
