(* ===== verification/DataIntegration.thy ===== *)
theory DataIntegration
  imports Integration
begin

text \<open>
  Quadrature over sampled data, class \<open>OneDIntegralwithData\<close> of
  \<open>src/numerics/integration.py\<close> (lines 299-463). The samples are two lists
  \<open>x\<close> and \<open>y\<close>. \<open>Trapezoid\<close> and \<open>SimpsonOneThird\<close> locate the extreme abscissae
  with Python's \<open>max\<close>, \<open>min\<close> and \<open>x.index\<close> and then sum the remaining entries of
  \<open>x\<close>, never reading \<open>y\<close>; \<open>TrapezoidUnequalSegments\<close> reads \<open>y[i]\<close> and \<open>y[i-1]\<close>
  (an \<open>IndexError\<close> when \<open>y\<close> is shorter than \<open>x\<close>); \<open>Romberg\<close> fills the same
  table as the callback version with the column-0 estimate \<open>Trapezoid(x, y)\<close>, so
  it reuses \<open>romberg_cols\<close> of theory Integration.
\<close>

section \<open>Definitions\<close>

text \<open>\<open>for i in range(len(x)): if (i != f0ind) and (i != f2ind): sum += x[i]\<close>.\<close>

definition data_sum :: "real list \<Rightarrow> nat \<Rightarrow> nat \<Rightarrow> real" where
  "data_sum x f0ind f2ind = fold (\<lambda>i s. if i \<noteq> f0ind \<and> i \<noteq> f2ind then s + x ! i else s) [0..<length x] 0"

definition dataTrapezoid :: "real list \<Rightarrow> real list \<Rightarrow> real result" where
  "dataTrapezoid x y =
     (case (py_max x, py_min x) of
        (Inl e, _) \<Rightarrow> Inl e
      | (_, Inl e) \<Rightarrow> Inl e
      | (Inr mx, Inr mn) \<Rightarrow>
          (let wd = mx - mn; f0 = mn; f2 = mx
           in case (py_index x f0, py_index x f2) of
                (Inl e, _) \<Rightarrow> Inl e
              | (_, Inl e) \<Rightarrow> Inl e
              | (Inr f0ind, Inr f2ind) \<Rightarrow>
                  Inr (wd * (f0 + 2 * data_sum x f0ind f2ind + f2) / (2 * real (length x)))))"

text \<open>\<open>temp = y[i] - y[i - 1]; temp /= 2; sum += (x[i] - x[i-1]) * temp\<close> for
  \<open>i\<close> in \<open>range(1, len(x))\<close>; \<open>r\<close> counts the iterations left.\<close>

fun data_unequal_loop :: "real list \<Rightarrow> real list \<Rightarrow> nat \<Rightarrow> nat \<Rightarrow> real \<Rightarrow> real result" where
  "data_unequal_loop x y i 0 s = Inr s"
| "data_unequal_loop x y i (Suc r) s =
     (case (py_get y (int i), py_get y (int i - 1)) of
        (Inl e, _) \<Rightarrow> Inl e
      | (_, Inl e) \<Rightarrow> Inl e
      | (Inr yi, Inr yj) \<Rightarrow>
          (let temp = (yi - yj) / 2 in data_unequal_loop x y (Suc i) r (s + (x ! i - x ! (i - 1)) * temp)))"

definition dataTrapezoidUnequalSegments :: "real list \<Rightarrow> real list \<Rightarrow> real result" where
  "dataTrapezoidUnequalSegments x y = data_unequal_loop x y 1 (length x - 1) 0"

text \<open>The sums \<open>f11\<close> (odd positions) and \<open>f12\<close> (even positions) of
  \<open>SimpsonOneThird\<close>, over the entries of \<open>x\<close> other than the extremes.\<close>

definition data_simpson_sums :: "real list \<Rightarrow> nat \<Rightarrow> nat \<Rightarrow> real \<times> real" where
  "data_simpson_sums x f0ind f2ind =
     fold (\<lambda>i (f11, f12). if i \<noteq> f0ind \<and> i \<noteq> f2ind then
                            (if i mod 2 = 0 then (f11, f12 + x ! i) else (f11 + x ! i, f12))
                          else (f11, f12))
       [0..<length x] (0, 0)"

definition dataSimpsonOneThird :: "real list \<Rightarrow> real list \<Rightarrow> real result" where
  "dataSimpsonOneThird x y =
     (case (py_max x, py_min x) of
        (Inl e, _) \<Rightarrow> Inl e
      | (_, Inl e) \<Rightarrow> Inl e
      | (Inr mx, Inr mn) \<Rightarrow>
          (let wd = mx - mn; f0 = mn; f2 = mx
           in case (py_index x f0, py_index x f2) of
                (Inl e, _) \<Rightarrow> Inl e
              | (_, Inl e) \<Rightarrow> Inl e
              | (Inr f0ind, Inr f2ind) \<Rightarrow>
                  (let (f11, f12) = data_simpson_sums x f0ind f2ind
                   in Inr (wd * (f0 + 4 * f11 + 2 * f12 + f2) / (3 * real (length x))))))"

fun data_romberg_rows :: "real list \<Rightarrow> real list \<Rightarrow> nat \<Rightarrow> nat \<Rightarrow> table \<Rightarrow> table result" where
  "data_romberg_rows x y cnt 0 I = Inr I"
| "data_romberg_rows x y cnt (Suc r) I =
     (case dataTrapezoid x y of
        Inl e \<Rightarrow> Inl e
      | Inr t \<Rightarrow> data_romberg_rows x y (Suc cnt) r (romberg_cols cnt 1 cnt (I(cnt := (I cnt)(0 := t)))))"

text \<open>As in the callback version, the table starts from arbitrary contents \<open>I0\<close>.\<close>

definition data_romberg_from :: "table \<Rightarrow> real list \<Rightarrow> real list \<Rightarrow> int \<Rightarrow> real result" where
  "data_romberg_from I0 x y maxIt =
     (if maxIt < 0 then Inl ValueError
      else case dataTrapezoid x y of
        Inl e \<Rightarrow> Inl e
      | Inr t0 \<Rightarrow>
          if maxIt = 0 then Inl IndexError
          else case data_romberg_rows x y 0 (nat maxIt) (I0(0 := (I0 0)(0 := t0))) of
                 Inl e \<Rightarrow> Inl e
               | Inr I \<Rightarrow> Inr (I 0 (nat maxIt - 1)))"

definition dataRomberg :: "real list \<Rightarrow> real list \<Rightarrow> int \<Rightarrow> real result" where
  "dataRomberg x y maxIt = data_romberg_from (\<lambda>_ _. 0) x y maxIt"

section \<open>Lemmas\<close>

lemma composite_trapezoid_const: "0 < n \<Longrightarrow> composite_trapezoid 0 1 n (\<lambda>_. T) = T"
proof -
  assume n: "0 < n"
  have "(\<Sum>i = 1..<n. T) = real (n - 1) * T" by simp
  also have "\<dots> = (real n - 1) * T" using n by (simp add: of_nat_diff)
  finally have s: "(\<Sum>i = 1..<n. T) = (real n - 1) * T" .
  show ?thesis using n by (simp add: composite_trapezoid_def s field_simps)
qed

lemma romberg_R_const: "romberg_R 0 1 (\<lambda>_. T) j k = T"
proof (induction k arbitrary: j)
  case 0
  then show ?case by (simp add: composite_trapezoid_const)
next
  case (Suc k)
  have "(1 :: real) < 4 ^ Suc k" by (rule one_less_power) simp_all
  then have "(4 :: real) ^ Suc k \<noteq> 1" by simp
  then show ?case using Suc.IH by (simp add: field_simps)
qed

lemma data_romberg_rows_inv:
  assumes T: "dataTrapezoid x y = Inr T"
    and "\<forall>j k. j + k < cnt \<longrightarrow> I j k = T"
  shows "\<exists>I'. data_romberg_rows x y cnt r I = Inr I' \<and> (\<forall>j k. j + k < cnt + r \<longrightarrow> I' j k = T)"
  using assms(2)
proof (induction r arbitrary: cnt I)
  case 0
  then show ?case by simp
next
  case (Suc r)
  let ?I1 = "I(cnt := (I cnt)(0 := T))"
  have "\<forall>j k'. j + k' < cnt \<or> (j + k' = cnt \<and> k' < 1) \<longrightarrow> ?I1 j k' = romberg_R 0 1 (\<lambda>_. T) j k'"
    using Suc.prems by (auto simp: romberg_R_const)
  then have "\<forall>j k. j + k \<le> cnt \<longrightarrow> romberg_cols cnt 1 cnt ?I1 j k = romberg_R 0 1 (\<lambda>_. T) j k"
    by (rule romberg_cols_inv) simp_all
  then have "\<forall>j k. j + k < Suc cnt \<longrightarrow> romberg_cols cnt 1 cnt ?I1 j k = T"
    by (simp add: romberg_R_const less_Suc_eq_le)
  from Suc.IH[OF this] show ?case by (simp add: T)
qed

lemma data_unequal_const:
  "length y = length x \<Longrightarrow> (\<forall>v \<in> set y. v = c) \<Longrightarrow> i + r \<le> length x \<Longrightarrow> 0 < i \<Longrightarrow>
   data_unequal_loop x y i r s = Inr s"
proof (induction r arbitrary: i s)
  case (Suc r)
  have i: "i < length y" "i - 1 < length y" using Suc.prems by auto
  have g: "py_get y (int i) = Inr c" "py_get y (int i - 1) = Inr c"
    using i Suc.prems(2,4) by (simp_all add: py_get_def nat_diff_distrib)
  show ?case
    using Suc.IH[of "Suc i" s] Suc.prems by (simp add: g Let_def)
qed simp

lemma dataTrapezoidUnequalSegments_const:
  "length y = length x \<Longrightarrow> (\<forall>v \<in> set y. v = c) \<Longrightarrow> dataTrapezoidUnequalSegments x y = Inr 0"
  by (cases x) (simp_all add: dataTrapezoidUnequalSegments_def data_unequal_const)

section \<open>Properties of the data quadrature\<close>

text \<open>C31: \<open>Trapezoid\<close> and \<open>SimpsonOneThird\<close> with data never read the sample
  values \<open>y\<close>: their results depend on \<open>x\<close> only; \<open>Romberg\<close> puts the same
  \<open>Trapezoid(x, y)\<close> in every row of column 0, so every extrapolation reproduces
  it and the result equals \<open>Trapezoid(x, y)\<close> for every \<open>maxIt \<ge> 1\<close> and any
  initial table contents. On samples of \<open>y = x\<close> at \<open>0, 1, 2\<close>, whose integral is
  2, \<open>Trapezoid\<close> returns \<open>4/3\<close>.\<close>

theorem data_quadrature_ignores_samples:
  "dataTrapezoid x y = dataTrapezoid x y' \<and>
   dataSimpsonOneThird x y = dataSimpsonOneThird x y' \<and>
   data_romberg_from I0 x y (int (Suc m)) = dataTrapezoid x y \<and>
   dataTrapezoid [0, 1, 2] [0, 1, 2] = Inr (4/3)"
proof (intro conjI)
  show "dataTrapezoid x y = dataTrapezoid x y'" by (simp add: dataTrapezoid_def)
  show "dataSimpsonOneThird x y = dataSimpsonOneThird x y'" by (simp add: dataSimpsonOneThird_def)
  show "dataTrapezoid [0, 1, 2] [0, 1, 2] = Inr (4/3)"
    by (simp add: dataTrapezoid_def py_max_def py_min_def data_sum_def upt_rec)
  show "data_romberg_from I0 x y (int (Suc m)) = dataTrapezoid x y"
  proof (cases "dataTrapezoid x y")
    case (Inl e)
    then show ?thesis by (simp add: data_romberg_from_def)
  next
    case (Inr T)
    have "\<forall>j k. j + k < 0 \<longrightarrow> (I0(0 := (I0 0)(0 := T))) j k = T" by simp
    from data_romberg_rows_inv[OF Inr this, of "Suc m"]
    obtain I' where "data_romberg_rows x y 0 (Suc m) (I0(0 := (I0 0)(0 := T))) = Inr I'"
      and "\<forall>j k. j + k < 0 + Suc m \<longrightarrow> I' j k = T" by blast
    moreover have "nat (1 + int m) = Suc m" by simp
    ultimately show ?thesis using Inr by (simp add: data_romberg_from_def del: data_romberg_rows.simps)
  qed
qed

end
