(* ===== verification/Statistics.thy ===== *)
theory Statistics
  imports Prelude
begin

text \<open>
  The statistics helpers of \<open>src/numerics/tool.py\<close>, used by the regressions of
  \<open>curveFitting.py\<close>. Each \<open>for item in values\<close> accumulation is a \<open>fold\<close> over
  the list; \<open>sum / len(values)\<close> and \<open>var /= (len(values) - 1)\<close> are Python true
  divisions, \<open>ZeroDivisionError\<close> on an empty list and, for the variance, on a
  one-element list. \<open>variance(values) ** 0.5\<close> is \<open>sqrt\<close>: the variance is shown
  non-negative, so Python's complex result for a negative base never arises.
  The reference definitions \<open>mean_ref\<close> and \<open>variance_ref\<close> are the textbook
  mean and two-pass sample variance.
\<close>

section \<open>Definitions\<close>

definition arithmaticMean :: "real list \<Rightarrow> real result" where
  "arithmaticMean values = py_div (fold (\<lambda>item sum. sum + item) values 0) (real (length values))"

text \<open>The one-pass loop: \<open>sumYiSq += item**2; sumYi += item\<close>.\<close>

definition variance_sums :: "real list \<Rightarrow> real \<times> real" where
  "variance_sums values = fold (\<lambda>item (sumYi, sumYiSq). (sumYi + item, sumYiSq + item ^ 2)) values (0, 0)"

definition variance :: "real list \<Rightarrow> real result" where
  "variance values =
     (let (sumYi, sumYiSq) = variance_sums values
      in case py_div (sumYi ^ 2) (real (length values)) of
           Inl e \<Rightarrow> Inl e
         | Inr q \<Rightarrow> py_div (sumYiSq - q) (real (length values) - 1))"

definition standartDeviation :: "real list \<Rightarrow> real result" where
  "standartDeviation values = (case variance values of Inl e \<Rightarrow> Inl e | Inr v \<Rightarrow> Inr (sqrt v))"

definition coeffOfVariation :: "real list \<Rightarrow> real result" where
  "coeffOfVariation values =
     (case standartDeviation values of
        Inl e \<Rightarrow> Inl e
      | Inr sy \<Rightarrow> (case arithmaticMean values of
          Inl e \<Rightarrow> Inl e
        | Inr yBar \<Rightarrow> (case py_div sy yBar of Inl e \<Rightarrow> Inl e | Inr q \<Rightarrow> Inr (q * 100))))"

text \<open>The textbook definitions the helpers implement.\<close>

definition mean_ref :: "real list \<Rightarrow> real" where
  "mean_ref xs = sum_list xs / real (length xs)"

definition variance_ref :: "real list \<Rightarrow> real" where
  "variance_ref xs = sum_list (map (\<lambda>x. (x - mean_ref xs) ^ 2) xs) / (real (length xs) - 1)"

section \<open>Lemmas\<close>

lemma fold_add_sum_list: "fold (\<lambda>item sum. sum + item) xs s = s + sum_list xs"
  by (induction xs arbitrary: s) (simp_all add: algebra_simps)

lemma variance_sums_eq:
  "fold (\<lambda>item (sumYi, sumYiSq). (sumYi + item, sumYiSq + item ^ 2)) xs (a, b) =
   (a + sum_list xs, b + sum_list (map (\<lambda>x. x ^ 2) xs))"
  by (induction xs arbitrary: a b) (simp_all add: algebra_simps)

lemma sum_sq_dev:
  "sum_list (map (\<lambda>x. (x - m) ^ 2) xs) =
   sum_list (map (\<lambda>x. x ^ 2) xs) - 2 * m * sum_list xs + real (length xs) * m ^ 2"
  by (induction xs) (simp_all add: power2_eq_square algebra_simps)

lemma arithmaticMean_ok: "xs \<noteq> [] \<Longrightarrow> arithmaticMean xs = Inr (mean_ref xs)"
  by (simp add: arithmaticMean_def fold_add_sum_list mean_ref_def)

lemma variance_ok:
  assumes "2 \<le> length xs"
  shows "variance xs = Inr (variance_ref xs)"
proof -
  define n where "n = real (length xs)"
  define S where "S = sum_list xs"
  define Q where "Q = sum_list (map (\<lambda>x. x ^ 2) xs)"
  have n0: "n \<noteq> 0" using assms by (auto simp: n_def)
  have n1: "n - 1 \<noteq> 0" using assms by (simp add: n_def)
  have lhs: "variance xs = Inr ((Q - S ^ 2 / n) / (n - 1))"
    using n0 n1 by (simp add: variance_def variance_sums_def variance_sums_eq n_def[symmetric]
        S_def[symmetric] Q_def[symmetric])
  have "sum_list (map (\<lambda>x. (x - S / n) ^ 2) xs) = Q - 2 * (S / n) * S + n * (S / n) ^ 2"
    by (simp add: sum_sq_dev Q_def S_def n_def)
  also have "\<dots> = Q - S ^ 2 / n" using n0 by (simp add: field_simps power2_eq_square)
  finally have "variance_ref xs = (Q - S ^ 2 / n) / (n - 1)"
    by (simp add: variance_ref_def mean_ref_def S_def[symmetric] n_def[symmetric])
  with lhs show ?thesis by simp
qed

lemma variance_ref_nonneg: "2 \<le> length xs \<Longrightarrow> 0 \<le> variance_ref xs"
  unfolding variance_ref_def by (intro divide_nonneg_nonneg sum_list_nonneg) auto

lemma variance_short: "length xs < 2 \<Longrightarrow> variance xs = Inl ZeroDivisionError"
  by (cases xs rule: remdups_adj.cases)
     (simp_all add: variance_def variance_sums_def variance_sums_eq)

text \<open>C32: the one-pass variance of \<open>tool.variance\<close> equals the two-pass sample
  variance from two samples on, and raises \<open>ZeroDivisionError\<close> below; the
  standard deviation is its square root.\<close>

theorem variance_spec:
  "variance xs = (if length xs < 2 then Inl ZeroDivisionError else Inr (variance_ref xs)) \<and>
   standartDeviation xs = (if length xs < 2 then Inl ZeroDivisionError else Inr (sqrt (variance_ref xs)))"
  by (simp add: variance_ok variance_short standartDeviation_def)

end
