(* ===== verification/CurveFitting.thy ===== *)
theory CurveFitting
  imports Statistics
begin

text \<open>
  Regression and interpolation, \<open>src/numerics/curveFitting.py\<close>. The running
  sums that \<open>LinearRegression.__compute\<close> stores in its attributes
  (\<open>_sumX\<close>, \<open>_sumY\<close>, \<open>_sumXY\<close>, \<open>_sumXSq\<close>, \<open>_sumYSq\<close>) form the record
  \<open>linreg\<close>; \<open>ExponentialRegression\<close>, whose \<open>__compute\<close> is the same code, is the
  record extended by its \<open>mode\<close>, so the one definition \<open>linreg_compute\<close> serves
  both. \<open>zip\<close> truncates to the shorter list, as Python's does, while \<open>_n\<close> is
  \<open>len(xValues)\<close>.
\<close>

section \<open>Linear regression\<close>

record linreg =
  lr_x :: "real list"
  lr_y :: "real list"
  lr_n :: nat
  lr_sumX :: real
  lr_sumY :: real
  lr_sumXY :: real
  lr_sumXSq :: real
  lr_sumYSq :: real

text \<open>\<open>__compute\<close>: the sums start at 0 and run over \<open>zip(xValues, yValues)\<close>.\<close>

definition linreg_compute :: "'a linreg_scheme \<Rightarrow> 'a linreg_scheme" where
  "linreg_compute s =
     (let (sX, sY, sXY, sXSq, sYSq) =
            fold (\<lambda>(itemX, itemY) (sX, sY, sXY, sXSq, sYSq).
                    (sX + itemX, sY + itemY, sXY + itemX * itemY, sXSq + itemX ^ 2, sYSq + itemY ^ 2))
              (zip (lr_x s) (lr_y s)) (0, 0, 0, 0, 0)
      in s\<lparr>lr_sumX := sX, lr_sumY := sY, lr_sumXY := sXY, lr_sumXSq := sXSq, lr_sumYSq := sYSq\<rparr>)"

definition LinearRegression :: "real list \<Rightarrow> real list \<Rightarrow> linreg" where
  "LinearRegression xValues yValues =
     linreg_compute \<lparr>lr_x = xValues, lr_y = yValues, lr_n = length xValues,
                     lr_sumX = 0, lr_sumY = 0, lr_sumXY = 0, lr_sumXSq = 0, lr_sumYSq = 0\<rparr>"

text \<open>\<open>results()\<close>: the slope \<open>a1\<close> and the intercept \<open>a0\<close>; the means are
  evaluated left to right, \<open>y\<close> first.\<close>

definition linreg_results :: "'a linreg_scheme \<Rightarrow> (real \<times> real) result" where
  "linreg_results s =
     (case py_div (real (lr_n s) * lr_sumXY s - lr_sumX s * lr_sumY s)
                  (real (lr_n s) * lr_sumXSq s - lr_sumX s ^ 2) of
        Inl e \<Rightarrow> Inl e
      | Inr a1 \<Rightarrow> (case arithmaticMean (lr_y s) of
          Inl e \<Rightarrow> Inl e
        | Inr my \<Rightarrow> (case arithmaticMean (lr_x s) of
            Inl e \<Rightarrow> Inl e
          | Inr mx \<Rightarrow> Inr (a1, my - a1 * mx))))"

text \<open>\<open>standartErrorEstimate()\<close>: the bases of the two \<open>** 0.5\<close> are never
  negative (see \<open>linreg_denominator\<close>), so they are \<open>sqrt\<close>.\<close>

definition standartErrorEstimate :: "linreg \<Rightarrow> real result" where
  "standartErrorEstimate s =
     (let r = real (lr_n s) * lr_sumXY s - lr_sumX s * lr_sumY s;
          dv = sqrt (real (lr_n s) * lr_sumXSq s - lr_sumX s ^ 2) *
                sqrt (real (lr_n s) * lr_sumYSq s - lr_sumY s ^ 2)
      in py_div r dv)"

section \<open>Exponential regression\<close>

record expreg = linreg +
  er_mode :: string

text \<open>Python's \<open>str.lower()\<close> on ASCII letters.\<close>

definition py_lower :: "string \<Rightarrow> string" where
  "py_lower s = map (\<lambda>c. let k = of_char c :: nat in if 65 \<le> k \<and> k \<le> 90 then char_of (k + 32) else c) s"

text \<open>\<open>__init__\<close> takes \<open>np.log\<close> of the samples. For a non-positive sample numpy
  returns \<open>-inf\<close> or \<open>nan\<close> with a warning, values \<open>real\<close> does not have; the
  theorems are stated for positive samples.\<close>

definition ExponentialRegression :: "real list \<Rightarrow> real list \<Rightarrow> string \<Rightarrow> expreg" where
  "ExponentialRegression xValues yValues mode =
     linreg_compute \<lparr>lr_x = xValues, lr_y = map ln yValues, lr_n = length xValues,
                     lr_sumX = 0, lr_sumY = 0, lr_sumXY = 0, lr_sumXSq = 0, lr_sumYSq = 0,
                     er_mode = py_lower mode\<rparr>"

definition expreg_results :: "expreg \<Rightarrow> (real \<times> real) result" where
  "expreg_results s =
     (case linreg_results s of
        Inl e \<Rightarrow> Inl e
      | Inr (a1, a0) \<Rightarrow> Inr (exp a0, if er_mode s = ''exp'' then a1 else exp a1))"

section \<open>Polynomial and multiple linear regression\<close>

text \<open>\<open>np.array(xValues)\<close> is one-dimensional for \<open>PolynomialRegression\<close> and
  two-dimensional (one row per variable) for \<open>MultipleLinearRegression\<close>; the
  code branches on \<open>ndim\<close> inside its loops.\<close>

datatype xvalues = XVec "real list" | XMat "real list list"

text \<open>The summands of \<open>A[i][j]\<close> and \<open>B[i]\<close> at data index \<open>l\<close> (lines 195-201 and
  208-214); \<open>xValues[i-1]\<close> with \<open>i = 0\<close> is the last row.\<close>

definition pr_term_A :: "xvalues \<Rightarrow> nat \<Rightarrow> nat \<Rightarrow> nat \<Rightarrow> real result" where
  "pr_term_A xv i j l =
     (case xv of
        XMat X \<Rightarrow>
          (if j > 0 then
             res_bind (py_get X (int i - 1)) (\<lambda>xi. res_bind (py_get xi (int l)) (\<lambda>a.
             res_bind (py_get X (int j - 1)) (\<lambda>xj. res_bind (py_get xj (int l)) (\<lambda>b. Inr (a * b)))))
           else res_bind (py_get X (int i - 1)) (\<lambda>xi. py_get xi (int l)))
      | XVec x \<Rightarrow> res_bind (py_get x (int l)) (\<lambda>a. Inr (a ^ (i + j))))"

definition pr_term_B :: "xvalues \<Rightarrow> real list \<Rightarrow> nat \<Rightarrow> nat \<Rightarrow> real result" where
  "pr_term_B xv y i l =
     (case xv of
        XMat X \<Rightarrow>
          (if i = 0 then py_get y (int l)
           else res_bind (py_get X (int i - 1)) (\<lambda>xi. res_bind (py_get xi (int l)) (\<lambda>a.
                res_bind (py_get y (int l)) (\<lambda>b. Inr (a * b)))))
      | XVec x \<Rightarrow> res_bind (py_get x (int l)) (\<lambda>a. res_bind (py_get y (int l)) (\<lambda>b. Inr (a ^ i * b))))"

text \<open>\<open>sum = 0; for l in range(self._n): sum += ...\<close>.\<close>

definition pr_sum :: "(nat \<Rightarrow> real result) \<Rightarrow> nat \<Rightarrow> real result" where
  "pr_sum t n = fold (\<lambda>l acc. res_bind acc (\<lambda>s. res_bind (t l) (\<lambda>v. Inr (s + v)))) [0..<n] (Inr 0)"

text \<open>\<open>for j in range(i+1)\<close>: both symmetric entries are written, and \<open>A[0][0]\<close>
  is then overwritten by \<open>n\<close>.\<close>

fun pr_cols :: "xvalues \<Rightarrow> nat \<Rightarrow> nat \<Rightarrow> nat \<Rightarrow> nat \<Rightarrow> table \<Rightarrow> table result" where
  "pr_cols xv n i j 0 A = Inr A"
| "pr_cols xv n i j (Suc r) A =
     res_bind (pr_sum (pr_term_A xv i j) n) (\<lambda>sum.
       let A1 = A(i := (A i)(j := sum));
           A2 = A1(j := (A1 j)(i := sum));
           A3 = (if i = 0 \<and> j = 0 then A2(i := (A2 i)(j := real n)) else A2)
       in pr_cols xv n i (Suc j) r A3)"

fun pr_rows :: "xvalues \<Rightarrow> real list \<Rightarrow> nat \<Rightarrow> nat \<Rightarrow> nat \<Rightarrow> table \<Rightarrow> (nat \<Rightarrow> real)
    \<Rightarrow> (table \<times> (nat \<Rightarrow> real)) result" where
  "pr_rows xv y n i 0 A B = Inr (A, B)"
| "pr_rows xv y n i (Suc r) A B =
     res_bind (pr_cols xv n i 0 (Suc i) A) (\<lambda>A'.
     res_bind (pr_sum (pr_term_B xv y i) n) (\<lambda>sumB.
       pr_rows xv y n (Suc i) r A' (B(i := sumB))))"

text \<open>\<open>__init__\<close> and \<open>__compute\<close> up to the normal equations \<open>A a = B\<close>, from
  the initial contents \<open>A0\<close>, \<open>B0\<close> of the two \<open>np.empty\<close> arrays. With too few
  data the constructor only prints, \<open>_a\<close> is never set and \<open>results()\<close> raises
  \<open>AttributeError\<close>: the value \<open>None\<close>. The solve
  \<open>np.matmul(B, np.linalg.inv(A))\<close> is a numpy library routine and is not
  modelled.\<close>

definition polyreg_system ::
  "table \<Rightarrow> (nat \<Rightarrow> real) \<Rightarrow> xvalues \<Rightarrow> real list \<Rightarrow> nat \<Rightarrow> (table \<times> (nat \<Rightarrow> real)) result option" where
  "polyreg_system A0 B0 xv y order =
     (let n = length y in if n < order + 1 then None else Some (pr_rows xv y n 0 (order + 1) A0 B0))"

definition PolynomialRegression ::
  "real list \<Rightarrow> real list \<Rightarrow> nat \<Rightarrow> (table \<times> (nat \<Rightarrow> real)) result option" where
  "PolynomialRegression xValues yValues order = polyreg_system (\<lambda>_ _. 0) (\<lambda>_. 0) (XVec xValues) yValues order"

text \<open>\<open>np.array(xValues)\<close> (line 178) of a list of rows: a two-dimensional array when
  all rows have the same length; ragged rows raise \<open>ValueError\<close> (numpy 1.24 and
  later); the empty list gives an empty one-dimensional array.\<close>

definition np_array_rows :: "real list list \<Rightarrow> xvalues result" where
  "np_array_rows X =
     (case X of
        [] \<Rightarrow> Inr (XVec [])
      | r # rs \<Rightarrow> if list_all (\<lambda>row. length row = length r) rs then Inr (XMat X) else Inl ValueError)"

definition MultipleLinearRegression ::
  "real list list \<Rightarrow> real list \<Rightarrow> (table \<times> (nat \<Rightarrow> real)) result option" where
  "MultipleLinearRegression xValues yValues =
     (case np_array_rows xValues of
        Inl e \<Rightarrow> Some (Inl e)
      | Inr xv \<Rightarrow> polyreg_system (\<lambda>_ _. 0) (\<lambda>_. 0) xv yValues 2)"

text \<open>The last line of \<open>__compute\<close>, \<open>self._a = np.matmul(self._B, np.linalg.inv(self._A))\<close>,
  and \<open>results()\<close>, which returns \<open>self._a\<close>. \<open>np.linalg.inv\<close> is a numpy routine, so
  the model takes it as a parameter \<open>linalg_inv\<close>: \<open>linalg_inv n A\<close> is the
  inverse of the leading \<open>n \<times> n\<close> block of \<open>A\<close>, or \<open>None\<close> where numpy raises
  \<open>LinAlgError\<close> (a singular matrix). \<open>np.matmul\<close> of the vector \<open>B\<close> with a matrix
  is the row-vector product \<open>np_vecmat\<close>. When the constructor never ran
  \<open>__compute\<close>, \<open>results()\<close> reads the unset \<open>self._a\<close>: \<open>AttributeError\<close>.\<close>

definition np_vecmat :: "(nat \<Rightarrow> real) \<Rightarrow> table \<Rightarrow> nat \<Rightarrow> real list" where
  "np_vecmat B M n = map (\<lambda>j. \<Sum>i<n. B i * M i j) [0..<n]"

definition polyreg_results ::
  "(nat \<Rightarrow> table \<Rightarrow> table option) \<Rightarrow> (table \<times> (nat \<Rightarrow> real)) result option \<Rightarrow> nat \<Rightarrow> real list result" where
  "polyreg_results linalg_inv sys order =
     (case sys of
        None \<Rightarrow> Inl AttributeError
      | Some (Inl e) \<Rightarrow> Inl e
      | Some (Inr (A, B)) \<Rightarrow>
          (case linalg_inv (Suc order) A of None \<Rightarrow> Inl LinAlgError | Some M \<Rightarrow> Inr (np_vecmat B M (Suc order))))"

definition PolynomialRegression_results ::
  "(nat \<Rightarrow> table \<Rightarrow> table option) \<Rightarrow> real list \<Rightarrow> real list \<Rightarrow> nat \<Rightarrow> real list result" where
  "PolynomialRegression_results linalg_inv xValues yValues order =
     polyreg_results linalg_inv (PolynomialRegression xValues yValues order) order"

text \<open>numpy's contract for \<open>np.linalg.inv\<close>: a returned matrix is a right inverse,
  \<open>dot(a, ainv) = eye(n)\<close>.\<close>

definition inv_contract :: "(nat \<Rightarrow> table \<Rightarrow> table option) \<Rightarrow> bool" where
  "inv_contract linalg_inv \<longleftrightarrow>
     (\<forall>n A M. linalg_inv n A = Some M \<longrightarrow> (\<forall>i<n. \<forall>j<n. (\<Sum>k<n. A i k * M k j) = (if i = j then 1 else 0)))"

definition MultipleLinearRegression_results ::
  "(nat \<Rightarrow> table \<Rightarrow> table option) \<Rightarrow> real list list \<Rightarrow> real list \<Rightarrow> real list result" where
  "MultipleLinearRegression_results linalg_inv xValues yValues =
     polyreg_results linalg_inv (MultipleLinearRegression xValues yValues) 2"

text \<open>An inverse function that knows one matrix, \<open>[[3, 3], [3, 5]]\<close>, used in the
  examples below.\<close>

definition inv_2x2_example :: "nat \<Rightarrow> table \<Rightarrow> table option" where
  "inv_2x2_example n A =
     (if n = 2 \<and> A 0 0 = 3 \<and> A 0 1 = 3 \<and> A 1 0 = 3 \<and> A 1 1 = 5
      then Some (\<lambda>i j. if i = 0 then (if j = 0 then 5 / 6 else - 1 / 2) else (if j = 0 then - 1 / 2 else 1 / 2))
      else None)"

section \<open>Interpolation\<close>

text \<open>\<open>LinearInterpolation\<close>: \<open>res = func(pt1) + (func(pt2) - func(pt1))\<close>, then
  \<open>res /= (pt2 - pt1) * (value - pt1)\<close>.\<close>

definition LinearInterpolation :: "real \<Rightarrow> real \<Rightarrow> real \<Rightarrow> fun1 \<Rightarrow> real result" where
  "LinearInterpolation pt1 pt2 value func =
     (let res = func pt1 + (func pt2 - func pt1) in py_div res ((pt2 - pt1) * (value - pt1)))"

text \<open>\<open>LinearSplines\<close>: \<open>for item in reversed(x)\<close>, the first \<open>item < value\<close> selects
  the segment starting at \<open>ind = x.index(item)\<close>; when no item is below \<open>value\<close>
  the function falls off its end and returns \<open>None\<close>.\<close>

fun spline_scan :: "real list \<Rightarrow> real list \<Rightarrow> real \<Rightarrow> real list \<Rightarrow> real option result" where
  "spline_scan x y value [] = Inr None"
| "spline_scan x y value (item # items) =
     (if item < value then
        (case py_index x item of
           Inl e \<Rightarrow> Inl e
         | Inr ind \<Rightarrow>
             (case (py_get y (int ind + 1), py_get y (int ind), py_get x (int ind + 1), py_get x (int ind)) of
                (Inr y1, Inr y0, Inr x1, Inr x0) \<Rightarrow>
                  (case py_div (y1 - y0) (x1 - x0) of
                     Inl e \<Rightarrow> Inl e
                   | Inr m \<Rightarrow> Inr (Some (y0 + m * (value - x0))))
              | (Inl e, _, _, _) \<Rightarrow> Inl e
              | (_, Inl e, _, _) \<Rightarrow> Inl e
              | (_, _, Inl e, _) \<Rightarrow> Inl e
              | (_, _, _, Inl e) \<Rightarrow> Inl e))
      else spline_scan x y value items)"

definition LinearSplines :: "real list \<Rightarrow> real list \<Rightarrow> real \<Rightarrow> real option result" where
  "LinearSplines x y value = spline_scan x y value (rev x)"

text \<open>\<open>NewtonPolynomialInterpolation\<close>: the divided-difference table \<open>fdd\<close>
  (\<open>np.empty((order, order))\<close>, a \<open>table\<close> with arbitrary initial contents),
  filled column 0 from \<open>y\<close> and then column \<open>j\<close> for \<open>i < order - j\<close>; the
  loop counters \<open>r\<close> count the iterations left.\<close>

fun ndd_col0 :: "real list \<Rightarrow> nat \<Rightarrow> nat \<Rightarrow> table \<Rightarrow> table result" where
  "ndd_col0 y i 0 F = Inr F"
| "ndd_col0 y i (Suc r) F =
     (case py_get y (int i) of Inl e \<Rightarrow> Inl e | Inr v \<Rightarrow> ndd_col0 y (Suc i) r (F(i := (F i)(0 := v))))"

fun ndd_col :: "real list \<Rightarrow> nat \<Rightarrow> nat \<Rightarrow> nat \<Rightarrow> table \<Rightarrow> table result" where
  "ndd_col x j i 0 F = Inr F"
| "ndd_col x j i (Suc r) F =
     (case (py_get x (int (i + j)), py_get x (int i)) of
        (Inr a, Inr b) \<Rightarrow>
          (case py_div (F (i + 1) (j - 1) - F i (j - 1)) (a - b) of
             Inl e \<Rightarrow> Inl e
           | Inr q \<Rightarrow> ndd_col x j (Suc i) r (F(i := (F i)(j := q))))
      | (Inl e, _) \<Rightarrow> Inl e
      | (_, Inl e) \<Rightarrow> Inl e)"

fun ndd_table :: "real list \<Rightarrow> nat \<Rightarrow> nat \<Rightarrow> nat \<Rightarrow> table \<Rightarrow> table result" where
  "ndd_table x order j 0 F = Inr F"
| "ndd_table x order j (Suc r) F =
     (case ndd_col x j 0 (order - j) F of Inl e \<Rightarrow> Inl e | Inr F' \<Rightarrow> ndd_table x order (Suc j) r F')"

text \<open>The evaluation loop \<open>for ord in range(1, order)\<close>: \<open>yint\<close> is the list of
  partial sums and \<open>ea\<close> (\<open>np.empty((order, 1))\<close>, arbitrary contents \<open>E\<close>) the
  differences of successive partial sums, written at \<open>ord - 1\<close>.\<close>

fun newton_terms ::
  "table \<Rightarrow> real list \<Rightarrow> real \<Rightarrow> nat \<Rightarrow> nat \<Rightarrow> real \<Rightarrow> real list \<Rightarrow> (nat \<Rightarrow> real)
   \<Rightarrow> (real list \<times> (nat \<Rightarrow> real)) result" where
  "newton_terms F x value ord 0 xterm yint E = Inr (yint, E)"
| "newton_terms F x value ord (Suc r) xterm yint E =
     (case py_get x (int ord - 1) of
        Inl e \<Rightarrow> Inl e
      | Inr xo \<Rightarrow>
          (let xterm' = xterm * (value - xo);
               yint2 = yint ! (ord - 1) + F 0 ord * xterm'
           in newton_terms F x value (Suc ord) r xterm' (yint @ [yint2])
                (E(ord - 1 := yint2 - yint ! (ord - 1)))))"

text \<open>The method from given initial contents of its two \<open>np.empty\<close> arrays: a
  negative \<open>order\<close> is \<open>ValueError\<close> in \<open>np.empty\<close>, \<open>order = 0\<close> an \<open>IndexError\<close> at
  \<open>fdd[0][0]\<close>; the result is \<open>(yint[-1], ea[-1])\<close>.\<close>

definition newton_interp_from ::
  "table \<Rightarrow> (nat \<Rightarrow> real) \<Rightarrow> real list \<Rightarrow> real list \<Rightarrow> real \<Rightarrow> int \<Rightarrow> (real \<times> real) result" where
  "newton_interp_from F0 E0 x y value order =
     (if order < 0 then Inl ValueError
      else let n = nat order in
        case ndd_col0 y 0 n F0 of
          Inl e \<Rightarrow> Inl e
        | Inr F1 \<Rightarrow> (case ndd_table x n 1 (n - 1) F1 of
            Inl e \<Rightarrow> Inl e
          | Inr F \<Rightarrow>
              if n = 0 then Inl IndexError
              else (case newton_terms F x value 1 (n - 1) 1 [F 0 0] E0 of
                      Inl e \<Rightarrow> Inl e
                    | Inr (yint, E) \<Rightarrow> Inr (last yint, E (n - 1)))))"

definition NewtonPolynomialInterpolation :: "real list \<Rightarrow> real list \<Rightarrow> real \<Rightarrow> int \<Rightarrow> (real \<times> real) result" where
  "NewtonPolynomialInterpolation x y value order = newton_interp_from (\<lambda>_ _. 0) (\<lambda>_. 0) x y value order"

section \<open>Lemmas\<close>

lemma linreg_fold:
  "fold (\<lambda>(itemX, itemY) (sX, sY, sXY, sXSq, sYSq).
          (sX + itemX, sY + itemY, sXY + itemX * itemY, sXSq + itemX ^ 2, sYSq + itemY ^ 2)) ps (a, b, c, d, e) =
   (a + sum_list (map fst ps), b + sum_list (map snd ps), c + sum_list (map (\<lambda>(u, v). u * v) ps),
    d + sum_list (map (\<lambda>(u, v). u ^ 2) ps), e + sum_list (map (\<lambda>(u, v). v ^ 2) ps))"
  by (induction ps arbitrary: a b c d e) (auto simp: algebra_simps)

lemma map_zip_fst_snd:
  "length ys = length xs \<Longrightarrow> map (\<lambda>(u, v). f u) (zip xs ys) = map f xs"
  "length ys = length xs \<Longrightarrow> map (\<lambda>(u, v). g v) (zip xs ys) = map g ys"
proof -
  assume len: "length ys = length xs"
  have "map (\<lambda>(u, v). f u) (zip xs ys) = map f (map fst (zip xs ys))" by (simp add: case_prod_beta)
  then show "map (\<lambda>(u, v). f u) (zip xs ys) = map f xs" using len by simp
  have "map (\<lambda>(u, v). g v) (zip xs ys) = map g (map snd (zip xs ys))" by (simp add: case_prod_beta)
  then show "map (\<lambda>(u, v). g v) (zip xs ys) = map g ys" using len by simp
qed

lemma linreg_compute_sums:
  "length (lr_y s) = length (lr_x s) \<Longrightarrow>
   lr_sumX (linreg_compute s) = sum_list (lr_x s) \<and> lr_sumY (linreg_compute s) = sum_list (lr_y s) \<and>
   lr_sumXY (linreg_compute s) = sum_list (map (\<lambda>(u, v). u * v) (zip (lr_x s) (lr_y s))) \<and>
   lr_sumXSq (linreg_compute s) = sum_list (map (\<lambda>u. u ^ 2) (lr_x s)) \<and>
   lr_sumYSq (linreg_compute s) = sum_list (map (\<lambda>v. v ^ 2) (lr_y s)) \<and>
   lr_x (linreg_compute s) = lr_x s \<and> lr_y (linreg_compute s) = lr_y s \<and> lr_n (linreg_compute s) = lr_n s"
  by (simp add: linreg_compute_def linreg_fold map_zip_fst_snd)

lemma sum_list_quadratic:
  "sum_list (map (\<lambda>a. p - 2 * a * q + r * a ^ 2) xs) =
   real (length xs) * p - 2 * q * sum_list xs + r * sum_list (map (\<lambda>a. a ^ 2) xs)"
  by (induction xs) (simp_all add: algebra_simps)

text \<open>The denominator \<open>n \<Sigma>x\<^sup>2 - (\<Sigma>x)\<^sup>2\<close> is half the sum of all squared
  pairwise differences (Lagrange's identity).\<close>

lemma linreg_denominator:
  "real (length xs) * sum_list (map (\<lambda>u. u ^ 2) xs) - sum_list xs ^ 2 =
   sum_list (map (\<lambda>a. sum_list (map (\<lambda>b. (a - b) ^ 2) xs)) xs) / 2"
proof -
  have "sum_list (map (\<lambda>a. sum_list (map (\<lambda>b. (a - b) ^ 2) xs)) xs) =
        sum_list (map (\<lambda>a. sum_list (map (\<lambda>b. b ^ 2) xs) - 2 * a * sum_list xs + real (length xs) * a ^ 2) xs)"
    by (simp add: sum_sq_dev[of _ xs, symmetric] power2_commute)
  also have "\<dots> = 2 * (real (length xs) * sum_list (map (\<lambda>u. u ^ 2) xs) - sum_list xs ^ 2)"
    by (simp only: sum_list_quadratic) (simp add: power2_eq_square algebra_simps)
  finally show ?thesis by simp
qed

lemma linreg_denominator_pos:
  assumes "a \<in> set xs" "b \<in> set xs" "a \<noteq> b"
  shows "0 < real (length xs) * sum_list (map (\<lambda>u. u ^ 2) xs) - sum_list xs ^ 2"
proof -
  have "0 < sum_list (map (\<lambda>b'. (a - b') ^ 2) xs)"
  proof -
    have "(a - b) ^ 2 \<le> sum_list (map (\<lambda>b'. (a - b') ^ 2) xs)"
      using assms(2) by (intro member_le_sum_list) auto
    moreover have "0 < (a - b) ^ 2" using assms(3) by simp
    ultimately show ?thesis by linarith
  qed
  also have "\<dots> \<le> sum_list (map (\<lambda>a. sum_list (map (\<lambda>b. (a - b) ^ 2) xs)) xs)"
    using assms(1) by (intro member_le_sum_list) (auto intro!: sum_list_nonneg)
  finally show ?thesis by (simp only: linreg_denominator)
qed

lemma linreg_results_eq:
  assumes len: "length (lr_y s) = length (lr_x s)" "lr_n s = length (lr_x s)"
    and D: "real (length (lr_x s)) * sum_list (map (\<lambda>u. u ^ 2) (lr_x s)) - sum_list (lr_x s) ^ 2 \<noteq> 0"
  shows "linreg_results (linreg_compute s) =
    Inr ((real (length (lr_x s)) * sum_list (map (\<lambda>(u, v). u * v) (zip (lr_x s) (lr_y s))) -
          sum_list (lr_x s) * sum_list (lr_y s)) /
         (real (length (lr_x s)) * sum_list (map (\<lambda>u. u ^ 2) (lr_x s)) - sum_list (lr_x s) ^ 2),
         mean_ref (lr_y s) -
         (real (length (lr_x s)) * sum_list (map (\<lambda>(u, v). u * v) (zip (lr_x s) (lr_y s))) -
          sum_list (lr_x s) * sum_list (lr_y s)) /
         (real (length (lr_x s)) * sum_list (map (\<lambda>u. u ^ 2) (lr_x s)) - sum_list (lr_x s) ^ 2) *
         mean_ref (lr_x s))"
proof -
  have ne: "lr_x s \<noteq> []" using D by auto
  then have ney: "lr_y s \<noteq> []" using len(1) by auto
  show ?thesis
    using linreg_compute_sums[OF len(1)] D ne ney len(2)
    by (simp add: linreg_results_def arithmaticMean_ok)
qed

lemma zip_map_same: "map (\<lambda>(u, v). u * v) (zip xs (map f xs)) = map (\<lambda>u. u * f u) xs"
  by (induction xs) simp_all

lemma sum_list_line:
  "sum_list (map (\<lambda>u. c0 + c1 * u) xs) = real (length xs) * c0 + c1 * sum_list xs"
  "sum_list (map (\<lambda>u. u * (c0 + c1 * u)) xs) = c0 * sum_list xs + c1 * sum_list (map (\<lambda>u. u ^ 2) xs)"
  "sum_list (map (\<lambda>u. (c0 + c1 * u) ^ 2) xs) =
     real (length xs) * c0 ^ 2 + 2 * c0 * c1 * sum_list xs + c1 ^ 2 * sum_list (map (\<lambda>u. u ^ 2) xs)"
  by (induction xs) (simp_all add: algebra_simps power2_eq_square)

text \<open>C33: with as many y values as x values and two distinct x values, \<open>LinearRegression.results()\<close>
  returns a slope and an intercept that solve the least-squares normal equations.\<close>

theorem LinearRegression_normal_equations:
  assumes "length y = length x" "a \<in> set x" "b \<in> set x" "a \<noteq> b"
  shows "\<exists>a1 a0. linreg_results (LinearRegression x y) = Inr (a1, a0) \<and>
           real (length x) * a0 + a1 * sum_list x = sum_list y \<and>
           a0 * sum_list x + a1 * sum_list (map (\<lambda>u. u ^ 2) x) = sum_list (map (\<lambda>(u, v). u * v) (zip x y))"
proof -
  define n where "n = real (length x)"
  define Sx where "Sx = sum_list x"
  define Sy where "Sy = sum_list y"
  define Sxx where "Sxx = sum_list (map (\<lambda>u. u ^ 2) x)"
  define Sxy where "Sxy = sum_list (map (\<lambda>(u, v). u * v) (zip x y))"
  have D: "n * Sxx - Sx ^ 2 \<noteq> 0"
    using linreg_denominator_pos[OF assms(2-4)] by (simp add: n_def Sxx_def Sx_def)
  have n0: "n \<noteq> 0" using assms(2) by (auto simp: n_def)
  have ny: "real (length y) = n" using assms(1) by (simp add: n_def)
  define a1 where "a1 = (n * Sxy - Sx * Sy) / (n * Sxx - Sx ^ 2)"
  have r: "linreg_results (LinearRegression x y) = Inr (a1, Sy / n - a1 * (Sx / n))"
    using linreg_results_eq[of "\<lparr>lr_x = x, lr_y = y, lr_n = length x, lr_sumX = 0, lr_sumY = 0,
        lr_sumXY = 0, lr_sumXSq = 0, lr_sumYSq = 0\<rparr>"] assms(1) D
    by (simp add: LinearRegression_def mean_ref_def ny n_def[symmetric] Sx_def[symmetric]
        Sy_def[symmetric] Sxx_def[symmetric] Sxy_def[symmetric] a1_def)
  have q1: "n * (Sy / n - a1 * (Sx / n)) + a1 * Sx = Sy"
    using n0 by (simp add: field_simps)
  have "(Sy / n - a1 * (Sx / n)) * Sx + a1 * Sxx = (Sx * Sy + a1 * (n * Sxx - Sx ^ 2)) / n"
    using n0 by (simp add: field_simps power2_eq_square)
  also have "a1 * (n * Sxx - Sx ^ 2) = n * Sxy - Sx * Sy" using D by (simp add: a1_def)
  finally have q2: "(Sy / n - a1 * (Sx / n)) * Sx + a1 * Sxx = Sxy" using n0 by simp
  have "\<exists>a1 a0. linreg_results (LinearRegression x y) = Inr (a1, a0) \<and>
          n * a0 + a1 * Sx = Sy \<and> a0 * Sx + a1 * Sxx = Sxy"
    using r q1 q2 by blast
  then show ?thesis by (simp only: n_def Sx_def Sy_def Sxx_def Sxy_def)
qed

lemma linreg_line:
  assumes "a \<in> set (lr_x s)" "b \<in> set (lr_x s)" "a \<noteq> b"
    and y: "lr_y s = map (\<lambda>u. c0 + c1 * u) (lr_x s)" and n: "lr_n s = length (lr_x s)"
  shows "linreg_results (linreg_compute s) = Inr (c1, c0)"
proof -
  define x where "x = lr_x s"
  define N where "N = real (length x)"
  define Sx where "Sx = sum_list x"
  define Sxx where "Sxx = sum_list (map (\<lambda>u. u ^ 2) x)"
  have D: "N * Sxx - Sx ^ 2 \<noteq> 0"
    using linreg_denominator_pos[OF assms(1-3)] by (simp add: N_def Sxx_def Sx_def x_def)
  have N0: "N \<noteq> 0" using assms(1) by (auto simp: N_def x_def)
  have len: "length (lr_y s) = length (lr_x s)" using y by simp
  have sy: "sum_list (lr_y s) = N * c0 + c1 * Sx"
    by (simp add: y sum_list_line N_def Sx_def x_def)
  have sxy: "sum_list (map (\<lambda>(u, v). u * v) (zip x (lr_y s))) = c0 * Sx + c1 * Sxx"
    by (simp add: y zip_map_same sum_list_line Sx_def Sxx_def x_def)
  have slope: "(N * (c0 * Sx + c1 * Sxx) - Sx * (N * c0 + c1 * Sx)) / (N * Sxx - Sx ^ 2) = c1"
  proof -
    have "N * (c0 * Sx + c1 * Sxx) - Sx * (N * c0 + c1 * Sx) = c1 * (N * Sxx - Sx ^ 2)"
      by (simp add: algebra_simps power2_eq_square)
    then show ?thesis using D by simp
  qed
  have icpt: "(N * c0 + c1 * Sx) / N - c1 * (Sx / N) = c0" using N0 by (simp add: field_simps)
  have D0: "real (length (lr_x s)) * sum_list (map (\<lambda>u. u ^ 2) (lr_x s)) - sum_list (lr_x s) ^ 2 \<noteq> 0"
    using D by (simp add: N_def Sx_def Sxx_def x_def)
  have my: "mean_ref (lr_y s) = (N * c0 + c1 * Sx) / N"
    by (simp only: mean_ref_def sy len x_def[symmetric] N_def[symmetric])
  have mx: "mean_ref x = Sx / N"
    by (simp only: mean_ref_def N_def[symmetric] Sx_def[symmetric])
  from linreg_results_eq[OF len n D0]
  have "linreg_results (linreg_compute s) =
      Inr ((N * (c0 * Sx + c1 * Sxx) - Sx * (N * c0 + c1 * Sx)) / (N * Sxx - Sx ^ 2),
           (N * c0 + c1 * Sx) / N - (N * (c0 * Sx + c1 * Sxx) - Sx * (N * c0 + c1 * Sx)) / (N * Sxx - Sx ^ 2) * (Sx / N))"
    by (simp only: my mx sy sxy x_def[symmetric] N_def[symmetric] Sx_def[symmetric] Sxx_def[symmetric])
  then show ?thesis by (simp only: slope icpt)
qed

lemma spline_scan_skip:
  "\<forall>item \<in> set items. \<not> item < value \<Longrightarrow> spline_scan x y value (items @ rest) = spline_scan x y value rest"
  by (induction items) simp_all

lemma py_get_nat [simp]: "i < length xs \<Longrightarrow> py_get xs (int i) = Inr (xs ! i)"
  by (simp add: py_get_def)

lemma LinearSplines_node:
  assumes sorted: "sorted_wrt (<) x" and len: "length y = length x"
    and k: "0 < k" "k < length x"
  shows "LinearSplines x y (x ! k) = Inr (Some (y ! k))"
proof -
  obtain j where j: "k = Suc j" using k(1) by (cases k) auto
  have jl: "j < length x" using j k(2) by simp
  have lt: "x ! j < x ! k" using sorted jl k(2) j by (simp add: sorted_wrt_iff_nth_less)
  have rev_split: "rev x = rev (drop k x) @ x ! j # rev (take j x)"
  proof -
    have "x = take j x @ [x ! j] @ drop k x"
      using jl j by (simp add: id_take_nth_drop[symmetric])
    then show ?thesis by (metis rev.simps(2) rev_append append_assoc rev_singleton_conv append_Cons append.left_neutral)
  qed
  have skip: "\<forall>item \<in> set (rev (drop k x)). \<not> item < x ! k"
  proof
    fix item assume "item \<in> set (rev (drop k x))"
    then obtain i where "i < length (drop k x)" "item = drop k x ! i" by (auto simp: in_set_conv_nth)
    then have it: "item = x ! (k + i)" and kl: "k + i < length x" by auto
    show "\<not> item < x ! k"
    proof (cases i)
      case 0
      then show ?thesis using it by simp
    next
      case (Suc m)
      then have "x ! k < x ! (k + i)" using sorted_wrt_nth_less[OF sorted _ kl, of k] by simp
      then show ?thesis using it by simp
    qed
  qed
  have notin: "x ! j \<notin> set (take j x)"
  proof
    assume "x ! j \<in> set (take j x)"
    then obtain i where ij: "i < j" and eq: "x ! i = x ! j" using jl by (auto simp: in_set_conv_nth)
    have "x ! i < x ! j" using sorted_wrt_nth_less[OF sorted ij jl] .
    then show False using eq by simp
  qed
  have idx: "py_index x (x ! j) = Inr j" using jl notin by simp
  have geti: "py_get y (int j + 1) = Inr (y ! k)" "py_get x (int j + 1) = Inr (x ! k)"
    using py_get_nat[of k y] py_get_nat[of k x] len k(2) j by (simp_all add: add.commute)
  have nz: "x ! k - x ! j \<noteq> 0" using lt by simp
  have "y ! j + (y ! k - y ! j) / (x ! k - x ! j) * (x ! k - x ! j) = y ! k" using nz by simp
  then show ?thesis
    using jl len lt nz
    by (simp add: LinearSplines_def rev_split spline_scan_skip[OF skip] idx geti)
qed

lemma newton_interp_3:
  assumes "distinct [x0, x1, x2]"
  shows "newton_interp_from F0 E0 [x0, x1, x2] [y0, y1, y2] v 3 =
    Inr (y0 + (y1 - y0) / (x1 - x0) * (v - x0) +
         ((y2 - y1) / (x2 - x1) - (y1 - y0) / (x1 - x0)) / (x2 - x0) * ((v - x0) * (v - x1)), E0 2)"
  using assms by (simp add: newton_interp_from_def py_get_def numeral_eq_Suc Let_def)

lemma newton_quadratic_terms:
  fixes x0 x1 x2 :: real
  assumes "distinct [x0, x1, x2]"
  shows "cubic c0 c1 c2 0 x0 + (cubic c0 c1 c2 0 x1 - cubic c0 c1 c2 0 x0) / (x1 - x0) * (v - x0) +
         ((cubic c0 c1 c2 0 x2 - cubic c0 c1 c2 0 x1) / (x2 - x1) -
          (cubic c0 c1 c2 0 x1 - cubic c0 c1 c2 0 x0) / (x1 - x0)) / (x2 - x0) * ((v - x0) * (v - x1)) =
         cubic c0 c1 c2 0 v"
proof -
  have a: "(cubic c0 c1 c2 0 x1 - cubic c0 c1 c2 0 x0) / (x1 - x0) = c1 + c2 * (x0 + x1)"
    using assms(1) by (simp add: cubic_def field_simps power2_eq_square)
  have b: "(cubic c0 c1 c2 0 x2 - cubic c0 c1 c2 0 x1) / (x2 - x1) = c1 + c2 * (x1 + x2)"
    using assms(1) by (simp add: cubic_def field_simps power2_eq_square)
  have c: "(c1 + c2 * (x1 + x2) - (c1 + c2 * (x0 + x1))) / (x2 - x0) = c2"
    using assms(1) by (simp add: field_simps)
  show ?thesis
    by (simp only: a b c) (simp add: cubic_def power2_eq_square algebra_simps)
qed

lemma linreg_line_sums:
  assumes y: "lr_y s = map (\<lambda>u. c0 + c1 * u) (lr_x s)"
  shows "real (length (lr_x s)) * sum_list (map (\<lambda>(u, v). u * v) (zip (lr_x s) (lr_y s))) -
           sum_list (lr_x s) * sum_list (lr_y s) =
         c1 * (real (length (lr_x s)) * sum_list (map (\<lambda>u. u ^ 2) (lr_x s)) - sum_list (lr_x s) ^ 2)"
    "real (length (lr_x s)) * sum_list (map (\<lambda>v. v ^ 2) (lr_y s)) - sum_list (lr_y s) ^ 2 =
         c1 ^ 2 * (real (length (lr_x s)) * sum_list (map (\<lambda>u. u ^ 2) (lr_x s)) - sum_list (lr_x s) ^ 2)"
  by (simp_all only: y zip_map_same map_map o_def sum_list_line length_map)
    (simp_all add: algebra_simps power2_eq_square)

text \<open>C34: on data lying on a line \<open>c0 + c1 x\<close> (two distinct x values),
  \<open>standartErrorEstimate()\<close> returns the sign of the slope (the correlation
  coefficient \<open>r = \<plusminus>1\<close>, not a standard error of the estimate) and raises
  \<open>ZeroDivisionError\<close> on a horizontal line.\<close>

theorem LinearRegression_line_correlation:
  assumes "a \<in> set x" "b \<in> set x" "a \<noteq> b"
  shows "standartErrorEstimate (LinearRegression x (map (\<lambda>u. c0 + c1 * u) x)) =
           (if c1 = 0 then Inl ZeroDivisionError else Inr (sgn c1))"
proof -
  define s where "s = \<lparr>lr_x = x, lr_y = map (\<lambda>u. c0 + c1 * u) x, lr_n = length x,
      lr_sumX = 0, lr_sumY = 0, lr_sumXY = 0, lr_sumXSq = 0, lr_sumYSq = 0\<rparr>"
  define D where "D = real (length x) * sum_list (map (\<lambda>u. u ^ 2) x) - sum_list x ^ 2"
  have D: "0 < D" using linreg_denominator_pos[OF assms] by (simp add: D_def)
  have y: "lr_y s = map (\<lambda>u. c0 + c1 * u) (lr_x s)" by (simp add: s_def)
  have len: "length (lr_y s) = length (lr_x s)" by (simp add: s_def)
  note sums = linreg_compute_sums[OF len] linreg_line_sums[OF y]
  have "standartErrorEstimate (LinearRegression x (map (\<lambda>u. c0 + c1 * u) x)) =
          py_div (c1 * D) (sqrt D * sqrt (c1 ^ 2 * D))"
    using sums by (simp add: standartErrorEstimate_def LinearRegression_def s_def[symmetric] D_def)
      (simp add: s_def)
  also have "sqrt (c1 ^ 2 * D) = \<bar>c1\<bar> * sqrt D" by (simp add: real_sqrt_mult)
  finally show ?thesis
    using D by (auto simp: py_div_def sgn_if)
qed


text \<open>C35: on samples \<open>A exp(B x)\<close> with \<open>A > 0\<close> and two distinct x values,
  \<open>ExponentialRegression\<close> recovers \<open>(A, B)\<close> when the lower-cased mode is
  \<open>exp\<close> and \<open>(A, exp B)\<close> (the base of \<open>A B^x\<close>) for any other mode.\<close>

theorem ExponentialRegression_exact:
  assumes "a \<in> set x" "b \<in> set x" "a \<noteq> b" "0 < A"
  shows "expreg_results (ExponentialRegression x (map (\<lambda>u. A * exp (B * u)) x) mode) =
           Inr (A, if py_lower mode = ''exp'' then B else exp B)"
proof -
  define s where "s = \<lparr>lr_x = x, lr_y = map ln (map (\<lambda>u. A * exp (B * u)) x), lr_n = length x,
      lr_sumX = 0, lr_sumY = 0, lr_sumXY = 0, lr_sumXSq = 0, lr_sumYSq = 0, er_mode = py_lower mode\<rparr>"
  have y: "lr_y s = map (\<lambda>u. ln A + B * u) (lr_x s)"
    using assms(4) by (simp add: s_def ln_mult)
  have "linreg_results (linreg_compute s) = Inr (B, ln A)"
    by (rule linreg_line[OF _ _ assms(3) y]) (simp_all add: s_def assms(1,2))
  moreover have "er_mode (linreg_compute s) = py_lower mode"
    by (simp add: linreg_compute_def s_def split: prod.split)
  moreover have "ExponentialRegression x (map (\<lambda>u. A * exp (B * u)) x) mode = linreg_compute s"
    by (simp add: ExponentialRegression_def s_def)
  ultimately show ?thesis
    using assms(4) by (simp add: expreg_results_def)
qed

lemma pr_sum_Suc: "pr_sum t (Suc n) = res_bind (pr_sum t n) (\<lambda>s. res_bind (t n) (\<lambda>v. Inr (s + v)))"
  by (simp add: pr_sum_def)

lemma pr_sum_ok: "\<forall>l<n. t l = Inr (g l) \<Longrightarrow> pr_sum t n = Inr (\<Sum>l<n. g l)"
  by (induction n) (simp_all add: pr_sum_def[of t 0] pr_sum_Suc)

lemma pr_cols_ok:
  "\<forall>j'. j \<le> j' \<longrightarrow> j' < j + r \<longrightarrow> pr_sum (pr_term_A xv i j') n = Inr (s j') \<Longrightarrow>
   pr_cols xv n i j r A =
     Inr (\<lambda>a b. if a = i \<and> j \<le> b \<and> b < j + r then (if i = 0 \<and> b = 0 then real n else s b)
                else if b = i \<and> j \<le> a \<and> a < j + r then (if i = 0 \<and> a = 0 then real n else s a)
                else A a b)"
proof (induction r arbitrary: j A)
  case 0
  then show ?case by (simp add: fun_eq_iff)
next
  case (Suc r)
  have sj: "pr_sum (pr_term_A xv i j) n = Inr (s j)" using Suc.prems by simp
  have hyp: "\<forall>j'. Suc j \<le> j' \<longrightarrow> j' < Suc j + r \<longrightarrow> pr_sum (pr_term_A xv i j') n = Inr (s j')"
    using Suc.prems by simp
  show ?case
    by (simp add: sj Suc.IH[OF hyp] Let_def) (auto simp: fun_eq_iff)
qed


lemma pr_rows_ok:
  "\<forall>i'. i \<le> i' \<longrightarrow> i' < i + r \<longrightarrow>
      (\<forall>j' \<le> i'. pr_sum (pr_term_A xv i' j') n = Inr (sA i' j')) \<and> pr_sum (pr_term_B xv y i') n = Inr (sB i') \<Longrightarrow>
   pr_rows xv y n i r A B =
     Inr (\<lambda>a b. if i \<le> max a b \<and> max a b < i + r
                then (if a = 0 \<and> b = 0 then real n else if b \<le> a then sA a b else sA b a) else A a b,
          \<lambda>k. if i \<le> k \<and> k < i + r then sB k else B k)"
proof (induction r arbitrary: i A B)
  case 0
  then show ?case by (simp add: fun_eq_iff)
next
  case (Suc r)
  have row: "\<forall>j'. 0 \<le> j' \<longrightarrow> j' < 0 + Suc i \<longrightarrow> pr_sum (pr_term_A xv i j') n = Inr (sA i j')"
    and sB: "pr_sum (pr_term_B xv y i) n = Inr (sB i)"
    using Suc.prems by auto
  have hyp: "\<forall>i'. Suc i \<le> i' \<longrightarrow> i' < Suc i + r \<longrightarrow>
      (\<forall>j' \<le> i'. pr_sum (pr_term_A xv i' j') n = Inr (sA i' j')) \<and> pr_sum (pr_term_B xv y i') n = Inr (sB i')"
    using Suc.prems by simp
  show ?case
    by (simp only: pr_rows.simps pr_cols_ok[OF row, simplified add_0] res_bind_simps sB Suc.IH[OF hyp])
      (auto simp: fun_eq_iff max_def)
qed


lemma pr_sums_XVec:
  assumes "length y \<le> length x"
  shows "pr_sum (pr_term_A (XVec x) i j) (length y) = Inr (\<Sum>l<length y. x ! l ^ (i + j))"
    "pr_sum (pr_term_B (XVec x) y i) (length y) = Inr (\<Sum>l<length y. x ! l ^ i * y ! l)"
  using assms by (auto intro!: pr_sum_ok simp: pr_term_A_def pr_term_B_def)

text \<open>With at least \<open>order + 1\<close> samples and no fewer x than y values,
  \<open>PolynomialRegression.__compute\<close> builds the normal equations: \<open>A[i][j]\<close> is
  the power sum of degree \<open>i + j\<close>, \<open>B[i]\<close> the moment of \<open>y\<close> of degree \<open>i\<close>,
  for \<open>i, j \<le> order\<close>; no other entry is written.\<close>

theorem PolynomialRegression_normal_system:
  assumes "length y \<le> length x" "order < length y"
  shows "PolynomialRegression x y order =
    Some (Inr (\<lambda>a b. if a \<le> order \<and> b \<le> order then \<Sum>l<length y. x ! l ^ (a + b) else 0,
               \<lambda>k. if k \<le> order then \<Sum>l<length y. x ! l ^ k * y ! l else 0))"
proof -
  have "pr_rows (XVec x) y (length y) 0 (order + 1) (\<lambda>_ _. 0) (\<lambda>_. 0) =
    Inr (\<lambda>a b. if 0 \<le> max a b \<and> max a b < 0 + (order + 1)
                then (if a = 0 \<and> b = 0 then real (length y)
                      else if b \<le> a then \<Sum>l<length y. x ! l ^ (a + b) else \<Sum>l<length y. x ! l ^ (b + a))
                else 0,
         \<lambda>k. if 0 \<le> k \<and> k < 0 + (order + 1) then \<Sum>l<length y. x ! l ^ k * y ! l else 0)"
    by (rule pr_rows_ok) (simp add: pr_sums_XVec[OF assms(1)])
  moreover have "PolynomialRegression x y order =
      Some (pr_rows (XVec x) y (length y) 0 (order + 1) (\<lambda>_ _. 0) (\<lambda>_. 0))"
    using assms(2) by (simp only: PolynomialRegression_def polyreg_system_def Let_def) simp
  ultimately show ?thesis
    by (simp only:) (auto simp: fun_eq_iff add.commute)
qed


lemma pr_terms_XMat:
  assumes "2 \<le> length X" "\<forall>row \<in> set X. n \<le> length row" "l < n" "i \<le> 2" "j \<le> i" "n \<le> length y"
  shows "pr_term_A (XMat X) i j l =
           Inr (if i = 0 \<and> j = 0 then last X ! l
                else (if i = 0 then 1 else X ! (i - 1) ! l) * (if j = 0 then 1 else X ! (j - 1) ! l))"
    "pr_term_B (XMat X) y i l = Inr ((if i = 0 then 1 else X ! (i - 1) ! l) * y ! l)"
proof -
  have row: "k < length X \<Longrightarrow> l < length (X ! k)" for k using assms(2,3) nth_mem by fastforce
  have ne: "X \<noteq> []" using assms(1) by auto
  then have lastl: "l < length (last X)" using assms(2,3) last_in_set by fastforce
  have gi: "0 < k \<Longrightarrow> k \<le> 2 \<Longrightarrow> py_get X (int k - 1) = Inr (X ! (k - 1))" for k
    using assms(1) py_get_nat[of "k - 1" X] by (simp add: of_nat_diff)
  have gr: "0 < k \<Longrightarrow> k \<le> 2 \<Longrightarrow> py_get (X ! (k - 1)) (int l) = Inr (X ! (k - 1) ! l)" for k
    using assms(1) row[of "k - 1"] by simp
  show "pr_term_A (XMat X) i j l =
           Inr (if i = 0 \<and> j = 0 then last X ! l
                else (if i = 0 then 1 else X ! (i - 1) ! l) * (if j = 0 then 1 else X ! (j - 1) ! l))"
    using assms(4,5) ne lastl gi[of i] gi[of j] gr[of i] gr[of j] by (auto simp: pr_term_A_def)
  show "pr_term_B (XMat X) y i l = Inr ((if i = 0 then 1 else X ! (i - 1) ! l) * y ! l)"
    using assms(3,4,6) gi[of i] gr[of i] by (auto simp: pr_term_B_def)
qed


text \<open>C37: for rows of equal length (a two-dimensional \<open>np.array\<close>) with at least as
  many entries as samples, \<open>MultipleLinearRegression\<close> builds the 3 x 3 normal equations of the
  regressors \<open>1, xValues[0], xValues[1]\<close>: rows of \<open>xValues\<close> after the second
  never enter the system.\<close>

theorem MultipleLinearRegression_normal_system:
  assumes "2 \<le> length X" "\<forall>row \<in> set X. length row = m" "length y \<le> m" "2 < length y"
  shows "MultipleLinearRegression X y =
    Some (Inr (\<lambda>a b. if a \<le> 2 \<and> b \<le> 2 then
                  \<Sum>l<length y. (if a = 0 then 1 else X ! (a - 1) ! l) * (if b = 0 then 1 else X ! (b - 1) ! l)
                else 0,
               \<lambda>k. if k \<le> 2 then \<Sum>l<length y. (if k = 0 then 1 else X ! (k - 1) ! l) * y ! l else 0))"
proof -
  have rows: "\<forall>row \<in> set X. length y \<le> length row" using assms(2,3) by simp
  have arr: "np_array_rows X = Inr (XMat X)"
    using assms(1,2) by (cases X) (auto simp: np_array_rows_def list_all_iff)
  define g where "g k l = (if k = 0 then 1 else X ! (k - 1) ! l)" for k l
  have tA: "pr_term_A (XMat X) i j l = Inr (if i = 0 \<and> j = 0 then last X ! l else g i l * g j l)"
    if "i < 3" "j \<le> i" "l < length y" for i j l
    using pr_terms_XMat(1)[OF assms(1) rows that(3) _ that(2) order.refl] that(1) by (simp add: g_def)
  have tB: "pr_term_B (XMat X) y i l = Inr (g i l * y ! l)" if "i < 3" "l < length y" for i l
    using pr_terms_XMat(2)[OF assms(1) rows that(2) _ _ order.refl, of i 0] that(1) by (simp add: g_def)
  have "pr_rows (XMat X) y (length y) 0 (2 + 1) (\<lambda>_ _. 0) (\<lambda>_. 0) =
    Inr (\<lambda>a b. if 0 \<le> max a b \<and> max a b < 0 + (2 + 1)
                then (if a = 0 \<and> b = 0 then real (length y)
                      else if b \<le> a then (if a = 0 \<and> b = 0 then \<Sum>l<length y. last X ! l else \<Sum>l<length y. g a l * g b l)
                      else (if b = 0 \<and> a = 0 then \<Sum>l<length y. last X ! l else \<Sum>l<length y. g b l * g a l))
                else 0,
         \<lambda>k. if 0 \<le> k \<and> k < 0 + (2 + 1) then \<Sum>l<length y. g k l * y ! l else 0)"
    by (rule pr_rows_ok) (auto intro!: pr_sum_ok simp: tA tB)
  moreover have "MultipleLinearRegression X y =
      Some (pr_rows (XMat X) y (length y) 0 (2 + 1) (\<lambda>_ _. 0) (\<lambda>_. 0))"
    using assms(4) by (simp only: MultipleLinearRegression_def arr sum.case polyreg_system_def Let_def) simp
  ultimately show ?thesis
    by (simp only:) (auto simp: fun_eq_iff mult.commute g_def)
qed

lemma LinearSplines_first:
  assumes "sorted_wrt (<) x" "x \<noteq> []"
  shows "LinearSplines x y (x ! 0) = Inr None"
proof -
  have "\<forall>item \<in> set (rev x). \<not> item < x ! 0"
    using assms by (auto simp: in_set_conv_nth sorted_wrt_iff_nth_less) (metis not_less_iff_gr_or_eq not_gr_zero)
  then show ?thesis using spline_scan_skip[of "rev x" "x ! 0" x y "[]"] by (simp add: LinearSplines_def)
qed

text \<open>C39: with three distinct nodes of a quadratic and \<open>order = 3\<close>, Newton
  interpolation returns the quadratic's value, and as error estimate the entry
  \<open>ea[2]\<close> of its \<open>np.empty\<close> array, which no iteration writes.\<close>

theorem NewtonPolynomialInterpolation_quadratic:
  assumes "distinct [x0, x1, x2]"
  shows "newton_interp_from F0 E0 [x0, x1, x2] (map (cubic c0 c1 c2 0) [x0, x1, x2]) v 3 =
           Inr (cubic c0 c1 c2 0 v, E0 2)"
  using newton_interp_3[OF assms] newton_quadratic_terms[OF assms] by simp


lemma LinearSplines_above:
  assumes sorted: "sorted_wrt (<) x" and len: "length y = length x" and ne: "x \<noteq> []"
    and above: "last x < value"
  shows "LinearSplines x y value = Inl IndexError"
proof -
  define j where "j = length x - 1"
  have jl: "j < length x" and lastj: "last x = x ! j" using ne by (simp_all add: j_def last_conv_nth)
  have rx: "rev x = x ! j # rev (butlast x)"
    using ne lastj by (metis append_butlast_last_id rev_eq_Cons_iff rev_rev_ident)
  have "x ! j \<notin> set (take j x)"
  proof
    assume "x ! j \<in> set (take j x)"
    then obtain i where ij: "i < j" and eq: "x ! i = x ! j" using jl by (auto simp: in_set_conv_nth)
    show False using sorted_wrt_nth_less[OF sorted ij jl] eq by simp
  qed
  then have idx: "py_index x (x ! j) = Inr j" using jl by simp
  have "int j + 1 = int (length y)" using len ne by (cases x) (simp_all add: j_def)
  then have "py_get y (int j + 1) = Inl IndexError" by (simp add: py_get_def)
  then show ?thesis using above lastj by (simp add: LinearSplines_def rx idx)
qed

text \<open>C38: on strictly increasing nodes \<open>LinearSplines\<close> interpolates: at every
  node after the first it returns the node's y value; at the first node it
  returns \<open>None\<close>, since no node lies strictly below it.\<close>

theorem LinearSplines_nodes:
  assumes "sorted_wrt (<) x" "length y = length x" "k < length x"
  shows "LinearSplines x y (x ! k) = (if k = 0 then Inr None else Inr (Some (y ! k)))"
  using LinearSplines_first[OF assms(1)] LinearSplines_node[OF assms(1,2) _ assms(3)] assms(3) by auto

lemma LinearInterpolation_identity:
  "LinearInterpolation 1 3 2 (\<lambda>u. u) = Inr (3 / 2) \<and> LinearInterpolation 1 3 1 (\<lambda>u. u) = Inl ZeroDivisionError"
  by (simp add: LinearInterpolation_def py_div_def)

theorem LinearRegression_normal_equations_witness:
  "length [1, 3, 5 :: real] = length [0, 1, 2 :: real] \<and> (0 :: real) \<in> set [0, 1, 2] \<and> (1 :: real) \<in> set [0, 1, 2] \<and>
   (0 :: real) \<noteq> 1 \<and>
   (\<exists>a1 a0. linreg_results (LinearRegression [0, 1, 2] [1, 3, 5]) = Inr (a1, a0) \<and>
      3 * a0 + a1 * 3 = 9 \<and> a0 * 3 + a1 * 5 = 13)"
  using LinearRegression_normal_equations[where x = "[0, 1, 2]" and y = "[1, 3, 5]" and a = 0 and b = 1]
  by simp

theorem LinearRegression_line_correlation_witness:
  "(0 :: real) \<in> set [0, 1] \<and> (1 :: real) \<in> set [0, 1] \<and> (0 :: real) \<noteq> 1 \<and>
   standartErrorEstimate (LinearRegression [0, 1] (map (\<lambda>u. 2 + -3 * u) [0, 1])) = Inr (-1)"
  using LinearRegression_line_correlation[of 0 "[0, 1]" 1 2 "-3"]
  by simp

lemma py_lower_EXP: "py_lower ''EXP'' = ''exp''" "py_lower ''nexp'' = ''nexp''"
  by code_simp+

theorem ExponentialRegression_exact_witness:
  "(0 :: real) \<in> set [0, 1] \<and> (1 :: real) \<in> set [0, 1] \<and> (0 :: real) \<noteq> 1 \<and> (0 :: real) < 2 \<and>
   expreg_results (ExponentialRegression [0, 1] (map (\<lambda>u. 2 * exp (3 * u)) [0, 1]) ''EXP'') = Inr (2, 3) \<and>
   expreg_results (ExponentialRegression [0, 1] (map (\<lambda>u. 2 * exp (3 * u)) [0, 1]) ''nexp'') = Inr (2, exp 3)"
  using ExponentialRegression_exact[where x = "[0, 1]" and a = 0 and b = 1 and A = 2 and B = 3 and mode = "''EXP''"]
    ExponentialRegression_exact[where x = "[0, 1]" and a = 0 and b = 1 and A = 2 and B = 3 and mode = "''nexp''"]
  by (simp add: py_lower_EXP)

theorem PolynomialRegression_normal_system_witness:
  "length [1, 3, 5 :: real] \<le> length [0, 1, 2 :: real] \<and> (1 :: nat) < length [1, 3, 5 :: real] \<and>
   map_option (map_sum id (\<lambda>(A, B). ([A 0 0, A 0 1, A 1 0, A 1 1, A 2 2], [B 0, B 1, B 2])))
     (PolynomialRegression [0, 1, 2] [1, 3, 5] 1) = Some (Inr ([3, 3, 3, 5, 0], [9, 13, 0]))"
  using PolynomialRegression_normal_system[where x = "[0, 1, 2]" and y = "[1, 3, 5]" and order = 1]
  by (simp add: numeral_eq_Suc lessThan_Suc)


theorem MultipleLinearRegression_normal_system_witness:
  "2 \<le> length [[0, 1, 2], [1, 0, 1], [5, 5, 5 :: real]] \<and>
   length [0, 1, 2 :: real] = 3 \<and> length [1, 0, 1 :: real] = 3 \<and> length [5, 5, 5 :: real] = 3 \<and>
   length [1, 2, 3 :: real] \<le> 3 \<and> 2 < length [1, 2, 3 :: real] \<and>
   map_option (map_sum id (\<lambda>(A, B). ([A 0 0, A 1 1, A 1 2, A 2 2, A 3 3], [B 0, B 1, B 2])))
     (MultipleLinearRegression [[0, 1, 2], [1, 0, 1], [5, 5, 5]] [1, 2, 3]) = Some (Inr ([3, 5, 2, 2, 0], [6, 8, 4]))"
  using MultipleLinearRegression_normal_system[where X = "[[0, 1, 2], [1, 0, 1], [5, 5, 5]]" and y = "[1, 2, 3]"
      and m = 3]
  by (simp add: numeral_eq_Suc lessThan_Suc)

theorem LinearSplines_nodes_witness:
  "sorted_wrt (<) [0, 1, 3 :: real] \<and> length [0, 2, 4 :: real] = length [0, 1, 3 :: real] \<and>
   (2 :: nat) < length [0, 1, 3 :: real] \<and> 0 < length [0, 1, 3 :: real] \<and>
   LinearSplines [0, 1, 3] [0, 2, 4] 3 = Inr (Some 4) \<and> LinearSplines [0, 1, 3] [0, 2, 4] 0 = Inr None"
  using LinearSplines_nodes[where x = "[0, 1, 3]" and y = "[0, 2, 4]" and k = 2]
    LinearSplines_nodes[where x = "[0, 1, 3]" and y = "[0, 2, 4]" and k = 0]
  by simp

theorem NewtonPolynomialInterpolation_quadratic_witness:
  "distinct [0, 1, 2 :: real] \<and>
   newton_interp_from (\<lambda>_ _. 0) (\<lambda>_. 7) [0, 1, 2] (map (cubic 1 0 1 0) [0, 1, 2]) 3 3 = Inr (10, 7)"
  using NewtonPolynomialInterpolation_quadratic[of 0 1 2 "\<lambda>_ _. 0" "\<lambda>_. 7" 1 0 1 3]
  by (simp add: cubic_def)

lemma np_vecmat_left_inverse:
  assumes inv: "\<forall>i<n. \<forall>j<n. (\<Sum>k<n. A i k * M k j) = (if i = j then 1 else 0)"
    and B: "\<forall>i<n. B i = (\<Sum>k<n. c k * A k i)"
  shows "np_vecmat B M n = map c [0..<n]"
proof -
  have "(\<Sum>i<n. B i * M i j) = c j" if j: "j < n" for j
  proof -
    have "(\<Sum>i<n. B i * M i j) = (\<Sum>i<n. \<Sum>k<n. c k * (A k i * M i j))"
      using B by (simp add: sum_distrib_right mult.assoc)
    also have "\<dots> = (\<Sum>k<n. \<Sum>i<n. c k * (A k i * M i j))"
      by (rule sum.swap)
    also have "\<dots> = (\<Sum>k<n. c k * (\<Sum>i<n. A k i * M i j))"
      by (simp only: sum_distrib_left)
    also have "\<dots> = (\<Sum>k<n. if k = j then c k else 0)"
      using inv j by (intro sum.cong) auto
    also have "\<dots> = c j" using j by simp
    finally show ?thesis .
  qed
  then show ?thesis by (simp add: np_vecmat_def)
qed

lemma polyreg_moment:
  fixes x y :: "real list" and c :: "nat \<Rightarrow> real"
  assumes "\<forall>l<n. y ! l = (\<Sum>j<m. c j * x ! l ^ j)"
  shows "(\<Sum>l<n. x ! l ^ i * y ! l) = (\<Sum>k<m. c k * (\<Sum>l<n. x ! l ^ (k + i)))"
proof -
  have "(\<Sum>l<n. x ! l ^ i * y ! l) = (\<Sum>l<n. \<Sum>k<m. c k * x ! l ^ (k + i))"
  proof (rule sum.cong)
    fix l assume "l \<in> {..<n}"
    then have "y ! l = (\<Sum>j<m. c j * x ! l ^ j)" using assms by simp
    have "x ! l ^ i * (\<Sum>j<m. c j * x ! l ^ j) = (\<Sum>k<m. c k * x ! l ^ (k + i))"
      by (simp only: sum_distrib_left power_add) (rule sum.cong, simp_all)
    then show "x ! l ^ i * y ! l = (\<Sum>k<m. c k * x ! l ^ (k + i))"
      using \<open>y ! l = _\<close> by simp
  qed simp
  also have "\<dots> = (\<Sum>k<m. \<Sum>l<n. c k * x ! l ^ (k + i))"
    by (rule sum.swap)
  also have "\<dots> = (\<Sum>k<m. c k * (\<Sum>l<n. x ! l ^ (k + i)))"
    by (simp only: sum_distrib_left)
  finally show ?thesis .
qed

text \<open>C36: when the data lie on a polynomial of degree at most \<open>order\<close>, with
  \<open>order < len(y) <= len(x)\<close>, \<open>PolynomialRegression.results()\<close> returns exactly
  its coefficients whenever \<open>np.linalg.inv\<close> inverts the matrix of power sums
  (and raises \<open>LinAlgError\<close> where it does not).\<close>

theorem PolynomialRegression_reproduces:
  assumes contract: "inv_contract linalg_inv" and len: "length y \<le> length x" "order < length y"
    and poly: "\<forall>l<length y. y ! l = (\<Sum>j<Suc order. c j * x ! l ^ j)"
  shows "PolynomialRegression_results linalg_inv x y order =
    (case linalg_inv (Suc order) (\<lambda>a b. if a \<le> order \<and> b \<le> order then \<Sum>l<length y. x ! l ^ (a + b) else 0) of
       None \<Rightarrow> Inl LinAlgError
     | Some M \<Rightarrow> Inr (map c [0..<Suc order]))"
proof -
  define G where "G = (\<lambda>a b. if a \<le> order \<and> b \<le> order then \<Sum>l<length y. x ! l ^ (a + b) else 0)"
  define Bv where "Bv = (\<lambda>k. if k \<le> order then \<Sum>l<length y. x ! l ^ k * y ! l else 0)"
  have sys: "PolynomialRegression x y order = Some (Inr (G, Bv))"
    unfolding G_def Bv_def by (rule PolynomialRegression_normal_system[OF len])
  show ?thesis
  proof (cases "linalg_inv (Suc order) G")
    case None
    then show ?thesis by (simp add: PolynomialRegression_results_def polyreg_results_def sys G_def[symmetric])
  next
    case (Some M)
    have inv: "\<forall>i<Suc order. \<forall>j<Suc order. (\<Sum>k<Suc order. G i k * M k j) = (if i = j then 1 else 0)"
      using contract Some unfolding inv_contract_def by blast
    have B: "\<forall>i<Suc order. Bv i = (\<Sum>k<Suc order. c k * G k i)"
      using polyreg_moment[OF poly] by (simp add: Bv_def G_def)
    show ?thesis
      using Some np_vecmat_left_inverse[OF inv B]
      by (simp add: PolynomialRegression_results_def polyreg_results_def sys G_def[symmetric])
  qed
qed

lemma inv_2x2_example_contract: "inv_contract inv_2x2_example"
  unfolding inv_contract_def inv_2x2_example_def
  by (auto simp: less_Suc_eq numeral_2_eq_2 lessThan_Suc split: if_splits)

theorem PolynomialRegression_reproduces_witness:
  "PolynomialRegression_results inv_2x2_example [0, 1, 2] [1, 3, 5] 1 = Inr [1, 2]"
proof -
  have "PolynomialRegression_results inv_2x2_example [0, 1, 2] [1, 3, 5] 1 =
    (case inv_2x2_example (Suc 1) (\<lambda>a b. if a \<le> 1 \<and> b \<le> 1 then \<Sum>l<length [1, 3, 5 :: real]. [0, 1, 2 :: real] ! l ^ (a + b) else 0) of
       None \<Rightarrow> Inl LinAlgError
     | Some M \<Rightarrow> Inr (map (\<lambda>j. [1, 2] ! j) [0..<Suc 1]))"
    by (rule PolynomialRegression_reproduces[OF inv_2x2_example_contract])
       (simp_all add: less_Suc_eq numeral_eq_Suc)
  then show ?thesis by (simp add: inv_2x2_example_def numeral_eq_Suc lessThan_Suc)
qed


lemma MultipleLinearRegression_ragged:
  "\<not> list_all (\<lambda>row. length row = length r) rs \<Longrightarrow>
   MultipleLinearRegression (r # rs) y = Some (Inl ValueError)"
  by (simp add: MultipleLinearRegression_def np_array_rows_def)

end
