(* ===== verification/Spec2Isabelle.thy ===== *)
theory Spec2Isabelle
  imports ODE Integration TwoDIntegration RootFind Systems Optimization DataIntegration CurveFitting
begin

text \<open>
  \<^bold>\<open>A verification library for MGokcayK/numerics.\<close>

  \<^medskip>\<^bold>\<open>The program.\<close> A Python library of textbook numerical methods. Its parts
  do not share state; each is a class whose methods take a user callback and
  numeric parameters and run a fixed algorithm:
  \<^item> \<open>src/ODE.py\<close>, class \<open>ODE\<close>: fixed-step initial-value solvers, seven for a
    scalar equation (\<open>Euler\<close>, \<open>Heun\<close>, \<open>Midpoint\<close>, \<open>RK2\<close>, \<open>RK3\<close>, \<open>RK4\<close>,
    \<open>RK5\<close>) and two for systems (\<open>SystemEuler\<close>, \<open>SystemRK4\<close>);
  \<^item> \<open>src/numerics/integration.py\<close>: quadrature over a callback
    (\<open>OneDIntegralwithFunction\<close>) and over sampled data (\<open>OneDIntegralwithData\<close>),
    and an unused, self-declared incomplete two-dimensional trapezoid rule
    (\<open>__TwoDIntegral\<close>);
  \<^item> \<open>src/rootfind.py\<close>, class \<open>RootFind\<close>: bisection, Newton-Raphson, secant
    and fixed-point iteration, configured by \<open>setParams\<close>;
  \<^item> \<open>src/optimization.py\<close>, class \<open>OneD\<close>: golden-section search, parabolic
    interpolation and Newton's method for a one-dimensional extremum;
  \<^item> \<open>src/numerics/tool.py\<close> and \<open>src/numerics/curveFitting.py\<close>: statistics
    helpers, regression and interpolation.

  \<^medskip>\<^bold>\<open>Modelling conventions\<close> (theory \<open>Prelude\<close>). Python floats are \<open>real\<close>:
  the theorems are about the algorithms in exact arithmetic, floating-point
  rounding is not modelled. Python ints are \<open>int\<close>, loop counters \<open>nat\<close>. Every
  \<open>raise\<close> of the sources and every runtime error their arithmetic or indexing can
  trigger (\<open>ZeroDivisionError\<close>, \<open>IndexError\<close>, \<open>UnboundLocalError\<close>) is a
  constructor of \<open>py_error\<close>, and a fallible routine returns \<open>py_error + 'a\<close>.
  A \<open>while\<close> loop whose exit the code does not guarantee is a
  \<^theory_text>\<open>partial_function (option)\<close>, \<open>None\<close> standing for the loop that never
  ends; termination is then a theorem of the form \<open>\<exists>r. f x = Some r\<close> under its
  precondition, never only a statement about returned results. Callbacks are
  HOL functions: the spec's callback contract makes them pure. Printing (the
  \<open>print\<close> in \<open>BiSection\<close>) is not modelled.

  \<^medskip>\<^bold>\<open>Theory ODE: the scalar steppers\<close> (\<open>src/ODE.py\<close>, lines 41-378 and
  460-506). The seven methods share one loop, \<open>while (xi + h <= xf)\<close> with an
  in-loop clamp \<open>if (xi + h) > xf: h = xf - xi\<close>; the model has it once, as
  \<open>ode_loop\<close>, parameterised by a stage formula (\<open>euler_step\<close>, \<open>heun_step\<close>,
  \<open>midpoint_step\<close>, \<open>rk2_step\<close>, \<open>rk3_step\<close>, \<open>rk4_step\<close>, \<open>rk5_step\<close>, each the
  body of the method's loop, coefficient for coefficient), and each method
  (\<open>Euler\<close> .. \<open>RK5\<close>) is \<open>ode_loop\<close> of its stage started at \<open>[xi], [yi]\<close>. The
  lemmas show: the loop refines the reference trajectory \<open>trajectory\<close>
  (\<open>ode_steps xi xf h\<close> full steps of size \<open>h\<close>); its \<open>x\<close> values are an
  increasing grid whose last point lies in \<open>(xf - h, xf]\<close>; it returns exactly
  when \<open>0 < h\<close> or the loop is not entered; its last point is \<open>xf\<close> exactly when
  \<open>(xf - xi) / h\<close> is an integer (the clamp is dead code, against the spec's
  promise); and every stage formula satisfies the order conditions of its
  method on the linear test equation and on quadrature-type right-hand sides.

  \<^medskip>\<^bold>\<open>Theory Integration: quadrature of a callback\<close>
  (\<open>src/numerics/integration.py\<close>, class \<open>OneDIntegralwithFunction\<close>, lines 41-296).
  Each method is one definition, its \<open>for\<close> loop a recursive function threading
  the loop variables (\<open>trap_loop\<close>, \<open>unequal_fn_loop\<close>, \<open>simpson_loop\<close>); a
  division by a zero segment count is \<open>ZeroDivisionError\<close>. \<open>Romberg\<close> fills the
  \<open>np.empty\<close> table, a function \<open>nat \<Rightarrow> nat \<Rightarrow> real\<close> started from arbitrary
  contents, row by row (\<open>romberg_rows\<close>, \<open>romberg_cols\<close>) and reads \<open>I[0][-1]\<close>;
  \<open>AdaptiveQuadrature\<close>'s unbounded recursion \<open>__qstep\<close> is a partial function
  \<open>qstep\<close>. The lemmas show: \<open>Trapezoid\<close> is the composite trapezoid rule and
  exact on linear integrands; \<open>SimpsonOneThird\<close> is exact on cubics for \<open>n = 1\<close>
  and every even \<open>n\<close>, and wrong for odd \<open>n > 1\<close>; \<open>SimpsonThirdEight\<close> is exact on
  cubics; \<open>TwoPointGaussLegendre\<close> computes a difference (only odd parts survive);
  \<open>TrapezoidUnequalSegments\<close> evaluates the callback at indices, not at the
  points, and subtracts (on \<open>a + b t\<close> it returns \<open>b (x[-1] - x[0]) / 2\<close>); \<open>Romberg\<close> equals the extrapolation table of the reference
  \<open>romberg_R\<close> (independent of the uninitialised contents), its second column is
  Simpson's rule and its third is exact on quintics; \<open>AdaptiveQuadrature\<close> returns
  the exact integral of every cubic.

  \<^medskip>\<^bold>\<open>Theory TwoDIntegration: the two-dimensional stub\<close>
  (\<open>src/numerics/integration.py\<close>, \<open>__TwoDIntegral.__Trapezoid\<close>, lines 470-488).
  Each grid line in \<open>y\<close> is one trapezoid rule in \<open>x\<close>, computed with the callback
  quadrature's loop \<open>trap_loop\<close> (\<open>td_row\<close>); the rows are collected by
  \<open>td_rows\<close>, and \<open>TwoD_Trapezoid\<close> combines \<open>I[0]\<close>, \<open>I[1]\<close>, \<open>I[2]\<close> and divides by
  the area. The lemmas show: each row is \<open>Trapezoid\<close> of the slice; with
  \<open>nY = 2\<close> the method is exact on bilinear integrands but returns their mean
  value, not their integral; \<open>nY < 2\<close> raises \<open>IndexError\<close>; for \<open>nY > 2\<close> the
  rows after the third are ignored. The spec excludes multi-dimensional
  quadrature; the code is modelled because it is part of the sources.

  \<^medskip>\<^bold>\<open>Theory RootFind: root finding\<close> (\<open>src/rootfind.py\<close>, lines 43-178). The
  attributes \<open>setParams\<close> sets are the record \<open>rootfind\<close>; an instance on which
  \<open>setParams\<close> was never called is \<open>None\<close>. Each method is its guard checks followed
  by its \<open>while\<close> loop as a partial function (\<open>bisect_loop\<close> with the loop's
  \<open>else\<close> branch, \<open>newton_loop\<close>, \<open>secant_loop\<close>, \<open>fixpoint_loop\<close>); the initial
  \<open>err = 100\<close> of the last three is the test \<open>100 > err s\<close> before the loop. The
  lemmas show: the missing-callback and missing-instance errors; the
  same-sign error of \<open>BiSection\<close>, also raised when a midpoint hits the root
  exactly (unless \<open>|func(x0)|\<close> is already below the tolerance); \<open>UnboundLocalError\<close> for tolerances of 100 or more; the residual at a
  returned value of \<open>BiSection\<close> and \<open>Secant\<close>; termination of \<open>BiSection\<close> for
  Lipschitz callbacks (the bracket halves: \<open>n\<close> halvings with
  \<open>L \<cdot> |x1 - x0| < err \<cdot> 2\<^sup>n\<close> suffice) and of \<open>Iteration\<close> for contractions (with the
  fixed-point defect bounded by \<open>q \<cdot> err\<close>); and the spec's \<open>x\<^sup>2 - 2\<close> test, whose
  three results are evaluated in the logic and shown within \<open>1e-13\<close> of \<open>\<surd>2\<close>.

  \<^medskip>\<^bold>\<open>Theory Systems: the system steppers\<close> (\<open>src/ODE.py\<close>, \<open>SystemEuler\<close>
  and \<open>SystemRK4\<close>). The state is a list, the callbacks a list of functions of
  the shared argument vector \<open>args = [x, y1, ...]\<close>; the code's in-place writes to
  \<open>yi\<close> and \<open>args\<close> are list updates \<open>xs[i := v]\<close> in folds over the component
  index (\<open>sys_args\<close>, \<open>sys_euler_step\<close>, \<open>rk4_mid_stage\<close>, \<open>rk4_last_stage\<close>,
  \<open>sys_rk4_step\<close>), threaded through \<open>sys_loop\<close>, which also returns the final
  content of the caller's \<open>yi\<close>. The lemmas show: \<open>SystemEuler\<close> refines the
  vector Euler method \<open>euler_vec\<close>; \<open>SystemRK4\<close> refines the spec's stage-wise
  \<open>rk4_vec\<close> exactly on triangular systems, equals the scalar \<open>RK4\<close> on one
  equation, and differs from it on \<open>y1' = y2, y2' = 1\<close>, because each callback
  already sees the components updated before it in the same stage; fewer state
  components than callbacks raise \<open>IndexError\<close>; and, as a type invariant of
  the state, with enough components both steppers return a table whose rows,
  like the final \<open>yi\<close>, all have the length of the initial state.

  \<^medskip>\<^bold>\<open>Theory Optimization: one-dimensional optimisation\<close>
  (\<open>src/optimization.py\<close>, class \<open>OneD\<close>). The golden-section attributes are the
  record \<open>oned\<close>; one pass of the loop is \<open>golden_step\<close>, the loop
  \<open>golden_loop\<close>; \<open>ParabolicInterpolation\<close> is \<open>parab_scan\<close> and \<open>parab_loop\<close> over
  its in-place list; \<open>Newton\<close> is \<open>opt_newton_loop\<close>. The lemmas show: the spec's
  golden-section update (\<open>golden_ref_step\<close>) keeps the golden shape of the
  bracket, while the code's update, which assigns \<open>x2\<close> to a local instead of the
  attribute, loses it; parabolic interpolation finds the vertex of a quadratic
  in one step from a good start, and stalls, never replacing a point, when all
  guesses lie on one side of the vertex.

  \<^medskip>\<^bold>\<open>Theory DataIntegration: quadrature of samples\<close>
  (\<open>src/numerics/integration.py\<close>, class \<open>OneDIntegralwithData\<close>). Each method is
  a fold over the sample lists with Python's \<open>max\<close>, \<open>min\<close> and \<open>index\<close>
  (\<open>py_max\<close>, \<open>py_min\<close>, \<open>py_index\<close>); \<open>dataRomberg\<close> reuses \<open>romberg_cols\<close>. The
  lemmas show that \<open>Trapezoid\<close> and \<open>SimpsonOneThird\<close> never read \<open>y\<close> (they sum
  abscissae) and that \<open>Romberg\<close> with data reduces to \<open>Trapezoid\<close> with data.

  \<^medskip>\<^bold>\<open>Theory Statistics: the helpers of \<open>src/numerics/tool.py\<close>.\<close> Each helper
  (\<open>arithmaticMean\<close>, \<open>variance\<close> with its one-pass sums \<open>variance_sums\<close>,
  \<open>standartDeviation\<close>, \<open>coeffOfVariation\<close>) is a fold followed by Python's true
  division \<open>py_div\<close>. The lemmas show that the mean and the one-pass variance
  equal the textbook \<open>mean_ref\<close> and two-pass \<open>variance_ref\<close> (non-negative, so
  \<open>** 0.5\<close> is \<open>sqrt\<close>), with \<open>ZeroDivisionError\<close> below two samples.

  \<^medskip>\<^bold>\<open>Theory CurveFitting: regression and interpolation\<close>
  (\<open>src/numerics/curveFitting.py\<close>). The running sums of \<open>LinearRegression\<close> are the
  record \<open>linreg\<close>, computed by \<open>linreg_compute\<close> (a fold over \<open>zip\<close>), read by
  \<open>linreg_results\<close> and \<open>standartErrorEstimate\<close>; \<open>ExponentialRegression\<close> is the
  record extended by its lower-cased mode (\<open>expreg\<close>, \<open>py_lower\<close>) over the logs
  of the samples, so it shares \<open>linreg_compute\<close> and \<open>linreg_results\<close>.
  \<open>PolynomialRegression\<close> and \<open>MultipleLinearRegression\<close> fill the two
  \<open>np.empty\<close> arrays of the normal equations, tables of arbitrary contents, by
  \<open>pr_rows\<close>, \<open>pr_cols\<close> and \<open>pr_sum\<close>, with the one- or two-dimensional
  \<open>xValues\<close> as the datatype \<open>xvalues\<close> (\<open>np_array_rows\<close> models \<open>np.array\<close> of a
  list of rows: ragged rows raise \<open>ValueError\<close>); with too few samples
  \<open>polyreg_system\<close> is \<open>None\<close> (\<open>results()\<close> raises \<open>AttributeError\<close>). The solve
  \<open>np.matmul(B, np.linalg.inv(A))\<close> and \<open>results()\<close> are \<open>polyreg_results\<close>
  (\<open>PolynomialRegression_results\<close>, \<open>MultipleLinearRegression_results\<close>):
  numpy's \<open>inv\<close> is a parameter \<open>linalg_inv\<close>, as a user callback is, and the
  theorems assume only numpy's documented contract \<open>inv_contract\<close> (a returned
  matrix is an inverse; \<open>None\<close> is \<open>LinAlgError\<close>). Of class
  \<open>Interpolation\<close>, \<open>LinearInterpolation\<close> is one division, \<open>LinearSplines\<close> the
  scan \<open>spline_scan\<close> over \<open>reversed(x)\<close>, and \<open>NewtonPolynomialInterpolation\<close> the
  divided-difference table (\<open>ndd_col0\<close>, \<open>ndd_col\<close>, \<open>ndd_table\<close>) and the
  evaluation loop \<open>newton_terms\<close>, from given initial contents of its two arrays
  (\<open>newton_interp_from\<close>). The lemmas show: the linear fit solves the normal
  equations (using Lagrange's identity for the denominator) and is exact on
  lines; \<open>standartErrorEstimate\<close> is the correlation coefficient; the
  exponential fit recovers \<open>A\<close> and \<open>B\<close> from exact samples in both modes; the
  polynomial system holds the power sums and moments, and on data lying on
  a polynomial of degree at most \<open>order\<close> the returned coefficients are exactly
  the polynomial's whenever \<open>inv\<close> succeeds; the multiple
  regression only ever uses two regressors; splines interpolate at the nodes
  (except the first, which gives \<open>None\<close>) and raise \<open>IndexError\<close> above the last;
  Newton's method is exact on quadratics and returns an unwritten error
  estimate; \<open>LinearInterpolation\<close> computes \<open>f(pt2) / ((pt2 - pt1)(value - pt1))\<close>.

  \<^medskip>\<^bold>\<open>Across components\<close> (this theory). On \<open>y' = g(x)\<close> the ODE solver and the
  quadrature component agree: \<open>RK4\<close> and \<open>Heun\<close> return, and their increments are
  \<open>SimpsonOneThird\<close> with two panels per step and \<open>Trapezoid\<close> with one panel per
  step over the covered interval (via the shared lemmas \<open>ode_iter_quadrature\<close> of
  theory ODE and \<open>SimpsonOneThird_even\<close>, \<open>Trapezoid_steps\<close> of theory
  Integration). The two-dimensional rule reuses the trapezoid loop. Within
  the components, \<open>dataRomberg\<close> shares \<open>romberg_cols\<close> with the callback
  \<open>Romberg\<close>, \<open>ExponentialRegression\<close> shares the linear fit, and the regressions
  call the statistics helpers.

  \<^medskip>\<^bold>\<open>Fuel and bounds.\<close> No fuel is used. Every \<open>for\<close> loop is a structural
  recursion on the number of iterations left. Every \<open>while\<close> loop, and the
  recursion of \<open>AdaptiveQuadrature\<close>, is a \<^theory_text>\<open>partial_function (option)\<close>, and its
  termination is proved as a theorem under the precondition that makes it
  true.

  \<^medskip>\<^bold>\<open>Not modelled.\<close>
  \<^item> The body of \<open>np.linalg.inv\<close>, a numpy library routine: it enters the model
    only through its contract (above). Whether numpy succeeds on a given
    matrix, and so whether \<open>results()\<close> returns, depends on that routine. The
    power-sum matrix is invertible for \<open>order + 1\<close> distinct abscissae, but that
    is not proved here.
  \<^item> Floating-point rounding, overflow to \<open>inf\<close>, and \<open>nan\<close>: all arithmetic is
    exact. In particular, \<open>np.log\<close> of a non-positive sample in
    \<open>ExponentialRegression\<close> is HOL's \<open>ln\<close>, so the theorems assume positive
    samples.
  \<^item> numpy's float64 arithmetic where it differs from Python's: a division of
    numpy floats by zero (the divided differences of
    \<open>NewtonPolynomialInterpolation\<close>, the slope of \<open>ExponentialRegression\<close>, whose
    sums come from \<open>np.log\<close>) yields \<open>inf\<close> or \<open>nan\<close> with a warning. The model
    raises \<open>ZeroDivisionError\<close> there instead, and the theorems about these
    methods assume distinct abscissae, which excludes that case. Integer input
    lists, which numpy turns into int64 arrays whose powers can wrap, are
    modelled as real data. The length-1 array \<open>ea[-1]\<close> is modelled as its single
    entry.
  \<^item> Python's \<open>RecursionError\<close> in the recursion of \<open>AdaptiveQuadrature\<close>: a
    recursion that does not return is \<open>None\<close>, whatever its depth.
  \<^item> \<open>print\<close> calls, which only write text.
  \<^item> Arguments whose Python type does not match the docstring, for example
    strings passed where numbers are expected: the model is typed.
\<close>

section \<open>Properties across components\<close>

lemma simpson_half_steps:
  fixes g :: fun1 and h xi :: real
  shows "h / 2 / 3 * (\<Sum>p<n. g (xi + real (2 * p) * (h / 2)) + 4 * g (xi + real (2 * p + 1) * (h / 2)) +
            g (xi + real (2 * p + 2) * (h / 2))) =
         (\<Sum>k<n. h / 6 * (g (xi + real k * h) + 4 * g (xi + real k * h + h / 2) + g (xi + real (Suc k) * h)))"
proof -
  have pts: "xi + real (2 * p) * (h / 2) = xi + real p * h" "xi + real (2 * p + 1) * (h / 2) = xi + real p * h + h / 2"
    "xi + real (2 * p + 2) * (h / 2) = xi + real (Suc p) * h" for p
    by (simp_all add: field_simps)
  show ?thesis by (simp only: pts sum_distrib_left) (simp add: field_simps)
qed

lemma quadrature_stages:
  "rk4_step (\<lambda>x y. g x) x y h = y + h / 6 * (g x + 4 * g (x + h / 2) + g (x + h))"
  "heun_step (\<lambda>x y. g x) x y h = y + h / 2 * (g x + g (x + h))"
  by (simp_all add: rk4_step_def heun_step_def Let_def field_simps)

lemma ode_steps_pos: "0 < h \<Longrightarrow> xi + h \<le> xf \<Longrightarrow> \<exists>m. ode_steps xi xf h = Suc m"
proof -
  assume "0 < h" "xi + h \<le> xf"
  then have "1 \<le> (xf - xi) / h" by (simp add: field_simps)
  then have "1 \<le> ode_steps xi xf h" by (simp add: ode_steps_def le_nat_iff)
  then show ?thesis by (cases "ode_steps xi xf h") auto
qed

lemma ode_loop_grid_run:
  assumes "0 < h" "ode_steps xi xf h = Suc m"
  shows "ode_loop step xf h xi yi [xi] [yi] =
           Some (xi # fst (ode_iter step (Suc m) h xi yi), yi # snd (ode_iter step (Suc m) h xi yi))"
    "length (fst (ode_iter step (Suc m) h xi yi)) = Suc m"
    "last (xi # fst (ode_iter step (Suc m) h xi yi)) = xi + real (Suc m) * h"
proof -
  show "ode_loop step xf h xi yi [xi] [yi] =
      Some (xi # fst (ode_iter step (Suc m) h xi yi), yi # snd (ode_iter step (Suc m) h xi yi))"
    using ode_loop_iter[OF assms(1), of step xf xi yi "[xi]" "[yi]"] by (simp add: assms(2))
  show "length (fst (ode_iter step (Suc m) h xi yi)) = Suc m" by (simp only: ode_iter_length)
  have "fst (ode_iter step (Suc m) h xi yi) = map (\<lambda>k. xi + real (Suc k) * h) [0..<Suc m]"
    by (simp only: ode_iter_xs)
  then show "last (xi # fst (ode_iter step (Suc m) h xi yi)) = xi + real (Suc m) * h" by simp
qed

text \<open>C40: the components agree where they meet: on an equation whose right-hand
  side does not depend on \<open>y\<close>, \<open>ODE.RK4\<close> and \<open>ODE.Heun\<close> with a positive step
  return, and the increment of the last value over \<open>yi\<close> is what
  \<open>OneDIntegralwithFunction.SimpsonOneThird\<close> (with two panels per step) and
  \<open>OneDIntegralwithFunction.Trapezoid\<close> (one panel per step) return on the
  interval the solver covered.\<close>

theorem ODE_quadrature_agreement:
  assumes "0 < h" "xi + h \<le> xf"
  shows "(\<exists>xs ys S. RK4 xi xf yi h (\<lambda>x y. g x) = Some (xs, ys) \<and>
            SimpsonOneThird xi (last xs) (2 * int (length xs - 1)) g = Inr S \<and> last ys = yi + S) \<and>
         (\<exists>xs ys T. Heun xi xf yi h (\<lambda>x y. g x) = Some (xs, ys) \<and>
            Trapezoid xi (last xs) (int (length xs - 1)) g = Inr T \<and> last ys = yi + T)"
proof -
  obtain m where m: "ode_steps xi xf h = Suc m" using ode_steps_pos[OF assms] by blast
  note run = ode_loop_grid_run[OF assms(1) m]
  define S where "S = (\<Sum>k<Suc m. h / 6 * (g (xi + real k * h) + 4 * g (xi + real k * h + h / 2) + g (xi + real (Suc k) * h)))"
  define T where "T = (\<Sum>k<Suc m. h / 2 * (g (xi + real k * h) + g (xi + real (Suc k) * h)))"
  have d: "h / 2 = (xi + real (Suc m) * h - xi) / real (2 * Suc m)" by (simp add: field_simps)
  have simpson: "SimpsonOneThird xi (xi + real (Suc m) * h) (int (2 * Suc m)) g = Inr S"
    by (simp only: S_def SimpsonOneThird_even[OF d] simpson_half_steps)
  have "(\<Sum>k<Suc m. h / 6 * (g (xi + real k * h) + 4 * g (xi + real k * h + h / 2) + g (xi + real k * h + h))) = S"
    "(\<Sum>k<Suc m. h / 2 * (g (xi + real k * h) + g (xi + real k * h + h))) = T"
    by (simp_all add: S_def T_def algebra_simps)
  moreover have
    "last (yi # snd (ode_iter (rk4_step (\<lambda>x y. g x)) (Suc m) h xi yi)) =
       yi + (\<Sum>k<Suc m. h / 6 * (g (xi + real k * h) + 4 * g (xi + real k * h + h / 2) + g (xi + real k * h + h)))"
    "last (yi # snd (ode_iter (heun_step (\<lambda>x y. g x)) (Suc m) h xi yi)) =
       yi + (\<Sum>k<Suc m. h / 2 * (g (xi + real k * h) + g (xi + real k * h + h)))"
    by (rule ode_iter_quadrature[where step = "rk4_step (\<lambda>x y. g x)" and h = h and Q = "\<lambda>x. h / 6 * (g x + 4 * g (x + h / 2) + g (x + h))",
          OF quadrature_stages(1)[where g = g and h = h]],
        rule ode_iter_quadrature[where step = "heun_step (\<lambda>x y. g x)" and h = h and Q = "\<lambda>x. h / 2 * (g x + g (x + h))",
          OF quadrature_stages(2)[where g = g and h = h]])
  ultimately have rk4: "last (yi # snd (ode_iter (rk4_step (\<lambda>x y. g x)) (Suc m) h xi yi)) = yi + S"
    and heun: "last (yi # snd (ode_iter (heun_step (\<lambda>x y. g x)) (Suc m) h xi yi)) = yi + T"
    by simp_all
  have trap: "Trapezoid xi (xi + real (Suc m) * h) (int (Suc m)) g = Inr T"
    unfolding T_def by (rule Trapezoid_steps[OF assms(1)])
  show ?thesis
    using run[of "rk4_step (\<lambda>x y. g x)" yi] run[of "heun_step (\<lambda>x y. g x)" yi] simpson trap rk4 heun
    by (simp add: RK4_def Heun_def)
qed

theorem ODE_quadrature_agreement_witness:
  "(0 :: real) < 1 / 2 \<and> (0 :: real) + 1 / 2 \<le> 1 \<and>
   (\<exists>xs ys S. RK4 0 1 0 (1 / 2) (\<lambda>x y. x ^ 2) = Some (xs, ys) \<and>
      SimpsonOneThird 0 (last xs) (2 * int (length xs - 1)) (\<lambda>x. x ^ 2) = Inr S \<and> last ys = 0 + S) \<and>
   (\<exists>xs ys T. Heun 0 1 0 (1 / 2) (\<lambda>x y. x ^ 2) = Some (xs, ys) \<and>
      Trapezoid 0 (last xs) (int (length xs - 1)) (\<lambda>x. x ^ 2) = Inr T \<and> last ys = 0 + T)"
  using ODE_quadrature_agreement[where h = "1 / 2" and xi = 0 and xf = 1 and yi = 0 and g = "\<lambda>x. x ^ 2"]
  by simp

end
